theory Spec2Isabelle
  imports Complex_Main "HOL-Library.Word"
begin

section \<open>Numbers\<close>

text \<open>
  Tensor elements are floating-point numbers. Finite floats are idealised as real numbers
  (no rounding, no overflow); the IEEE special values are kept, since the pipeline divides
  by a standard deviation that can be zero. There is one zero (no signed zero): every
  divisor in the source is a standard deviation or a count, which is never negative zero.
\<close>

datatype fl = Fin real | PInf | MInf | NaN

fun fneg :: "fl \<Rightarrow> fl" where
  "fneg (Fin x) = Fin (- x)"
| "fneg PInf = MInf"
| "fneg MInf = PInf"
| "fneg NaN = NaN"

fun fadd :: "fl \<Rightarrow> fl \<Rightarrow> fl" where
  "fadd (Fin x) (Fin y) = Fin (x + y)"
| "fadd NaN _ = NaN"
| "fadd _ NaN = NaN"
| "fadd PInf MInf = NaN"
| "fadd MInf PInf = NaN"
| "fadd PInf _ = PInf"
| "fadd _ PInf = PInf"
| "fadd MInf _ = MInf"
| "fadd _ MInf = MInf"

definition fsub :: "fl \<Rightarrow> fl \<Rightarrow> fl" where
  "fsub x y = fadd x (fneg y)"

fun fmul :: "fl \<Rightarrow> fl \<Rightarrow> fl" where
  "fmul (Fin x) (Fin y) = Fin (x * y)"
| "fmul NaN _ = NaN"
| "fmul _ NaN = NaN"
| "fmul (Fin x) PInf = (if x = 0 then NaN else if 0 < x then PInf else MInf)"
| "fmul (Fin x) MInf = (if x = 0 then NaN else if 0 < x then MInf else PInf)"
| "fmul PInf (Fin y) = (if y = 0 then NaN else if 0 < y then PInf else MInf)"
| "fmul MInf (Fin y) = (if y = 0 then NaN else if 0 < y then MInf else PInf)"
| "fmul PInf PInf = PInf"
| "fmul PInf MInf = MInf"
| "fmul MInf PInf = MInf"
| "fmul MInf MInf = PInf"

fun fdiv :: "fl \<Rightarrow> fl \<Rightarrow> fl" where
  "fdiv (Fin x) (Fin y) =
     (if y = 0 then (if x = 0 then NaN else if 0 < x then PInf else MInf)
      else Fin (x / y))"
| "fdiv NaN _ = NaN"
| "fdiv _ NaN = NaN"
| "fdiv (Fin x) PInf = Fin 0"
| "fdiv (Fin x) MInf = Fin 0"
| "fdiv PInf (Fin y) = (if 0 \<le> y then PInf else MInf)"
| "fdiv MInf (Fin y) = (if 0 \<le> y then MInf else PInf)"
| "fdiv PInf PInf = NaN"
| "fdiv PInf MInf = NaN"
| "fdiv MInf PInf = NaN"
| "fdiv MInf MInf = NaN"

fun fsqrt :: "fl \<Rightarrow> fl" where
  "fsqrt (Fin x) = (if x < 0 then NaN else Fin (sqrt x))"
| "fsqrt PInf = PInf"
| "fsqrt MInf = NaN"
| "fsqrt NaN = NaN"

text \<open>\<^verbatim>\<open>torch.round\<close>: to the nearest integer, a tie to the even one.\<close>

definition round_half_even :: "real \<Rightarrow> int" where
  "round_half_even x =
     (let f = \<lfloor>x\<rfloor>; d = x - of_int f
      in if d < 1 / 2 then f else if 1 / 2 < d then f + 1
         else if even f then f else f + 1)"

fun fround :: "fl \<Rightarrow> fl" where
  "fround (Fin x) = Fin (of_int (round_half_even x))"
| "fround PInf = PInf"
| "fround MInf = MInf"
| "fround NaN = NaN"

text \<open>\<^verbatim>\<open>torch.clamp(x, lo, hi)\<close> is \<open>min (max x lo) hi\<close>; NaN stays NaN.\<close>

fun fclamp :: "real \<Rightarrow> real \<Rightarrow> fl \<Rightarrow> fl" where
  "fclamp lo hi (Fin x) = Fin (min (max x lo) hi)"
| "fclamp lo hi PInf = Fin hi"
| "fclamp lo hi MInf = Fin (min lo hi)"
| "fclamp lo hi NaN = NaN"

text \<open>
  The cast \<^verbatim>\<open>.to(dtype=torch.uint8)\<close>. A finite value in the range of the type is
  truncated; for everything else the C cast is undefined, and the platform's result is
  the parameter \<open>ub\<close>.
\<close>

definition to_uint8 :: "(fl \<Rightarrow> 8 word) \<Rightarrow> fl \<Rightarrow> 8 word" where
  "to_uint8 ub x =
     (case x of
        Fin r \<Rightarrow> if 0 \<le> r \<and> r < 256 then word_of_int \<lfloor>r\<rfloor> else ub x
      | _ \<Rightarrow> ub x)"

section \<open>Tensors\<close>

text \<open>
  A tensor is its shape and its elements by index. Only the elements at indices inside
  the shape are meant; the operations below never read outside it when their operands
  have the shapes the pipeline gives them.
\<close>

record 'a tensor5 =
  dims5 :: "nat \<times> nat \<times> nat \<times> nat \<times> nat"
  elt5 :: "nat \<Rightarrow> nat \<Rightarrow> nat \<Rightarrow> nat \<Rightarrow> nat \<Rightarrow> 'a"

record 'a tensor4 =
  dims4 :: "nat \<times> nat \<times> nat \<times> nat"
  elt4 :: "nat \<Rightarrow> nat \<Rightarrow> nat \<Rightarrow> nat \<Rightarrow> 'a"

datatype error =
    RuntimeError
  | EinopsError
  | IndexError
  | FileNotFoundError string
  | UnidentifiedImageError string
  | InvalidImage

text \<open>
  \<open>InvalidImage\<close> is the error the specification names; the other errors are the ones
  the libraries raise at the places modelled below.
\<close>

definition map5 :: "('a \<Rightarrow> 'b) \<Rightarrow> 'a tensor5 \<Rightarrow> 'b tensor5" where
  "map5 g t = \<lparr>dims5 = dims5 t, elt5 = (\<lambda>b c f h w. g (elt5 t b c f h w))\<rparr>"

definition map4 :: "('a \<Rightarrow> 'b) \<Rightarrow> 'a tensor4 \<Rightarrow> 'b tensor4" where
  "map4 g t = \<lparr>dims4 = dims4 t, elt4 = (\<lambda>a b c d. g (elt4 t a b c d))\<rparr>"

text \<open>Broadcasting: an axis of size 1 is read at index 0 whatever the index.\<close>

definition bdim :: "nat \<Rightarrow> nat \<Rightarrow> nat" where
  "bdim m n = (if m = 1 then n else m)"

definition bidx :: "nat \<Rightarrow> nat \<Rightarrow> nat" where
  "bidx m i = (if m = 1 then 0 else i)"

definition broadcast5 ::
  "('a \<Rightarrow> 'b \<Rightarrow> 'c) \<Rightarrow> 'a tensor5 \<Rightarrow> 'b tensor5 \<Rightarrow> 'c tensor5" where
  "broadcast5 g x y =
     (case (dims5 x, dims5 y) of
        ((b1, c1, f1, h1, w1), (b2, c2, f2, h2, w2)) \<Rightarrow>
          \<lparr>dims5 = (bdim b1 b2, bdim c1 c2, bdim f1 f2, bdim h1 h2, bdim w1 w2),
           elt5 = (\<lambda>b c f h w.
             g (elt5 x (bidx b1 b) (bidx c1 c) (bidx f1 f) (bidx h1 h) (bidx w1 w))
               (elt5 y (bidx b2 b) (bidx c2 c) (bidx f2 f) (bidx h2 h) (bidx w2 w)))\<rparr>)"

text \<open>Sum of \<open>g 0, ..., g (n - 1)\<close>, as a reduction computes it.\<close>

primrec fsum :: "(nat \<Rightarrow> fl) \<Rightarrow> nat \<Rightarrow> fl" where
  "fsum g 0 = Fin 0"
| "fsum g (Suc n) = fadd (fsum g n) (g n)"

text \<open>
  Reductions over the axes 0, 2 and 3 of a 5-axis tensor, \<^verbatim>\<open>keepdim=True\<close>: the result
  has shape \<open>(1, C, 1, 1, W)\<close>, one value for each channel and each index of the last axis.
\<close>

definition sum_023 :: "fl tensor5 \<Rightarrow> nat \<Rightarrow> nat \<Rightarrow> fl" where
  "sum_023 t c w =
     (case dims5 t of
        (nb, nc, nf, nh, nw) \<Rightarrow>
          fsum (\<lambda>b. fsum (\<lambda>f. fsum (\<lambda>h. elt5 t b c f h w) nh) nf) nb)"

definition count_023 :: "'a tensor5 \<Rightarrow> nat" where
  "count_023 t = (case dims5 t of (nb, nc, nf, nh, nw) \<Rightarrow> nb * nf * nh)"

definition keep_14 :: "'a tensor5 \<Rightarrow> nat \<times> nat \<times> nat \<times> nat \<times> nat" where
  "keep_14 t = (case dims5 t of (nb, nc, nf, nh, nw) \<Rightarrow> (1, nc, 1, 1, nw))"

text \<open>\<^verbatim>\<open>t.mean(dim=[0, 2, 3], keepdim=True)\<close>\<close>

definition mean_023 :: "fl tensor5 \<Rightarrow> fl tensor5" where
  "mean_023 t =
     \<lparr>dims5 = keep_14 t,
      elt5 = (\<lambda>b c f h w. fdiv (sum_023 t c w) (Fin (real (count_023 t))))\<rparr>"

text \<open>
  \<^verbatim>\<open>t.std(dim=[0, 2, 3], keepdim=True)\<close>: the square root of the sum of squared
  deviations from the mean over the count less one (Bessel's correction, torch's default).
\<close>

definition fsquare :: "fl \<Rightarrow> fl" where
  "fsquare x = fmul x x"

definition std_023 :: "fl tensor5 \<Rightarrow> fl tensor5" where
  "std_023 t =
     \<lparr>dims5 = keep_14 t,
      elt5 = (\<lambda>b c f h w.
        fsqrt (fdiv (sum_023 (map5 fsquare (broadcast5 fsub t (mean_023 t))) c w)
                    (Fin (real (count_023 t - 1)))))\<rparr>"

text \<open>\<^verbatim>\<open>(t - mean) / std\<close> with both statistics over the axes 0, 2 and 3.\<close>

definition normalize_023 :: "fl tensor5 \<Rightarrow> fl tensor5" where
  "normalize_023 t = broadcast5 fdiv (broadcast5 fsub t (mean_023 t)) (std_023 t)"

text \<open>\<^verbatim>\<open>x[:, :3, :, :, :] = y[:, :3, :, :, :]\<close> on a copy of \<open>x\<close>\<close>

definition set_channels3 :: "'a tensor5 \<Rightarrow> 'a tensor5 \<Rightarrow> 'a tensor5" where
  "set_channels3 x y =
     \<lparr>dims5 = dims5 x,
      elt5 = (\<lambda>b c f h w. if c < 3 then elt5 y b c f h w else elt5 x b c f h w)\<rparr>"

text \<open>\<^verbatim>\<open>t[:, :, i, :, :]\<close>\<close>

definition frame5 :: "'a tensor5 \<Rightarrow> nat \<Rightarrow> 'a tensor4" where
  "frame5 t i =
     (case dims5 t of
        (nb, nc, nf, nh, nw) \<Rightarrow>
          \<lparr>dims4 = (nb, nc, nh, nw), elt4 = (\<lambda>b c h w. elt5 t b c i h w)\<rparr>)"

text \<open>Elementwise combination of two tensors of one shape.\<close>

definition zip4 :: "('a \<Rightarrow> 'b \<Rightarrow> 'c) \<Rightarrow> 'a tensor4 \<Rightarrow> 'b tensor4 \<Rightarrow> 'c tensor4" where
  "zip4 g x y = \<lparr>dims4 = dims4 x, elt4 = (\<lambda>a b c d. g (elt4 x a b c d) (elt4 y a b c d))\<rparr>"

text \<open>\<^verbatim>\<open>t.unsqueeze(2)\<close>\<close>

definition unsqueeze2 :: "'a tensor4 \<Rightarrow> 'a tensor5" where
  "unsqueeze2 t =
     (case dims4 t of
        (nb, nc, nh, nw) \<Rightarrow>
          \<lparr>dims5 = (nb, nc, 1, nh, nw), elt5 = (\<lambda>b c f h w. elt4 t b c h w)\<rparr>)"

text \<open>
  \<^verbatim>\<open>torch.cat(ts, dim=2)\<close>: the frames of the tensors one after the other. An empty
  list raises. The tensors the pipeline concatenates agree on the other axes.
\<close>

definition frames5 :: "'a tensor5 \<Rightarrow> nat" where
  "frames5 t = (case dims5 t of (nb, nc, nf, nh, nw) \<Rightarrow> nf)"

definition append2 :: "'a tensor5 \<Rightarrow> 'a tensor5 \<Rightarrow> 'a tensor5" where
  "append2 x y =
     (case dims5 x of
        (nb, nc, nf, nh, nw) \<Rightarrow>
          \<lparr>dims5 = (nb, nc, nf + frames5 y, nh, nw),
           elt5 = (\<lambda>b c f h w. if f < nf then elt5 x b c f h w else elt5 y b c (f - nf) h w)\<rparr>)"

fun cat2 :: "'a tensor5 list \<Rightarrow> error + 'a tensor5" where
  "cat2 [] = Inl RuntimeError"
| "cat2 (t # ts) = Inr (foldl append2 t ts)"

text \<open>\<^verbatim>\<open>rearrange(t, 'b c f h w -> (b f) c h w')\<close>\<close>

definition rearrange_bcfhw_bfchw :: "'a tensor5 \<Rightarrow> 'a tensor4" where
  "rearrange_bcfhw_bfchw t =
     (case dims5 t of
        (nb, nc, nf, nh, nw) \<Rightarrow>
          \<lparr>dims4 = (nb * nf, nc, nh, nw),
           elt4 = (\<lambda>n c h w. elt5 t (n div nf) c (n mod nf) h w)\<rparr>)"

text \<open>
  \<^verbatim>\<open>rearrange(t, '(b f) c h w -> b c f h w', b=bs)\<close>: raises unless \<open>bs\<close> divides the
  size of the first axis.
\<close>

definition rearrange_bfchw_bcfhw :: "'a tensor4 \<Rightarrow> nat \<Rightarrow> error + 'a tensor5" where
  "rearrange_bfchw_bcfhw t bs =
     (case dims4 t of
        (n, nc, nh, nw) \<Rightarrow>
          if bs = 0 \<or> n mod bs \<noteq> 0 then Inl EinopsError
          else Inr \<lparr>dims5 = (bs, nc, n div bs, nh, nw),
                    elt5 = (\<lambda>b c f h w. elt4 t (b * (n div bs) + f) c h w)\<rparr>)"

section \<open>Frame post-processing\<close>

fun chan3 :: "real \<times> real \<times> real \<Rightarrow> nat \<Rightarrow> real" where
  "chan3 (r, g, b) c = (if c = 0 then r else if c = 1 then g else b)"

text \<open>\<^verbatim>\<open>torch.tensor(mean).reshape(1, -1, 1, 1, 1)\<close>\<close>

definition reshape_1c111 :: "real \<times> real \<times> real \<Rightarrow> fl tensor5" where
  "reshape_1c111 m = \<lparr>dims5 = (1, 3, 1, 1, 1), elt5 = (\<lambda>b c f h w. Fin (chan3 m c))\<rparr>"

text \<open>Two axis sizes can be broadcast when they are equal or one of them is 1.\<close>

definition broadcastable :: "nat \<Rightarrow> nat \<Rightarrow> bool" where
  "broadcastable m n = (m = n \<or> m = 1 \<or> n = 1)"

definition broadcastable5 :: "'a tensor5 \<Rightarrow> 'b tensor5 \<Rightarrow> bool" where
  "broadcastable5 x y =
     (case (dims5 x, dims5 y) of
        ((b1, c1, f1, h1, w1), (b2, c2, f2, h2, w2)) \<Rightarrow>
          broadcastable b1 b2 \<and> broadcastable c1 c2 \<and> broadcastable f1 f2
          \<and> broadcastable h1 h2 \<and> broadcastable w1 w2)"

text \<open>
  An in-place operation (\<^verbatim>\<open>mul_\<close>, \<^verbatim>\<open>add_\<close>) keeps the shape of its left operand; it
  raises when the shapes cannot be broadcast, or when broadcasting the right operand would
  change the shape of the left one.
\<close>

definition inplace5 ::
  "(fl \<Rightarrow> fl \<Rightarrow> fl) \<Rightarrow> fl tensor5 \<Rightarrow> fl tensor5 \<Rightarrow> error + fl tensor5" where
  "inplace5 g x y =
     (if broadcastable5 x y \<and> dims5 (broadcast5 g x y) = dims5 x then Inr (broadcast5 g x y)
      else Inl RuntimeError)"

text \<open>\<^verbatim>\<open>rearrange(video, 'i c f h w -> f h (i w) c')\<close>\<close>

definition rearrange_icfhw_fhiwc :: "'a tensor5 \<Rightarrow> 'a tensor4" where
  "rearrange_icfhw_fhiwc t =
     (case dims5 t of
        (i, c, f, h, w) \<Rightarrow>
          \<lparr>dims4 = (f, h, i * w, c),
           elt4 = (\<lambda>f' h' x c'. elt5 t (x div w) c' f' h' (x mod w))\<rparr>)"

definition tensor2vid ::
  "fl tensor5 \<Rightarrow> real \<times> real \<times> real \<Rightarrow> real \<times> real \<times> real \<Rightarrow> error + fl tensor4" where
  "tensor2vid video mean std =
     (case inplace5 fmul video (reshape_1c111 std) of
        Inl e \<Rightarrow> Inl e
      | Inr v1 \<Rightarrow>
          (case inplace5 fadd v1 (reshape_1c111 mean) of
             Inl e \<Rightarrow> Inl e
           | Inr v2 \<Rightarrow> Inr (rearrange_icfhw_fhiwc v2)))"

definition postprocess :: "fl tensor5 \<Rightarrow> error + fl tensor4" where
  "postprocess x = tensor2vid x (1 / 2, 1 / 2, 1 / 2) (1 / 2, 1 / 2, 1 / 2)"

text \<open>
  \<^verbatim>\<open>images.mul(255).round().clamp(0, 255).to(dtype=torch.uint8)\<close> in \<^verbatim>\<open>save_webm\<close>
\<close>

definition to_pixel :: "(fl \<Rightarrow> 8 word) \<Rightarrow> fl \<Rightarrow> 8 word" where
  "to_pixel ub x = to_uint8 ub (fclamp 0 255 (fround (fmul x (Fin 255))))"

definition to_uint8_images :: "(fl \<Rightarrow> 8 word) \<Rightarrow> fl tensor4 \<Rightarrow> 8 word tensor4" where
  "to_uint8_images ub images = map4 (to_pixel ub) images"

section \<open>The blend schedule\<close>

text \<open>
  Python floats are idealised as real numbers (no rounding, no overflow).
  \<^verbatim>\<open>alphas = [initial_alpha * (ratio ** i) for i in range(max_frames)]\<close>
\<close>

definition alphas :: "real \<Rightarrow> real \<Rightarrow> nat \<Rightarrow> real list" where
  "alphas initial_alpha ratio max_frames =
     map (\<lambda>i. initial_alpha * ratio ^ i) [0..<max_frames]"

section \<open>Images, files and the world outside the pipeline\<close>

text \<open>An RGB image as PIL holds it: its size and a byte per row, column and channel.\<close>

record img =
  width :: nat
  height :: nat
  pix :: "nat \<Rightarrow> nat \<Rightarrow> nat \<Rightarrow> 8 word"

datatype filedata = ImageFile img | VideoFile "img list" int

text \<open>
  What the pipeline does to the outside, in the order it does it: texts handed to the text
  encoder, images opened, files written, videos read back, files removed, and runs of the
  sampler with the guidance scale, the step count and eta it was given.
\<close>

datatype event =
    TextEncoded string
  | ImageOpened string img
  | FileWritten string
  | VideoRead string
  | FileRemoved string
  | SamplerRun real nat real

text \<open>
  The world: the working directory, the directories and files that exist (by absolute
  path), the state of torch's random generator, and the events so far. Failures of the
  operating system other than a missing file or directory are outside the model.
\<close>

record world =
  cwd :: string
  dirs :: "string set"
  files :: "string \<Rightarrow> filedata option"
  generator :: nat
  trace :: "event list"

text \<open>
  The external collaborators, as functions: the text encoder, the values torch's generator
  draws in a given state, the sampler (noise, positive and negative conditioning, guidance
  scale, steps, eta), the decoder of the autoencoder, PIL's resampling, torchvision's
  rendering of a preview, the platform's cast of an out-of-range float to a byte, and what
  a written VP9 stream decodes to.
\<close>

record 'e env =
  text_encoder :: "string \<Rightarrow> 'e"
  randn_values :: "nat \<Rightarrow> nat \<Rightarrow> nat \<Rightarrow> nat \<Rightarrow> nat \<Rightarrow> nat \<Rightarrow> real"
  ddim_sample_loop :: "fl tensor5 \<Rightarrow> 'e \<Rightarrow> 'e \<Rightarrow> real \<Rightarrow> nat \<Rightarrow> real \<Rightarrow> fl tensor5"
  vae_decode :: "fl tensor4 \<Rightarrow> fl tensor4"
  resample :: "nat \<times> nat \<Rightarrow> img \<Rightarrow> nat \<Rightarrow> nat \<Rightarrow> nat \<Rightarrow> 8 word"
  save_image_pixels :: "fl tensor5 \<Rightarrow> nat \<Rightarrow> nat \<Rightarrow> nat \<Rightarrow> nat \<Rightarrow> 8 word"
  uint8_undefined :: "fl \<Rightarrow> 8 word"
  vp9_roundtrip :: "img list \<Rightarrow> img list"

subsection \<open>Paths and files\<close>

definition os_path_join :: "string \<Rightarrow> string \<Rightarrow> string" where
  "os_path_join a b =
     (if b \<noteq> [] \<and> hd b = CHR ''/'' then b
      else if a = [] \<or> last a = CHR ''/'' then a @ b
      else a @ ''/'' @ b)"

text \<open>A relative path is taken from the working directory.\<close>

definition resolve :: "world \<Rightarrow> string \<Rightarrow> string" where
  "resolve w p = os_path_join (cwd w) p"

text \<open>The directory of a path: what stands before its last separator.\<close>

definition dirname :: "string \<Rightarrow> string" where
  "dirname p =
     (let d = rev (dropWhile (\<lambda>c. c \<noteq> CHR ''/'') (rev p))
      in if d = ''/'' then d else butlast d)"

text \<open>Creating or overwriting a file needs its directory.\<close>

definition write_file :: "string \<Rightarrow> filedata \<Rightarrow> world \<Rightarrow> (error + unit) \<times> world" where
  "write_file p content w =
     (let q = resolve w p
      in if dirname q \<in> dirs w
         then (Inr (), w\<lparr>files := (files w)(q \<mapsto> content), trace := trace w @ [FileWritten q]\<rparr>)
         else (Inl (FileNotFoundError q), w))"

text \<open>\<^verbatim>\<open>Image.open(path).convert('RGB')\<close>\<close>

definition image_open :: "string \<Rightarrow> world \<Rightarrow> (error + img) \<times> world" where
  "image_open p w =
     (let q = resolve w p
      in case files w q of
           None \<Rightarrow> (Inl (FileNotFoundError q), w)
         | Some (ImageFile im) \<Rightarrow> (Inr im, w\<lparr>trace := trace w @ [ImageOpened q im]\<rparr>)
         | Some (VideoFile fs fps) \<Rightarrow> (Inl (UnidentifiedImageError q), w))"

text \<open>\<^verbatim>\<open>imageio.mimread(path)\<close>: the frames the stored stream decodes to.\<close>

definition mimread :: "'e env \<Rightarrow> string \<Rightarrow> world \<Rightarrow> (error + img list) \<times> world" where
  "mimread env p w =
     (let q = resolve w p
      in case files w q of
           None \<Rightarrow> (Inl (FileNotFoundError q), w)
         | Some (ImageFile im) \<Rightarrow> (Inr [im], w\<lparr>trace := trace w @ [VideoRead q]\<rparr>)
         | Some (VideoFile fs fps) \<Rightarrow>
             (Inr (vp9_roundtrip env fs), w\<lparr>trace := trace w @ [VideoRead q]\<rparr>))"

text \<open>\<^verbatim>\<open>image.resize(size)\<close>: PIL returns a copy when the size is already the one asked for.\<close>

definition pil_resize :: "'e env \<Rightarrow> nat \<times> nat \<Rightarrow> img \<Rightarrow> img" where
  "pil_resize env sz im =
     (if sz = (width im, height im) then im
      else \<lparr>width = fst sz, height = snd sz, pix = resample env sz im\<rparr>)"

text \<open>\<^verbatim>\<open>TF.to_tensor(image)\<close>: channel, row, column; bytes scaled to [0, 1].\<close>

definition to_tensor :: "img \<Rightarrow> nat \<Rightarrow> nat \<Rightarrow> nat \<Rightarrow> fl" where
  "to_tensor im c y x = Fin (real (unat (pix im y x c)) / 255)"

text \<open>\<^verbatim>\<open>torch.randn(shape)\<close>: finite values of the requested shape; the generator advances.\<close>

definition torch_randn ::
  "'e env \<Rightarrow> nat \<times> nat \<times> nat \<times> nat \<times> nat \<Rightarrow> world \<Rightarrow> fl tensor5 \<times> world" where
  "torch_randn env shape w =
     (\<lparr>dims5 = shape, elt5 = (\<lambda>b c f h x. Fin (randn_values env (generator w) b c f h x))\<rparr>,
      w\<lparr>generator := Suc (generator w)\<rparr>)"

text \<open>Python's \<^verbatim>\<open>str\<close> of a natural number.\<close>

definition digit_char :: "nat \<Rightarrow> char" where
  "digit_char d = char_of (48 + d)"

function str_nat :: "nat \<Rightarrow> string" where
  "str_nat n = (if n < 10 then [digit_char n] else str_nat (n div 10) @ [digit_char (n mod 10)])"
  by pat_completeness auto
termination
  by (relation "measure id") auto

text \<open>Python's \<^verbatim>\<open>s.split("\n")\<close>\<close>

fun split_nl :: "string \<Rightarrow> string list" where
  "split_nl [] = [[]]"
| "split_nl (c # cs) =
     (if c = CHR 0x0A then [] # split_nl cs
      else (case split_nl cs of [] \<Rightarrow> [[c]] | l # ls \<Rightarrow> (c # l) # ls))"

section \<open>The pipeline\<close>

subsection \<open>Conditioning\<close>

definition preprocess :: "'e env \<Rightarrow> string \<Rightarrow> string \<Rightarrow> world \<Rightarrow> ('e \<times> 'e) \<times> world" where
  "preprocess env text text_neg w =
     (let text_emb = text_encoder env text;
          w1 = w\<lparr>trace := trace w @ [TextEncoded text]\<rparr>;
          text_emb_neg = text_encoder env text_neg;
          w2 = w1\<lparr>trace := trace w1 @ [TextEncoded text_neg]\<rparr>
      in ((text_emb, text_emb_neg), w2))"

subsection \<open>The seed image\<close>

definition zeros5 :: "nat \<times> nat \<times> nat \<times> nat \<times> nat \<Rightarrow> fl tensor5" where
  "zeros5 shape = \<lparr>dims5 = shape, elt5 = (\<lambda>b c f h w. Fin 0)\<rparr>"

text \<open>\<^verbatim>\<open>final_tensor[0, :3, j, :, :] = image\<close>\<close>

definition assign_rgb_frame :: "fl tensor5 \<Rightarrow> nat \<Rightarrow> (nat \<Rightarrow> nat \<Rightarrow> nat \<Rightarrow> fl) \<Rightarrow> fl tensor5" where
  "assign_rgb_frame t j image_t =
     t\<lparr>elt5 := (\<lambda>b c f h w. if b = 0 \<and> c < 3 \<and> f = j then image_t c h w else elt5 t b c f h w)\<rparr>"

text \<open>
  The assignment needs the image's rows and columns (\<open>latent_h\<close>, \<open>latent_w\<close>) to be the
  last two axes of the tensor (\<open>latent_w\<close>, \<open>latent_h\<close>), so it raises unless the two are equal.
\<close>

definition preprocess_image_RGB ::
  "'e env \<Rightarrow> string \<Rightarrow> nat \<times> nat \<Rightarrow> nat \<Rightarrow> world \<Rightarrow> (error + fl tensor5) \<times> world" where
  "preprocess_image_RGB env image_path output_size max_frames w =
     (case image_open image_path w of
        (Inl e, w1) \<Rightarrow> (Inl e, w1)
      | (Inr opened, w1) \<Rightarrow>
          (let image_t = to_tensor (pil_resize env output_size opened);
               latent_w = fst output_size;
               latent_h = snd output_size;
               final_tensor = zeros5 (1, 4, max_frames, latent_w, latent_h)
           in if latent_w \<noteq> latent_h \<and> 0 < max_frames then (Inl RuntimeError, w1)
              else (Inr (foldl (\<lambda>t j. assign_rgb_frame t j image_t) final_tensor [0..<max_frames]),
                    w1)))"

subsection \<open>Blending\<close>

text \<open>
  \<^verbatim>\<open>alpha * combined_tensor[:, :, i, :, :] + (1 - alpha) * noise_tensor[:, :, i, :, :]\<close>
\<close>

definition blended_frame :: "real \<Rightarrow> fl tensor5 \<Rightarrow> fl tensor5 \<Rightarrow> nat \<Rightarrow> fl tensor4" where
  "blended_frame alpha combined_tensor noise_tensor i =
     zip4 fadd (map4 (fmul (Fin alpha)) (frame5 combined_tensor i))
               (map4 (fmul (Fin (1 - alpha))) (frame5 noise_tensor i))"

definition blended_tensors ::
  "real \<Rightarrow> real \<Rightarrow> nat \<Rightarrow> fl tensor5 \<Rightarrow> fl tensor5 \<Rightarrow> fl tensor5 list" where
  "blended_tensors initial_alpha ratio max_frames combined_tensor noise_tensor =
     map (\<lambda>i. unsqueeze2
                 (blended_frame (alphas initial_alpha ratio max_frames ! i)
                    combined_tensor noise_tensor i))
         [0..<max_frames]"

subsection \<open>Previews\<close>

definition save_preview :: "'e env \<Rightarrow> fl tensor5 \<Rightarrow> nat \<Rightarrow> world \<Rightarrow> (error + unit) \<times> world" where
  "save_preview env t j w =
     (case dims5 t of
        (nb, nc, nf, nh, nw) \<Rightarrow>
          if nb = 0 \<or> nf \<le> j then (Inl IndexError, w)
          else write_file
                 (os_path_join (cwd w) (''noise/preview_frame_'' @ str_nat j @ ''.png''))
                 (ImageFile \<lparr>width = nw, height = nh, pix = save_image_pixels env t j\<rparr>) w)"

fun save_noise_loop :: "'e env \<Rightarrow> fl tensor5 \<Rightarrow> nat list \<Rightarrow> world \<Rightarrow> (error + unit) \<times> world" where
  "save_noise_loop env t [] w = (Inr (), w)"
| "save_noise_loop env t (j # js) w =
     (case save_preview env t j w of
        (Inl e, w1) \<Rightarrow> (Inl e, w1)
      | (Inr u, w1) \<Rightarrow> save_noise_loop env t js w1)"

definition save_noise :: "'e env \<Rightarrow> fl tensor5 \<Rightarrow> nat \<Rightarrow> world \<Rightarrow> (error + unit) \<times> world" where
  "save_noise env input_noise_tensor max_frames w =
     save_noise_loop env input_noise_tensor [0..<max_frames] w"

subsection \<open>Decoding\<close>

text \<open>
  The tail of \<^verbatim>\<open>process\<close>: rescale by \<open>1 / scale_factor\<close>, fold the frames into the batch
  axis, decode, unfold with the batch size of the latent.
\<close>

definition scale_factor :: real where
  "scale_factor = 18215 / 100000"

definition decode_latents :: "'e env \<Rightarrow> fl tensor5 \<Rightarrow> error + fl tensor5" where
  "decode_latents env x0 =
     (let video_data = map5 (fmul (Fin (1 / scale_factor))) x0;
          bs_vd = fst (dims5 video_data);
          flat = rearrange_bcfhw_bfchw video_data;
          decoded = vae_decode env flat
      in rearrange_bfchw_bcfhw decoded bs_vd)"

subsection \<open>Sampling\<close>

text \<open>
  \<^verbatim>\<open>self.diffusion.ddim_sample_loop(noise=..., model_kwargs=[{'y': ...}, {'y': ...}],
  guide_scale=..., ddim_timesteps=..., eta=...)\<close>: the one place where the sampler is
  invoked. The run is recorded with the guidance scale, the step count and the eta that
  the sampler is actually given.
\<close>

definition run_ddim_sample_loop ::
  "'e env \<Rightarrow> fl tensor5 \<Rightarrow> 'e \<Rightarrow> 'e \<Rightarrow> real \<Rightarrow> nat \<Rightarrow> real \<Rightarrow> world
     \<Rightarrow> fl tensor5 \<times> world" where
  "run_ddim_sample_loop env noise y y_neg guide_scale ddim_timesteps eta w =
     (ddim_sample_loop env noise y y_neg guide_scale ddim_timesteps eta,
      w\<lparr>trace := trace w @ [SamplerRun guide_scale ddim_timesteps eta]\<rparr>)"

subsection \<open>One generation\<close>

text \<open>
  The latent the sampler starts from, from the two noise draws and the image tensor
  (lines 148 to 180 of \<^verbatim>\<open>process\<close>).
\<close>

definition combined_tensor_of :: "fl tensor5 \<Rightarrow> fl tensor5 \<Rightarrow> fl tensor5" where
  "combined_tensor_of input_noise_tensor image_tensor =
     set_channels3 input_noise_tensor (normalize_023 image_tensor)"

definition blend ::
  "fl tensor5 \<Rightarrow> fl tensor5 \<Rightarrow> fl tensor5 \<Rightarrow> real \<Rightarrow> real \<Rightarrow> nat \<Rightarrow> error + fl tensor5" where
  "blend input_noise_tensor image_tensor noise_tensor initial_alpha ratio max_frames =
     (case cat2 (blended_tensors initial_alpha ratio max_frames
                   (combined_tensor_of input_noise_tensor image_tensor) noise_tensor) of
        Inl e \<Rightarrow> Inl e
      | Inr blended_tensor \<Rightarrow> Inr (normalize_023 blended_tensor))"

definition process ::
  "'e env \<Rightarrow> 'e \<Rightarrow> 'e \<Rightarrow> string \<Rightarrow> real \<Rightarrow> real \<Rightarrow> int \<Rightarrow> world
     \<Rightarrow> (error + fl tensor5) \<times> world" where
  "process env text_emb text_emb_neg image_path initial_alpha ratio max_frames w =
     (let context = [text_emb_neg, text_emb];
          latent_h = 32;
          latent_w = 32
      in if max_frames < 0 then (Inl RuntimeError, w)
         else
           (case torch_randn env (1, 4, nat max_frames, latent_h, latent_w) w of
              (input_noise_tensor, w1) \<Rightarrow>
           (case preprocess_image_RGB env image_path (latent_w, latent_h) (nat max_frames) w1 of
              (Inl e, w2) \<Rightarrow> (Inl e, w2)
            | (Inr image_tensor, w2) \<Rightarrow>
           (case torch_randn env (dims5 (combined_tensor_of input_noise_tensor image_tensor)) w2 of
              (noise_tensor, w3) \<Rightarrow>
           (case blend input_noise_tensor image_tensor noise_tensor initial_alpha ratio
                   (nat max_frames) of
              Inl e \<Rightarrow> (Inl e, w3)
            | Inr normalized_blended_tensor \<Rightarrow>
           (case save_noise env normalized_blended_tensor (nat max_frames) w3 of
              (Inl e, w4) \<Rightarrow> (Inl e, w4)
            | (Inr u, w4) \<Rightarrow>
                (case run_ddim_sample_loop env normalized_blended_tensor
                        (context ! 1) (context ! 0) 9 50 0 w4 of
                   (x0, w5) \<Rightarrow>
                     (case decode_latents env x0 of
                        Inl e \<Rightarrow> (Inl e, w5)
                      | Inr video_data \<Rightarrow> (Inr video_data, w5)))))))))"

subsection \<open>Writing the video\<close>

text \<open>\<^verbatim>\<open>[Image.fromarray(x) for x in images]\<close>\<close>

definition frames_of :: "8 word tensor4 \<Rightarrow> img list" where
  "frames_of images =
     (case dims4 images of
        (nf, nh, nw, nc) \<Rightarrow>
          map (\<lambda>f. \<lparr>width = nw, height = nh, pix = (\<lambda>y x c. elt4 images f y x c)\<rparr>) [0..<nf])"

definition save_webm ::
  "'e env \<Rightarrow> fl tensor4 \<Rightarrow> string \<Rightarrow> int \<Rightarrow> world \<Rightarrow> (error + unit) \<times> world" where
  "save_webm env images file_path fps w =
     (let frames = frames_of (to_uint8_images (uint8_undefined env) images)
      in write_file file_path (VideoFile frames fps) w)"

subsection \<open>The public call\<close>

text \<open>
  \<^verbatim>\<open>__call__(text, text_neg, max_frames, initial_alpha, ratio, image_path,
  output_file_path, fps)\<close>; all its parameters, in the source's order.
\<close>

definition call ::
  "'e env \<Rightarrow> string \<Rightarrow> string \<Rightarrow> int \<Rightarrow> real \<Rightarrow> real \<Rightarrow> string \<Rightarrow> string \<Rightarrow> int \<Rightarrow> world
     \<Rightarrow> (error + string) \<times> world" where
  "call env text text_neg max_frames initial_alpha ratio image_path output_file_path fps w =
     (case preprocess env text text_neg w of
        ((text_emb, text_emb_neg), w1) \<Rightarrow>
     (case process env text_emb text_emb_neg image_path initial_alpha ratio max_frames w1 of
        (Inl e, w2) \<Rightarrow> (Inl e, w2)
      | (Inr y, w2) \<Rightarrow>
     (case postprocess y of
        Inl e \<Rightarrow> (Inl e, w2)
      | Inr out \<Rightarrow>
     (case save_webm env out output_file_path fps w2 of
        (Inl e, w3) \<Rightarrow> (Inl e, w3)
      | (Inr u, w3) \<Rightarrow> (Inr ''complete'', w3)))))"

subsection \<open>Chaining prompts\<close>

text \<open>
  The loop of \<^verbatim>\<open>process_multiline_prompt\<close>. Each generation is called with the
  prompt and the keyword arguments of the source; \<open>text_neg\<close> is left at its default, the
  empty string.
\<close>

fun chain_prompts ::
  "'e env \<Rightarrow> string list \<Rightarrow> string \<Rightarrow> int \<Rightarrow> real \<Rightarrow> real \<Rightarrow> string \<Rightarrow> int \<Rightarrow> img list \<Rightarrow> world
     \<Rightarrow> (error + img list) \<times> world" where
  "chain_prompts env [] image_path max_frames initial_alpha ratio output_file_path fps
     all_frames w = (Inr all_frames, w)"
| "chain_prompts env (prompt # prompts) image_path max_frames initial_alpha ratio
     output_file_path fps all_frames w =
     (case call env prompt [] max_frames initial_alpha ratio image_path output_file_path fps w of
        (Inl e, w1) \<Rightarrow> (Inl e, w1)
      | (Inr r, w1) \<Rightarrow>
     (case mimread env output_file_path w1 of
        (Inl e, w2) \<Rightarrow> (Inl e, w2)
      | (Inr video_frames, w2) \<Rightarrow>
          if video_frames = [] then (Inl IndexError, w2)
          else
            (case write_file ''temp_last_frame.png'' (ImageFile (last video_frames)) w2 of
               (Inl e, w3) \<Rightarrow> (Inl e, w3)
             | (Inr u, w3) \<Rightarrow>
                 chain_prompts env prompts ''temp_last_frame.png'' max_frames initial_alpha
                   ratio output_file_path fps (all_frames @ video_frames) w3)))"

definition process_multiline_prompt ::
  "'e env \<Rightarrow> string \<Rightarrow> string \<Rightarrow> int \<Rightarrow> real \<Rightarrow> real \<Rightarrow> string \<Rightarrow> int \<Rightarrow> world
     \<Rightarrow> (error + string) \<times> world" where
  "process_multiline_prompt env multiline_prompt image_path max_frames initial_alpha ratio
     output_file_path fps w =
     (case chain_prompts env (split_nl multiline_prompt) image_path max_frames initial_alpha
             ratio output_file_path fps [] w of
        (Inl e, w1) \<Rightarrow> (Inl e, w1)
      | (Inr all_frames, w1) \<Rightarrow>
     (case write_file output_file_path (VideoFile all_frames fps) w1 of
        (Inl e, w2) \<Rightarrow> (Inl e, w2)
      | (Inr u, w2) \<Rightarrow>
          (let q = resolve w2 ''temp_last_frame.png''
           in if files w2 q \<noteq> None
              then (Inr ''complete'',
                    w2\<lparr>files := (files w2)(q := None), trace := trace w2 @ [FileRemoved q]\<rparr>)
              else (Inr ''complete'', w2))))"

section \<open>A stub environment\<close>

text \<open>
  Deterministic stand-ins for the external collaborators, for running the pipeline on
  concrete inputs: every noise value is 1, the sampler returns its noise, the decoder
  keeps the first three channels, and the codec and the resampling change nothing.
\<close>

definition stub_decode :: "fl tensor4 \<Rightarrow> fl tensor4" where
  "stub_decode t =
     (case dims4 t of (n, nc, nh, nw) \<Rightarrow> \<lparr>dims4 = (n, 3, nh, nw), elt4 = elt4 t\<rparr>)"

definition stub_env :: "unit env" where
  "stub_env =
     \<lparr>text_encoder = (\<lambda>s. ()),
      randn_values = (\<lambda>g b c f h x. 1),
      ddim_sample_loop = (\<lambda>noise y y_neg guide_scale ddim_timesteps eta. noise),
      vae_decode = stub_decode,
      resample = (\<lambda>sz im. pix im),
      save_image_pixels = (\<lambda>t j y x c. 0),
      uint8_undefined = (\<lambda>x. 0),
      vp9_roundtrip = (\<lambda>fs. fs)\<rparr>"

text \<open>
  A probe: the stub environment with a sampler whose output shows the guidance scale it is
  given. Through the stub decoder, the default post-processing and the conversion to bytes,
  a latent value \<open>scale_factor * (2 * g / 255 - 1)\<close> becomes the byte \<open>g\<close>, rounded.
\<close>

definition probe_env :: "unit env" where
  "probe_env =
     stub_env\<lparr>ddim_sample_loop :=
       (\<lambda>noise y y_neg guide_scale ddim_timesteps eta.
          \<lparr>dims5 = dims5 noise,
           elt5 = (\<lambda>b c f h x. Fin (scale_factor * (2 * guide_scale / 255 - 1)))\<rparr>)\<rparr>"

text \<open>Two 32 by 32 seed images: a constant grey one, and one with horizontal stripes.\<close>

definition gray_image :: img where
  "gray_image = \<lparr>width = 32, height = 32, pix = (\<lambda>y x c. 128)\<rparr>"

definition striped_image :: img where
  "striped_image =
     \<lparr>width = 32, height = 32,
      pix = (\<lambda>y x c. if y < 6 then 6 else if y < 12 then 0 else if y < 14 then 5
                      else if y < 16 then 1 else 3)\<rparr>"

definition stub_world :: world where
  "stub_world =
     \<lparr>cwd = ''/w'', dirs = {''/w'', ''/w/noise''}, files = Map.empty, generator = 0,
      trace = []\<rparr>"

section \<open>Notions used in the statements\<close>

text \<open>The sum of a real function over the axes 0, 2 and 3.\<close>

definition sum3 :: "nat \<Rightarrow> nat \<Rightarrow> nat \<Rightarrow> (nat \<Rightarrow> nat \<Rightarrow> nat \<Rightarrow> real) \<Rightarrow> real" where
  "sum3 nb nf nh g = (\<Sum>b<nb. \<Sum>f<nf. \<Sum>h<nh. g b f h)"

definition world_with :: "img \<Rightarrow> world" where
  "world_with im = stub_world\<lparr>files := [''/w/input.png'' \<mapsto> ImageFile im]\<rparr>"

text \<open>
  The statistics of one whole channel, over all the other axes: what a normalisation with
  one mean and one std per channel would bring to 0 and 1. \<open>k\<close> is the correction of the
  variance (1 for Bessel's, 0 for none).
\<close>

definition sum_0234 :: "fl tensor5 \<Rightarrow> nat \<Rightarrow> fl" where
  "sum_0234 t c =
     (case dims5 t of
        (nb, nc, nf, nh, nw) \<Rightarrow>
          fsum (\<lambda>b. fsum (\<lambda>f. fsum (\<lambda>h. fsum (\<lambda>w. elt5 t b c f h w) nw) nh) nf) nb)"

definition count_0234 :: "'a tensor5 \<Rightarrow> nat" where
  "count_0234 t = (case dims5 t of (nb, nc, nf, nh, nw) \<Rightarrow> nb * nf * nh * nw)"

definition channel_mean :: "fl tensor5 \<Rightarrow> nat \<Rightarrow> fl" where
  "channel_mean t c = fdiv (sum_0234 t c) (Fin (real (count_0234 t)))"

definition channel_variance :: "nat \<Rightarrow> fl tensor5 \<Rightarrow> nat \<Rightarrow> fl" where
  "channel_variance k t c =
     fdiv (sum_0234 (map5 (\<lambda>v. fsquare (fsub v (channel_mean t c))) t) c)
          (Fin (real (count_0234 t - k)))"

text \<open>The bytes of the striped image, row by row.\<close>

definition stripe :: "nat \<Rightarrow> real" where
  "stripe h = (if h < 6 then 6 else if h < 12 then 0 else if h < 14 then 5
               else if h < 16 then 1 else 3)"

text \<open>The tensor \<^verbatim>\<open>torch.randn\<close> returns when the generator is in state \<open>g\<close>.\<close>

definition randn_tensor :: "'e env \<Rightarrow> nat \<Rightarrow> nat \<times> nat \<times> nat \<times> nat \<times> nat \<Rightarrow> fl tensor5" where
  "randn_tensor env g shape =
     \<lparr>dims5 = shape, elt5 = (\<lambda>b c f h x. Fin (randn_values env g b c f h x))\<rparr>"

text \<open>The image tensor \<^verbatim>\<open>preprocess_image_RGB\<close> builds from an opened image.\<close>

definition image_tensor_of :: "'e env \<Rightarrow> img \<Rightarrow> nat \<Rightarrow> fl tensor5" where
  "image_tensor_of env im F =
     foldl (\<lambda>t j. assign_rgb_frame t j (to_tensor (pil_resize env (32, 32) im)))
       (zeros5 (1, 4, F, 32, 32)) [0..<F]"

text \<open>
  The latent \<^verbatim>\<open>process\<close> hands to the sampler, from the opened image and the state of
  the generator at the start: the two draws are made in the states \<open>g\<close> and \<open>Suc g\<close>.
\<close>

definition initial_latent ::
  "'e env \<Rightarrow> img \<Rightarrow> real \<Rightarrow> real \<Rightarrow> nat \<Rightarrow> nat \<Rightarrow> error + fl tensor5" where
  "initial_latent env im initial_alpha ratio F g =
     blend (randn_tensor env g (1, 4, F, 32, 32)) (image_tensor_of env im F)
       (randn_tensor env (Suc g) (1, 4, F, 32, 32)) initial_alpha ratio F"

text \<open>The path of the preview of frame \<open>j\<close>, for the working directory \<open>d\<close>.\<close>

definition preview_path :: "string \<Rightarrow> nat \<Rightarrow> string" where
  "preview_path d j = os_path_join d (''noise/preview_frame_'' @ str_nat j @ ''.png'')"

text \<open>The file the write of that preview creates: the path, taken from \<open>d\<close>.\<close>

definition written_preview :: "string \<Rightarrow> nat \<Rightarrow> string" where
  "written_preview d j = os_path_join d (preview_path d j)"

definition absolute :: "string \<Rightarrow> bool" where
  "absolute p = (p \<noteq> [] \<and> hd p = CHR ''/'')"

text \<open>
  What the pipeline relies on from its collaborators: the sampler returns a latent of the
  shape of its noise, the decoder returns one three-channel image for each entry of its
  batch, and a video read back has as many frames as were written.
\<close>

definition sampler_keeps_shape :: "'e env \<Rightarrow> bool" where
  "sampler_keeps_shape env =
     (\<forall>noise y y_neg g n eta. dims5 (ddim_sample_loop env noise y y_neg g n eta) = dims5 noise)"

definition decoder_keeps_batch :: "'e env \<Rightarrow> bool" where
  "decoder_keeps_batch env =
     (\<forall>t. fst (dims4 (vae_decode env t)) = fst (dims4 t)
          \<and> fst (snd (dims4 (vae_decode env t))) = 3)"

definition codec_keeps_frames :: "'e env \<Rightarrow> bool" where
  "codec_keeps_frames env = (\<forall>fs. length (vp9_roundtrip env fs) = length fs)"

text \<open>Projections of a trace.\<close>

fun encoded_texts :: "event list \<Rightarrow> string list" where
  "encoded_texts [] = []"
| "encoded_texts (TextEncoded s # evs) = s # encoded_texts evs"
| "encoded_texts (ev # evs) = encoded_texts evs"

fun sampler_runs :: "event list \<Rightarrow> (real \<times> nat \<times> real) list" where
  "sampler_runs [] = []"
| "sampler_runs (SamplerRun g n eta # evs) = (g, n, eta) # sampler_runs evs"
| "sampler_runs (ev # evs) = sampler_runs evs"

fun opened_images :: "event list \<Rightarrow> (string \<times> img) list" where
  "opened_images [] = []"
| "opened_images (ImageOpened q im # evs) = (q, im) # opened_images evs"
| "opened_images (ev # evs) = opened_images evs"

text \<open>Reading a decimal numeral back, the inverse of \<open>str_nat\<close>.\<close>

definition nat_of_digits :: "string \<Rightarrow> nat" where
  "nat_of_digits s = foldl (\<lambda>a c. 10 * a + (of_char c - 48)) 0 s"

section \<open>Properties of the blend schedule\<close>

lemma alphas_length: "length (alphas a0 r F) = F"
  by (simp add: alphas_def)

lemma alphas_nth: "i < F \<Longrightarrow> alphas a0 r F ! i = a0 * r ^ i"
  by (simp add: alphas_def)

lemma alphas_step:
  fixes a0 r :: real
  assumes "0 \<le> a0" and "0 \<le> r" and "r \<le> 1"
  shows "a0 * r ^ Suc i \<le> a0 * r ^ i"
proof -
  have "r ^ Suc i \<le> r ^ i"
    by (rule power_decreasing) (simp_all add: assms)
  then show ?thesis
    using assms(1) by (rule mult_left_mono)
qed

text \<open>
  Claim C2. For an initial weight in [0,1], a ratio in (0,1] and at least one frame, the
  schedule has one weight per frame, weight i is \<open>a0 * r ^ i\<close>, the first weight is the
  initial weight, and each weight is at most its predecessor.
\<close>

theorem alphas_schedule:
  assumes "0 \<le> a0" and "a0 \<le> 1" and "0 < r" and "r \<le> 1" and "1 \<le> F"
  shows "length (alphas a0 r F) = F
       \<and> (\<forall>i<F. alphas a0 r F ! i = a0 * r ^ i)
       \<and> alphas a0 r F ! 0 = a0
       \<and> (\<forall>i. Suc i < F \<longrightarrow> alphas a0 r F ! Suc i \<le> alphas a0 r F ! i)"
proof (intro conjI allI impI)
  show "length (alphas a0 r F) = F" by (rule alphas_length)
next
  fix i assume "i < F"
  then show "alphas a0 r F ! i = a0 * r ^ i" by (rule alphas_nth)
next
  from assms(5) have "0 < F" by simp
  then show "alphas a0 r F ! 0 = a0" by (simp add: alphas_nth)
next
  fix i assume s: "Suc i < F"
  then have i: "i < F" by simp
  have "a0 * r ^ Suc i \<le> a0 * r ^ i"
    by (rule alphas_step) (simp_all add: assms less_imp_le)
  then show "alphas a0 r F ! Suc i \<le> alphas a0 r F ! i"
    using s i by (simp only: alphas_nth)
qed

theorem alphas_schedule_witness:
  "length (alphas (23/100) (8/10) 4) = 4
   \<and> alphas (23/100) (8/10) 4 ! 0 = 23/100
   \<and> alphas (23/100) (8/10) 4 ! 1 = 184/1000
   \<and> alphas (23/100) (8/10) 4 ! 2 = 1472/10000
   \<and> alphas (23/100) (8/10) 4 ! 3 = 11776/100000
   \<and> alphas (23/100) (8/10) 4 ! 3 \<le> alphas (23/100) (8/10) 4 ! 2"
proof -
  have h: "length (alphas (23/100) (8/10) 4) = 4
       \<and> (\<forall>i<4. alphas (23/100) (8/10) 4 ! i = (23/100) * (8/10) ^ i)
       \<and> alphas (23/100) (8/10) 4 ! 0 = 23/100
       \<and> (\<forall>i. Suc i < 4 \<longrightarrow> alphas (23/100) (8/10) 4 ! Suc i \<le> alphas (23/100) (8/10) 4 ! i)"
    using alphas_schedule [of "23/100" "8/10" 4] by simp
  from h have n: "\<And>i. i < 4 \<Longrightarrow> alphas (23/100) (8/10) 4 ! i = (23/100) * (8/10) ^ i"
    by blast
  from h have m: "\<And>i. Suc i < 4 \<Longrightarrow> alphas (23/100) (8/10) 4 ! Suc i \<le> alphas (23/100) (8/10) 4 ! i"
    by blast
  have "alphas (23/100) (8/10) 4 ! Suc 2 \<le> alphas (23/100) (8/10) 4 ! 2"
    by (rule m) simp
  then have "alphas (23/100) (8/10) 4 ! 3 \<le> alphas (23/100) (8/10) 4 ! 2"
    by (simp add: eval_nat_numeral)
  moreover have "alphas (23/100) (8/10) 4 ! 1 = 184/1000"
    using n [of 1] by (simp add: power_divide)
  moreover have "alphas (23/100) (8/10) 4 ! 2 = 1472/10000"
    using n [of 2] by (simp add: power_divide)
  moreover have "alphas (23/100) (8/10) 4 ! 3 = 11776/100000"
    using n [of 3] by (simp add: power_divide)
  ultimately show ?thesis using h by blast
qed

section \<open>Properties of the frame post-processing\<close>

lemma rhe_near: "\<bar>real_of_int (round_half_even x) - x\<bar> \<le> 1 / 2"
  unfolding round_half_even_def Let_def by (auto; linarith)

lemma rhe_mono_int: "real_of_int k \<le> x \<Longrightarrow> k \<le> round_half_even x"
  unfolding round_half_even_def Let_def by (auto simp: le_floor_iff; linarith)

lemma rhe_le_int: "x \<le> real_of_int k \<Longrightarrow> round_half_even x \<le> k"
  unfolding round_half_even_def Let_def
  by (auto simp: floor_le_iff; linarith)

lemma to_pixel_low: "y < 0 \<Longrightarrow> to_pixel ub (Fin y) = 0"
proof -
  assume "y < 0"
  then have "y * 255 \<le> real_of_int 0" by simp
  then have "round_half_even (y * 255) \<le> 0" by (rule rhe_le_int)
  then show ?thesis
    by (simp add: to_pixel_def to_uint8_def max_def min_def)
qed

lemma to_pixel_high: "1 < y \<Longrightarrow> to_pixel ub (Fin y) = 255"
proof -
  assume "1 < y"
  then have "real_of_int 255 \<le> y * 255" by simp
  then have "255 \<le> round_half_even (y * 255)" by (rule rhe_mono_int)
  then show ?thesis
    by (simp add: to_pixel_def to_uint8_def max_def min_def)
qed

lemma to_pixel_mid:
  assumes "0 \<le> y" and "y \<le> 1"
  shows "to_pixel ub (Fin y) = word_of_int (round_half_even (y * 255))
       \<and> 0 \<le> round_half_even (y * 255) \<and> round_half_even (y * 255) \<le> 255"
proof -
  from assms have a: "real_of_int 0 \<le> y * 255" and b: "y * 255 \<le> real_of_int 255" by simp_all
  have lo: "0 \<le> round_half_even (y * 255)" using a by (rule rhe_mono_int)
  have hi: "round_half_even (y * 255) \<le> 255" using b by (rule rhe_le_int)
  from lo hi show ?thesis
    by (simp add: to_pixel_def to_uint8_def max_def min_def)
qed

lemma bidx_id: "k < m \<Longrightarrow> bidx m k = k"
  by (auto simp: bidx_def)

lemma tensor2vid_dims:
  assumes "dims5 video = (i, 3, f, h, w)"
  shows "\<exists>images. tensor2vid video mean std = Inr images \<and> dims4 images = (f, h, i * w, 3)"
  using assms
  by (simp add: tensor2vid_def inplace5_def broadcast5_def reshape_1c111_def bdim_def
      rearrange_icfhw_fhiwc_def broadcastable5_def broadcastable_def)

lemma tensor2vid_elt:
  assumes "dims5 video = (i, 3, f, h, w)"
    and "tensor2vid video mean std = Inr images"
    and "n < i" and "c < 3" and "j < f" and "y < h" and "x < w"
  shows "elt4 images j y (n * w + x) c =
           fadd (fmul (elt5 video n c j y x) (Fin (chan3 std c))) (Fin (chan3 mean c))"
proof -
  have "(n * w + x) div w = n" and "(n * w + x) mod w = x"
    using assms(7) by simp_all
  then show ?thesis
    using assms
    by (auto simp add: tensor2vid_def inplace5_def broadcast5_def reshape_1c111_def bdim_def
      rearrange_icfhw_fhiwc_def bidx_id broadcastable5_def broadcastable_def)
qed

lemma to_pixel_minf: "to_pixel ub MInf = 0"
  by (simp add: to_pixel_def to_uint8_def)

lemma to_pixel_pinf: "to_pixel ub PInf = 255"
  by (simp add: to_pixel_def to_uint8_def)

section \<open>Properties of the blend\<close>

lemma append2_dims:
  "dims5 x = (nb, nc, nf, nh, nw) \<Longrightarrow>
   dims5 (append2 x y) = (nb, nc, nf + frames5 y, nh, nw)"
  by (simp add: append2_def)

lemma append2_elt:
  "elt5 (append2 x y) b c f h w =
     (if f < frames5 x then elt5 x b c f h w else elt5 y b c (f - frames5 x) h w)"
  by (cases "dims5 x") (simp add: append2_def frames5_def)

lemma foldl_append2_single_frames:
  assumes "dims5 t0 = (nb, nc, 1, nh, nw)" and "\<forall>t \<in> set ts. frames5 t = 1"
  shows "dims5 (foldl append2 t0 ts) = (nb, nc, Suc (length ts), nh, nw)
       \<and> (\<forall>i \<le> length ts. \<forall>b c h w.
            elt5 (foldl append2 t0 ts) b c i h w = elt5 ((t0 # ts) ! i) b c 0 h w)"
  using assms(2)
proof (induction ts rule: rev_induct)
  case Nil
  then show ?case using assms(1) by simp
next
  case (snoc t ts)
  then have ih: "dims5 (foldl append2 t0 ts) = (nb, nc, Suc (length ts), nh, nw)"
    and ih2: "\<And>i b c h w. i \<le> length ts \<Longrightarrow>
            elt5 (foldl append2 t0 ts) b c i h w = elt5 ((t0 # ts) ! i) b c 0 h w"
    and ft: "frames5 t = 1"
    by auto
  have fr: "frames5 (foldl append2 t0 ts) = Suc (length ts)"
    using ih by (simp add: frames5_def)
  have d: "dims5 (foldl append2 t0 (ts @ [t])) = (nb, nc, Suc (length (ts @ [t])), nh, nw)"
    using append2_dims [OF ih, of t] ft by simp
  have e: "\<forall>i \<le> length (ts @ [t]). \<forall>b c h w.
            elt5 (foldl append2 t0 (ts @ [t])) b c i h w = elt5 ((t0 # ts @ [t]) ! i) b c 0 h w"
  proof (intro allI impI)
    fix i b c h w
    assume i: "i \<le> length (ts @ [t])"
    show "elt5 (foldl append2 t0 (ts @ [t])) b c i h w = elt5 ((t0 # ts @ [t]) ! i) b c 0 h w"
    proof (cases "i \<le> length ts")
      case True
      then have "(t0 # ts @ [t]) ! i = (t0 # ts) ! i"
        by (metis append_Cons length_Cons less_Suc_eq_le nth_append)
      then show ?thesis using True ih2 [OF True] by (simp add: append2_elt fr)
    next
      case False
      with i have ii: "i = Suc (length ts)" by simp
      then have "(t0 # ts @ [t]) ! i = t" by (simp add: nth_append)
      then show ?thesis using ii by (simp add: append2_elt fr)
    qed
  qed
  from d e show ?case by blast
qed

lemma unsqueeze2_blended_frame_dims:
  "dims5 comb = (nb, nc, nf, nh, nw) \<Longrightarrow>
   dims5 (unsqueeze2 (blended_frame a comb noise i)) = (nb, nc, 1, nh, nw)"
  by (simp add: unsqueeze2_def blended_frame_def zip4_def map4_def frame5_def)

lemma unsqueeze2_blended_frame_elt:
  "elt5 (unsqueeze2 (blended_frame a comb noise i)) b c f h w =
     fadd (fmul (Fin a) (elt5 comb b c i h w)) (fmul (Fin (1 - a)) (elt5 noise b c i h w))"
  by (cases "dims5 comb"; cases "dims5 noise")
     (simp add: unsqueeze2_def blended_frame_def zip4_def map4_def frame5_def)

lemma cat2_blended_tensors:
  assumes "dims5 comb = (nb, nc, nf, nh, nw)" and "0 < F"
  shows "\<exists>bt. cat2 (blended_tensors a0 r F comb noise) = Inr bt
           \<and> dims5 bt = (nb, nc, F, nh, nw)
           \<and> (\<forall>i < F. \<forall>b c h w.
                elt5 bt b c i h w =
                  fadd (fmul (Fin (a0 * r ^ i)) (elt5 comb b c i h w))
                       (fmul (Fin (1 - a0 * r ^ i)) (elt5 noise b c i h w)))"
proof -
  let ?g = "\<lambda>i. unsqueeze2 (blended_frame (alphas a0 r F ! i) comb noise i)"
  obtain F' where F: "F = Suc F'" using assms(2) by (cases F) auto
  have up: "[0..<F] = 0 # [1..<F]" using assms(2) by (simp add: upt_conv_Cons)
  have bt: "blended_tensors a0 r F comb noise = ?g 0 # map ?g [1..<F]"
    by (simp add: blended_tensors_def up)
  have d0: "dims5 (?g 0) = (nb, nc, 1, nh, nw)"
    by (rule unsqueeze2_blended_frame_dims [OF assms(1)])
  have fr: "\<forall>t \<in> set (map ?g [1..<F]). frames5 t = 1"
    using unsqueeze2_blended_frame_dims [OF assms(1)] by (auto simp: frames5_def)
  from foldl_append2_single_frames [OF d0 fr]
  have dd: "dims5 (foldl append2 (?g 0) (map ?g [1..<F])) = (nb, nc, F, nh, nw)"
    and ee: "\<And>i b c h w. i \<le> length (map ?g [1..<F]) \<Longrightarrow>
            elt5 (foldl append2 (?g 0) (map ?g [1..<F])) b c i h w
              = elt5 ((?g 0 # map ?g [1..<F]) ! i) b c 0 h w"
    using F by auto
  have nth: "\<And>i. i < F \<Longrightarrow> (?g 0 # map ?g [1..<F]) ! i = ?g i"
  proof -
    fix i assume "i < F"
    then have "map ?g [0..<F] ! i = ?g i" by simp
    then show "(?g 0 # map ?g [1..<F]) ! i = ?g i" by (simp add: up)
  qed
  have "\<forall>i < F. \<forall>b c h w.
          elt5 (foldl append2 (?g 0) (map ?g [1..<F])) b c i h w =
            fadd (fmul (Fin (a0 * r ^ i)) (elt5 comb b c i h w))
                 (fmul (Fin (1 - a0 * r ^ i)) (elt5 noise b c i h w))"
  proof (intro allI impI)
    fix i b c h w assume i: "i < F"
    then have "i \<le> length (map ?g [1..<F])" using F by simp
    from ee [OF this] nth [OF i]
    have "elt5 (foldl append2 (?g 0) (map ?g [1..<F])) b c i h w = elt5 (?g i) b c 0 h w"
      by simp
    then show "elt5 (foldl append2 (?g 0) (map ?g [1..<F])) b c i h w =
            fadd (fmul (Fin (a0 * r ^ i)) (elt5 comb b c i h w))
                 (fmul (Fin (1 - a0 * r ^ i)) (elt5 noise b c i h w))"
      using i by (simp add: unsqueeze2_blended_frame_elt alphas_nth)
  qed
  with dd show ?thesis by (simp add: bt)
qed

lemma combined_tensor_of_elt:
  "elt5 (combined_tensor_of input_noise image_tensor) b c f h w =
     (if c < 3 then elt5 (normalize_023 image_tensor) b c f h w
      else elt5 input_noise b c f h w)"
  by (simp add: combined_tensor_of_def set_channels3_def)

lemma combined_tensor_of_dims:
  "dims5 (combined_tensor_of input_noise image_tensor) = dims5 input_noise"
  by (simp add: combined_tensor_of_def set_channels3_def)

text \<open>
  Claim C1, as amended. For every frame \<open>i < F\<close> the blended frame is
  \<open>alpha_i * combined_i + (1 - alpha_i) * noise_i\<close> with \<open>alpha_i = a0 * r ^ i\<close>, in every
  channel. In the channels 0 to 2 the first operand is the normalised image; in the
  fourth channel it is the fourth channel of the first noise draw, not zero.
\<close>

theorem blended_frame_formula:
  assumes "i < F"
  shows "\<exists>bt. cat2 (blended_tensors a0 r F (combined_tensor_of input_noise image_tensor) noise)
                = Inr bt
           \<and> elt5 bt b c i h w =
               fadd (fmul (Fin (a0 * r ^ i))
                          (elt5 (combined_tensor_of input_noise image_tensor) b c i h w))
                    (fmul (Fin (1 - a0 * r ^ i)) (elt5 noise b c i h w))
           \<and> (c < 3 \<longrightarrow> elt5 (combined_tensor_of input_noise image_tensor) b c i h w
                          = elt5 (normalize_023 image_tensor) b c i h w)
           \<and> (3 \<le> c \<longrightarrow> elt5 (combined_tensor_of input_noise image_tensor) b c i h w
                          = elt5 input_noise b c i h w)"
proof -
  obtain nb nc nf nh nw
    where d: "dims5 (combined_tensor_of input_noise image_tensor) = (nb, nc, nf, nh, nw)"
    by (cases "dims5 (combined_tensor_of input_noise image_tensor)") auto
  from assms have F: "0 < F" by simp
  from cat2_blended_tensors [OF d F, of a0 r noise] assms
  obtain bt where
    "cat2 (blended_tensors a0 r F (combined_tensor_of input_noise image_tensor) noise) = Inr bt"
    and "elt5 bt b c i h w =
               fadd (fmul (Fin (a0 * r ^ i))
                          (elt5 (combined_tensor_of input_noise image_tensor) b c i h w))
                    (fmul (Fin (1 - a0 * r ^ i)) (elt5 noise b c i h w))"
    by blast
  then show ?thesis
    by (simp add: combined_tensor_of_elt)
qed

theorem blended_frame_formula_witness:
  "\<exists>bt. cat2 (blended_tensors (23 / 100) (8 / 10) 2
                (combined_tensor_of (fst (torch_randn stub_env (1, 4, 2, 32, 32) stub_world))
                   (zeros5 (1, 4, 2, 32, 32)))
                (fst (torch_randn stub_env (1, 4, 2, 32, 32) stub_world)))
          = Inr bt
        \<and> elt5 bt 0 3 1 0 0 = Fin 1"
proof -
  have "(1::nat) < 2" by simp
  from blended_frame_formula [OF this, of "23 / 100" "8 / 10"
      "fst (torch_randn stub_env (1, 4, 2, 32, 32) stub_world)" "zeros5 (1, 4, 2, 32, 32)"
      "fst (torch_randn stub_env (1, 4, 2, 32, 32) stub_world)" 0 3 0 0]
  obtain bt where c: "cat2 (blended_tensors (23 / 100) (8 / 10) 2
                (combined_tensor_of (fst (torch_randn stub_env (1, 4, 2, 32, 32) stub_world))
                   (zeros5 (1, 4, 2, 32, 32)))
                (fst (torch_randn stub_env (1, 4, 2, 32, 32) stub_world))) = Inr bt"
    and e: "elt5 bt 0 3 1 0 0 =
               fadd (fmul (Fin (23 / 100 * (8 / 10) ^ 1))
                          (elt5 (combined_tensor_of
                                   (fst (torch_randn stub_env (1, 4, 2, 32, 32) stub_world))
                                   (zeros5 (1, 4, 2, 32, 32))) 0 3 1 0 0))
                    (fmul (Fin (1 - 23 / 100 * (8 / 10) ^ 1))
                          (elt5 (fst (torch_randn stub_env (1, 4, 2, 32, 32) stub_world)) 0 3 1 0 0))"
    and n: "elt5 (combined_tensor_of
                    (fst (torch_randn stub_env (1, 4, 2, 32, 32) stub_world))
                    (zeros5 (1, 4, 2, 32, 32))) 0 3 1 0 0
            = elt5 (fst (torch_randn stub_env (1, 4, 2, 32, 32) stub_world)) 0 3 1 0 0"
    by auto
  have v: "elt5 (fst (torch_randn stub_env (1, 4, 2, 32, 32) stub_world)) 0 3 1 0 0 = Fin 1"
    by (simp add: torch_randn_def stub_env_def)
  have "elt5 bt 0 3 1 0 0 = Fin 1"
    unfolding e n v by simp
  with c show ?thesis by blast
qed

text \<open>
  The claim as stated fails: with the stub environment's noise, the fourth channel of both
  operands of the blend is 1 (the first operand is built from the first draw, the second
  operand is the second draw).
\<close>

theorem fourth_channel_not_zero:
  "elt5 (combined_tensor_of (fst (torch_randn stub_env (1, 4, 2, 32, 32) stub_world))
           (zeros5 (1, 4, 2, 32, 32))) 0 3 0 0 0 = Fin 1
   \<and> elt5 (fst (torch_randn stub_env (1, 4, 2, 32, 32)
                   (snd (torch_randn stub_env (1, 4, 2, 32, 32) stub_world)))) 0 3 0 0 0 = Fin 1"
  by (simp add: combined_tensor_of_elt torch_randn_def stub_env_def)

section \<open>Properties of the normalisation\<close>

lemma fsum_cong: "(\<And>i. i < n \<Longrightarrow> f i = g i) \<Longrightarrow> fsum f n = fsum g n"
  by (induction n) auto

lemma fsum_Fin: "fsum (\<lambda>i. Fin (g i)) n = Fin (\<Sum>i<n. g i)"
  by (induction n) auto

lemma fadd_NaN_right: "fadd x NaN = NaN"
  by (cases x) auto

lemma fsum_NaN: "k < n \<Longrightarrow> f k = NaN \<Longrightarrow> fsum f n = NaN"
proof (induction n)
  case 0
  then show ?case by simp
next
  case (Suc n)
  show ?case
  proof (cases "k = n")
    case True
    then show ?thesis using Suc.prems by (simp add: fadd_NaN_right)
  next
    case False
    then have "k < n" using Suc.prems by simp
    then have "fsum f n = NaN" using Suc by simp
    then show ?thesis by simp
  qed
qed


lemma sum_023_Fin:
  assumes "dims5 t = (nb, nc, nf, nh, nw)"
    and "\<And>b f h. b < nb \<Longrightarrow> f < nf \<Longrightarrow> h < nh \<Longrightarrow> elt5 t b c f h w = Fin (g b f h)"
  shows "sum_023 t c w = Fin (sum3 nb nf nh g)"
proof -
  have "fsum (\<lambda>b. fsum (\<lambda>f. fsum (\<lambda>h. elt5 t b c f h w) nh) nf) nb
      = fsum (\<lambda>b. fsum (\<lambda>f. fsum (\<lambda>h. Fin (g b f h)) nh) nf) nb"
    by (intro fsum_cong) (simp add: assms(2))
  then show ?thesis
    using assms(1) by (simp add: sum_023_def sum3_def fsum_Fin)
qed

lemma sum_023_NaN:
  assumes "dims5 t = (nb, nc, nf, nh, nw)"
    and "b < nb" and "f < nf" and "h < nh" and "elt5 t b c f h w = NaN"
  shows "sum_023 t c w = NaN"
proof -
  have "fsum (\<lambda>h. elt5 t b c f h w) nh = NaN"
    using assms(4,5) by (rule fsum_NaN)
  then have "fsum (\<lambda>f. fsum (\<lambda>h. elt5 t b c f h w) nh) nf = NaN"
    using fsum_NaN [of f nf "\<lambda>f. fsum (\<lambda>h. elt5 t b c f h w) nh"] assms(3) by simp
  then have "fsum (\<lambda>b. fsum (\<lambda>f. fsum (\<lambda>h. elt5 t b c f h w) nh) nf) nb = NaN"
    using fsum_NaN [of b nb "\<lambda>b. fsum (\<lambda>f. fsum (\<lambda>h. elt5 t b c f h w) nh) nf"] assms(2)
    by simp
  then show ?thesis using assms(1) by (simp add: sum_023_def)
qed

lemma bdim_one [simp]: "bdim m 1 = m" "bdim m (Suc 0) = m" "bdim m m = m"
  by (auto simp: bdim_def)

lemma mean_023_dims: "dims5 t = (nb, nc, nf, nh, nw) \<Longrightarrow> dims5 (mean_023 t) = (1, nc, 1, 1, nw)"
  by (simp add: mean_023_def keep_14_def)

lemma std_023_dims: "dims5 t = (nb, nc, nf, nh, nw) \<Longrightarrow> dims5 (std_023 t) = (1, nc, 1, 1, nw)"
  by (simp add: std_023_def keep_14_def)

lemma mean_023_elt:
  "elt5 (mean_023 t) b c f h w = fdiv (sum_023 t c w) (Fin (real (count_023 t)))"
  by (simp add: mean_023_def)

lemma centred_dims:
  "dims5 t = (nb, nc, nf, nh, nw) \<Longrightarrow> dims5 (broadcast5 fsub t (mean_023 t)) = (nb, nc, nf, nh, nw)"
  by (simp add: broadcast5_def mean_023_dims)

lemma centred_elt:
  assumes "dims5 t = (nb, nc, nf, nh, nw)"
    and "b < nb" and "c < nc" and "f < nf" and "h < nh" and "w < nw"
  shows "elt5 (broadcast5 fsub t (mean_023 t)) b c f h w
         = fsub (elt5 t b c f h w) (elt5 (mean_023 t) 0 c 0 0 w)"
  using assms by (simp add: broadcast5_def mean_023_dims bidx_id mean_023_elt)

lemma std_023_elt:
  "elt5 (std_023 t) b c f h w =
     fsqrt (fdiv (sum_023 (map5 fsquare (broadcast5 fsub t (mean_023 t))) c w)
                 (Fin (real (count_023 t - 1))))"
  by (simp add: std_023_def)

lemma normalize_023_dims:
  "dims5 t = (nb, nc, nf, nh, nw) \<Longrightarrow> dims5 (normalize_023 t) = (nb, nc, nf, nh, nw)"
  by (simp add: normalize_023_def broadcast5_def mean_023_dims std_023_dims)

lemma normalize_023_elt:
  assumes "dims5 t = (nb, nc, nf, nh, nw)"
    and "b < nb" and "c < nc" and "f < nf" and "h < nh" and "w < nw"
  shows "elt5 (normalize_023 t) b c f h w
         = fdiv (fsub (elt5 t b c f h w) (elt5 (mean_023 t) 0 c 0 0 w))
                (elt5 (std_023 t) 0 c 0 0 w)"
proof -
  have "elt5 (normalize_023 t) b c f h w
         = fdiv (elt5 (broadcast5 fsub t (mean_023 t)) b c f h w) (elt5 (std_023 t) 0 c 0 0 w)"
    using assms
    by (simp add: normalize_023_def broadcast5_def [of fdiv] centred_dims std_023_dims bidx_id
        std_023_elt)
  then show ?thesis using centred_elt [OF assms] by simp
qed

lemma sum3_const: "sum3 nb nf nh (\<lambda>b f h. k) = real (nb * nf * nh) * k"
  by (simp add: sum3_def algebra_simps)

lemma sum3_diff: "sum3 nb nf nh (\<lambda>b f h. g b f h - k b f h) = sum3 nb nf nh g - sum3 nb nf nh k"
  by (simp add: sum3_def sum_subtractf)

lemma sum3_divide: "sum3 nb nf nh (\<lambda>b f h. g b f h / d) = sum3 nb nf nh g / d"
  by (simp add: sum3_def sum_divide_distrib)

lemma sum3_cong:
  "(\<And>b f h. b < nb \<Longrightarrow> f < nf \<Longrightarrow> h < nh \<Longrightarrow> g b f h = k b f h)
   \<Longrightarrow> sum3 nb nf nh g = sum3 nb nf nh k"
  by (simp add: sum3_def)

lemma sum3_nonneg:
  "(\<And>b f h. 0 \<le> g b f h) \<Longrightarrow> 0 \<le> sum3 nb nf nh g"
  by (simp add: sum3_def sum_nonneg)

lemma sum3_pos:
  assumes "\<And>b f h. 0 \<le> g b f h"
    and "b < nb" and "f < nf" and "h < nh" and "0 < g b f h"
  shows "0 < sum3 nb nf nh g"
proof -
  have 1: "0 < (\<Sum>h<nh. g b f h)"
    using assms by (intro sum_pos2 [where i = h and f = "\<lambda>h. g b f h"]) auto
  have 2: "0 < (\<Sum>f<nf. \<Sum>h<nh. g b f h)"
    using assms 1
    by (intro sum_pos2 [where i = f and f = "\<lambda>f. \<Sum>h<nh. g b f h"])
       (auto simp: sum_nonneg)
  have 3: "0 < (\<Sum>b<nb. \<Sum>f<nf. \<Sum>h<nh. g b f h)"
    using assms 2
    by (intro sum_pos2 [where i = b and f = "\<lambda>b. \<Sum>f<nf. \<Sum>h<nh. g b f h"])
       (auto simp: sum_nonneg)
  then show ?thesis by (simp add: sum3_def)
qed

lemma sum3_centred_zero:
  assumes "nb * nf * nh \<noteq> 0"
  shows "sum3 nb nf nh (\<lambda>b f h. g b f h - sum3 nb nf nh g / real (nb * nf * nh)) = 0"
proof -
  have "sum3 nb nf nh (\<lambda>b f h. g b f h - sum3 nb nf nh g / real (nb * nf * nh))
      = sum3 nb nf nh g - real (nb * nf * nh) * (sum3 nb nf nh g / real (nb * nf * nh))"
    by (simp only: sum3_diff sum3_const)
  also have "\<dots> = 0" using assms by simp
  finally show ?thesis .
qed

text \<open>Two different entries in a column make its sum of squared deviations positive.\<close>

lemma sum3_sq_dev_pos:
  assumes "b1 < nb" and "f1 < nf" and "h1 < nh" and "b2 < nb" and "f2 < nf" and "h2 < nh"
    and "g b1 f1 h1 \<noteq> g b2 f2 h2"
  shows "0 < sum3 nb nf nh (\<lambda>b f h. (g b f h - m)\<^sup>2)"
proof (cases "g b1 f1 h1 = m")
  case True
  then have "0 < (g b2 f2 h2 - m)\<^sup>2" using assms(7) by simp
  then show ?thesis
    using assms by (intro sum3_pos [where b = b2 and f = f2 and h = h2]) auto
next
  case False
  then have "0 < (g b1 f1 h1 - m)\<^sup>2" by simp
  then show ?thesis
    using assms by (intro sum3_pos [where b = b1 and f = f1 and h = h1]) auto
qed

lemma two_entries_count:
  assumes "b1 < nb" and "f1 < nf" and "h1 < nh" and "b2 < nb" and "f2 < nf" and "h2 < nh"
    and "(g :: nat \<Rightarrow> nat \<Rightarrow> nat \<Rightarrow> real) b1 f1 h1 \<noteq> g b2 f2 h2"
  shows "2 \<le> nb * nf * nh"
proof (rule ccontr)
  assume a: "\<not> 2 \<le> nb * nf * nh"
  define p where "p = nb * nf * nh"
  have "0 < p" using assms by (simp add: p_def)
  moreover have "p < 2" using a by (simp add: p_def)
  ultimately have "p = 1" by simp
  then have "nb * nf * nh = 1" by (simp add: p_def)
  then have "nb = 1" "nf = 1" "nh = 1" by simp_all
  then have "b1 = 0" "f1 = 0" "h1 = 0" "b2 = 0" "f2 = 0" "h2 = 0" using assms by simp_all
  with assms(7) show False by simp
qed

lemma count_023_eq: "dims5 t = (nb, nc, nf, nh, nw) \<Longrightarrow> count_023 t = nb * nf * nh"
  by (simp add: count_023_def)

lemma col_mean:
  assumes "dims5 t = (nb, nc, nf, nh, nw)"
    and "\<And>b f h. b < nb \<Longrightarrow> f < nf \<Longrightarrow> h < nh \<Longrightarrow> elt5 t b c f h w = Fin (g b f h)"
    and "n = nb * nf * nh" and "n \<noteq> 0"
  shows "elt5 (mean_023 t) b' c f' h' w = Fin (sum3 nb nf nh g / real n)"
proof -
  have "count_023 t = n" using assms(1,3) by (simp add: count_023_eq)
  then show ?thesis
    using assms(4) by (simp only: mean_023_elt sum_023_Fin [OF assms(1,2)]) simp
qed

lemma col_sq_dev:
  assumes "dims5 t = (nb, nc, nf, nh, nw)" and "c < nc" and "w < nw"
    and "\<And>b f h. b < nb \<Longrightarrow> f < nf \<Longrightarrow> h < nh \<Longrightarrow> elt5 t b c f h w = Fin (g b f h)"
    and "n = nb * nf * nh" and "n \<noteq> 0"
  shows "sum_023 (map5 fsquare (broadcast5 fsub t (mean_023 t))) c w
         = Fin (sum3 nb nf nh (\<lambda>b f h. (g b f h - sum3 nb nf nh g / real n)\<^sup>2))"
proof (rule sum_023_Fin)
  show "dims5 (map5 fsquare (broadcast5 fsub t (mean_023 t))) = (nb, nc, nf, nh, nw)"
    by (simp add: map5_def centred_dims [OF assms(1)])
next
  fix b f h assume r: "b < nb" "f < nf" "h < nh"
  have "elt5 (broadcast5 fsub t (mean_023 t)) b c f h w
        = fsub (Fin (g b f h)) (Fin (sum3 nb nf nh g / real n))"
    by (simp only: centred_elt [OF assms(1) r(1) assms(2) r(2) r(3) assms(3)]
      assms(4) [OF r] col_mean [OF assms(1) assms(4) assms(5) assms(6)])
  then show "elt5 (map5 fsquare (broadcast5 fsub t (mean_023 t))) b c f h w
        = Fin ((g b f h - sum3 nb nf nh g / real n)\<^sup>2)"
    by (simp add: map5_def fsquare_def fsub_def power2_eq_square)
qed

lemma col_std:
  assumes "dims5 t = (nb, nc, nf, nh, nw)" and "c < nc" and "w < nw"
    and "\<And>b f h. b < nb \<Longrightarrow> f < nf \<Longrightarrow> h < nh \<Longrightarrow> elt5 t b c f h w = Fin (g b f h)"
    and "n = nb * nf * nh" and "2 \<le> n"
  shows "elt5 (std_023 t) b' c f' h' w
         = Fin (sqrt (sum3 nb nf nh (\<lambda>b f h. (g b f h - sum3 nb nf nh g / real n)\<^sup>2)
                      / real (n - 1)))"
proof -
  let ?Q = "sum3 nb nf nh (\<lambda>b f h. (g b f h - sum3 nb nf nh g / real n)\<^sup>2)"
  have n0: "n \<noteq> 0" using assms(6) by simp
  have n1: "real (n - 1) \<noteq> 0" using assms(6) by simp
  have q: "0 \<le> ?Q"
    by (rule sum3_nonneg) simp
  have nn: "\<not> ?Q / real (n - 1) < 0"
    using q by (simp add: not_less divide_nonneg_nonneg)
  have c: "count_023 t = n" using assms(1,5) by (simp add: count_023_eq)
  have "elt5 (std_023 t) b' c f' h' w = fsqrt (fdiv (Fin ?Q) (Fin (real (n - 1))))"
    by (simp only: std_023_elt col_sq_dev [OF assms(1-5) n0] c)
  also have "\<dots> = Fin (sqrt (?Q / real (n - 1)))"
    using n1 nn by simp
  finally show ?thesis .
qed

lemma col_normalized:
  assumes "dims5 t = (nb, nc, nf, nh, nw)" and "c < nc" and "w < nw"
    and "\<And>b f h. b < nb \<Longrightarrow> f < nf \<Longrightarrow> h < nh \<Longrightarrow> elt5 t b c f h w = Fin (g b f h)"
    and "n = nb * nf * nh" and "2 \<le> n"
    and "m = sum3 nb nf nh g / real n"
    and "sd = sqrt (sum3 nb nf nh (\<lambda>b f h. (g b f h - m)\<^sup>2) / real (n - 1))"
    and "sd \<noteq> 0"
    and "b < nb" and "f < nf" and "h < nh"
  shows "elt5 (normalize_023 t) b c f h w = Fin ((g b f h - m) / sd)"
proof -
  have n0: "n \<noteq> 0" using assms(6) by simp
  have "elt5 (normalize_023 t) b c f h w = fdiv (fsub (Fin (g b f h)) (Fin m)) (Fin sd)"
    by (simp only: normalize_023_elt [OF assms(1) assms(10) assms(2) assms(11) assms(12) assms(3)]
      assms(4) [OF assms(10-12)] col_mean [OF assms(1) assms(4) assms(5) n0]
      col_std [OF assms(1-6)] assms(7,8))
  then show ?thesis using assms(9) by (simp add: fsub_def)
qed

text \<open>A column with two different entries: after normalisation its mean is 0 and its std 1.\<close>

lemma col_standardised:
  assumes "dims5 t = (nb, nc, nf, nh, nw)" and "c < nc" and "w < nw"
    and fin: "\<And>b f h. b < nb \<Longrightarrow> f < nf \<Longrightarrow> h < nh \<Longrightarrow> elt5 t b c f h w = Fin (g b f h)"
    and r1: "b1 < nb" "f1 < nf" "h1 < nh" and r2: "b2 < nb" "f2 < nf" "h2 < nh"
    and ne: "g b1 f1 h1 \<noteq> g b2 f2 h2"
  shows "elt5 (mean_023 (normalize_023 t)) 0 c 0 0 w = Fin 0
       \<and> elt5 (std_023 (normalize_023 t)) 0 c 0 0 w = Fin 1"
proof -
  define n where "n = nb * nf * nh"
  define m where "m = sum3 nb nf nh g / real n"
  define Q where "Q = sum3 nb nf nh (\<lambda>b f h. (g b f h - m)\<^sup>2)"
  define sd where "sd = sqrt (Q / real (n - 1))"
  have n2: "2 \<le> n" unfolding n_def by (rule two_entries_count [OF r1 r2 ne])
  have n0: "n \<noteq> 0" using n2 by simp
  have n1: "0 < real (n - 1)" using n2 by simp
  have Qpos: "0 < Q" unfolding Q_def by (rule sum3_sq_dev_pos [OF r1 r2 ne])
  then have sdpos: "0 < sd" using n1 by (simp add: sd_def)
  have sd2: "sd\<^sup>2 = Q / real (n - 1)"
    using Qpos n1 by (simp add: sd_def less_imp_le)
  define g' where "g' = (\<lambda>b f h. (g b f h - m) / sd)"
  have d': "dims5 (normalize_023 t) = (nb, nc, nf, nh, nw)"
    by (rule normalize_023_dims [OF assms(1)])
  have sdne: "sd \<noteq> 0" using sdpos by simp
  have fin': "\<And>b f h. b < nb \<Longrightarrow> f < nf \<Longrightarrow> h < nh
      \<Longrightarrow> elt5 (normalize_023 t) b c f h w = Fin (g' b f h)"
    unfolding g'_def
    by (rule col_normalized [OF assms(1-3) fin n_def n2 m_def _ sdne])
       (simp_all add: sd_def Q_def)
  have s0: "sum3 nb nf nh g' = 0"
  proof -
    have "sum3 nb nf nh g' = sum3 nb nf nh (\<lambda>b f h. g b f h - m) / sd"
      by (simp add: g'_def sum3_divide)
    also have "sum3 nb nf nh (\<lambda>b f h. g b f h - m) = 0"
      using sum3_centred_zero [of nb nf nh g] n0 by (simp add: m_def n_def)
    finally show ?thesis by simp
  qed
  have q1: "sum3 nb nf nh (\<lambda>b f h. (g' b f h - sum3 nb nf nh g' / real n)\<^sup>2) = real (n - 1)"
  proof -
    have "sum3 nb nf nh (\<lambda>b f h. (g' b f h - sum3 nb nf nh g' / real n)\<^sup>2)
        = sum3 nb nf nh (\<lambda>b f h. (g' b f h)\<^sup>2)"
      by (simp only: s0) simp
    also have "\<dots> = sum3 nb nf nh (\<lambda>b f h. (g b f h - m)\<^sup>2 / sd\<^sup>2)"
      by (simp add: g'_def power_divide)
    also have "\<dots> = Q / sd\<^sup>2" by (simp add: sum3_divide Q_def)
    also have "\<dots> = real (n - 1)" using Qpos n1 by (simp add: sd2)
    finally show ?thesis .
  qed
  have mean': "elt5 (mean_023 (normalize_023 t)) 0 c 0 0 w = Fin 0"
    by (simp add: col_mean [OF d' fin' n_def n0] s0)
  have std': "elt5 (std_023 (normalize_023 t)) 0 c 0 0 w = Fin 1"
    using n1 by (simp add: col_std [OF d' assms(2,3) fin' n_def n2] q1)
  from mean' std' show ?thesis by simp
qed

section \<open>Properties of the decoder adapter\<close>

lemma flatten_frames:
  assumes "dims5 t = (1, nc, F, nh, nw)"
  shows "dims4 (rearrange_bcfhw_bfchw t) = (F, nc, nh, nw)"
    and "i < F \<Longrightarrow> elt4 (rearrange_bcfhw_bfchw t) i c h w = elt5 t 0 c i h w"
  using assms by (simp_all add: rearrange_bcfhw_bfchw_def)

lemma unflatten_frames:
  assumes "dims4 t = (F, nc, nh, nw)"
  shows "\<exists>v. rearrange_bfchw_bcfhw t 1 = Inr v \<and> dims5 v = (1, nc, F, nh, nw)
           \<and> (\<forall>i c h w. elt5 v 0 c i h w = elt4 t i c h w)"
  using assms by (simp add: rearrange_bfchw_bcfhw_def)

text \<open>
  Claim C5. For a latent of shape \<open>(1, 4, F, H, W)\<close> and a decoder that returns a batch of
  \<open>F\<close> three-channel images: the flattened batch has \<open>F\<close> entries, entry \<open>i\<close> being
  frame \<open>i\<close> of the rescaled latent; the result has shape \<open>(1, 3, F, H', W')\<close> and its frame
  \<open>i\<close> is entry \<open>i\<close> of the decoded batch. So for a decoder that decodes each entry of
  its batch on its own, by \<open>dec\<close>, output frame \<open>i\<close> is the decoding of input frame \<open>i\<close>.
\<close>

theorem decode_round_trip:
  assumes "dims5 x0 = (1, 4, F, H, W)"
    and "dims4 (vae_decode env
                 (rearrange_bcfhw_bfchw (map5 (fmul (Fin (1 / scale_factor))) x0)))
         = (F, 3, H', W')"
    and "i < F"
  shows "dims4 (rearrange_bcfhw_bfchw (map5 (fmul (Fin (1 / scale_factor))) x0)) = (F, 4, H, W)
       \<and> elt4 (rearrange_bcfhw_bfchw (map5 (fmul (Fin (1 / scale_factor))) x0)) i c h w
           = fmul (Fin (1 / scale_factor)) (elt5 x0 0 c i h w)
       \<and> (\<exists>v. decode_latents env x0 = Inr v
              \<and> dims5 v = (1, 3, F, H', W')
              \<and> elt5 v 0 c' i h' w'
                  = elt4 (vae_decode env
                            (rearrange_bcfhw_bfchw (map5 (fmul (Fin (1 / scale_factor))) x0)))
                         i c' h' w'
              \<and> ((\<forall>t n k y x. elt4 (vae_decode env t) n k y x
                                   = dec (\<lambda>k y x. elt4 t n k y x) k y x)
                   \<longrightarrow> elt5 v 0 c' i h' w'
                         = dec (\<lambda>k y x. fmul (Fin (1 / scale_factor)) (elt5 x0 0 k i y x))
                               c' h' w'))"
proof -
  let ?s = "map5 (fmul (Fin (1 / scale_factor))) x0"
  have d: "dims5 ?s = (1, 4, F, H, W)" using assms(1) by (simp add: map5_def)
  have a: "dims4 (rearrange_bcfhw_bfchw ?s) = (F, 4, H, W)"
    by (rule flatten_frames(1) [OF d])
  have b: "elt4 (rearrange_bcfhw_bfchw ?s) i c h w = fmul (Fin (1 / scale_factor)) (elt5 x0 0 c i h w)"
    using flatten_frames(2) [OF d assms(3), of c h w] by (simp add: map5_def)
  from unflatten_frames [OF assms(2)]
  obtain v where v: "rearrange_bfchw_bcfhw (vae_decode env (rearrange_bcfhw_bfchw ?s)) 1 = Inr v"
    and dv: "dims5 v = (1, 3, F, H', W')"
    and ev: "\<And>i c h w. elt5 v 0 c i h w = elt4 (vae_decode env (rearrange_bcfhw_bfchw ?s)) i c h w"
    by blast
  have dl: "decode_latents env x0 = Inr v"
    using v d by (simp add: decode_latents_def Let_def)
  have fr: "(\<lambda>k y x. elt4 (rearrange_bcfhw_bfchw ?s) i k y x)
          = (\<lambda>k y x. fmul (Fin (1 / scale_factor)) (elt5 x0 0 k i y x))"
    using flatten_frames(2) [OF d assms(3)] by (simp add: map5_def)
  have per: "(\<forall>t n k y x. elt4 (vae_decode env t) n k y x
                                   = dec (\<lambda>k y x. elt4 t n k y x) k y x)
       \<longrightarrow> elt5 v 0 c' i h' w'
             = dec (\<lambda>k y x. fmul (Fin (1 / scale_factor)) (elt5 x0 0 k i y x)) c' h' w'"
  proof
    assume p: "\<forall>t n k y x. elt4 (vae_decode env t) n k y x
                                   = dec (\<lambda>k y x. elt4 t n k y x) k y x"
    have "elt5 v 0 c' i h' w' = elt4 (vae_decode env (rearrange_bcfhw_bfchw ?s)) i c' h' w'"
      by (rule ev)
    also have "\<dots> = dec (\<lambda>k y x. elt4 (rearrange_bcfhw_bfchw ?s) i k y x) c' h' w'"
      using p by blast
    finally show "elt5 v 0 c' i h' w'
             = dec (\<lambda>k y x. fmul (Fin (1 / scale_factor)) (elt5 x0 0 k i y x)) c' h' w'"
      by (simp only: fr)
  qed
  from a b dl dv ev per show ?thesis by blast
qed

theorem decode_round_trip_witness:
  "dims4 (rearrange_bcfhw_bfchw
            (map5 (fmul (Fin (1 / scale_factor))) (zeros5 (1, 4, 2, 32, 32)))) = (2, 4, 32, 32)
   \<and> (\<exists>v. decode_latents stub_env (zeros5 (1, 4, 2, 32, 32)) = Inr v
          \<and> dims5 v = (1, 3, 2, 32, 32)
          \<and> elt5 v 0 0 1 0 0 = Fin 0)"
proof -
  have d: "dims5 (zeros5 (1, 4, 2, 32, 32)) = (1, 4, 2, 32, 32)" by (simp add: zeros5_def)
  have e: "dims4 (vae_decode stub_env
                 (rearrange_bcfhw_bfchw
                    (map5 (fmul (Fin (1 / scale_factor))) (zeros5 (1, 4, 2, 32, 32)))))
         = (2, 3, 32, 32)"
    by (simp add: stub_env_def stub_decode_def rearrange_bcfhw_bfchw_def map5_def zeros5_def)
  have i: "(1::nat) < 2" by simp
  from decode_round_trip [OF d e i, of 0 0 0 0 0 0 "\<lambda>im. im"]
  obtain v where a: "dims4 (rearrange_bcfhw_bfchw
            (map5 (fmul (Fin (1 / scale_factor))) (zeros5 (1, 4, 2, 32, 32)))) = (2, 4, 32, 32)"
    and v: "decode_latents stub_env (zeros5 (1, 4, 2, 32, 32)) = Inr v"
    and dv: "dims5 v = (1, 3, 2, 32, 32)"
    and ev: "elt5 v 0 0 1 0 0
                  = elt4 (vae_decode stub_env
                            (rearrange_bcfhw_bfchw
                               (map5 (fmul (Fin (1 / scale_factor))) (zeros5 (1, 4, 2, 32, 32)))))
                         1 0 0 0"
    by blast
  have "elt4 (vae_decode stub_env
                            (rearrange_bcfhw_bfchw
                               (map5 (fmul (Fin (1 / scale_factor))) (zeros5 (1, 4, 2, 32, 32)))))
                         1 0 0 0 = Fin 0"
    by (simp add: stub_env_def stub_decode_def rearrange_bcfhw_bfchw_def map5_def zeros5_def)
  with a v dv ev show ?thesis by auto
qed

section \<open>Properties of the seed image tensor\<close>

lemma image_open_cases:
  "image_open p w = (r, w') \<Longrightarrow>
     (\<exists>im. files w (resolve w p) = Some (ImageFile im) \<and> r = Inr im
           \<and> w' = w\<lparr>trace := trace w @ [ImageOpened (resolve w p) im]\<rparr>)
   \<or> (w' = w \<and> (r = Inl (FileNotFoundError (resolve w p))
                  \<or> r = Inl (UnidentifiedImageError (resolve w p))))"
  by (auto simp: image_open_def Let_def split: option.splits filedata.splits)

lemma image_open_ok:
  "files w (resolve w p) = Some (ImageFile im) \<Longrightarrow>
   image_open p w = (Inr im, w\<lparr>trace := trace w @ [ImageOpened (resolve w p) im]\<rparr>)"
  by (simp add: image_open_def)

lemma rgb_frames_dims:
  "dims5 (foldl (\<lambda>t j. assign_rgb_frame t j im) t0 js) = dims5 t0"
  by (induction js arbitrary: t0) (simp_all add: assign_rgb_frame_def)

lemma rgb_frames_elt:
  "elt5 (foldl (\<lambda>t j. assign_rgb_frame t j im) t0 [0..<F]) b c f h w =
     (if b = 0 \<and> c < 3 \<and> f < F then im c h w else elt5 t0 b c f h w)"
  by (induction F) (auto simp: assign_rgb_frame_def)

lemma preprocess_image_RGB_result:
  assumes "fst (preprocess_image_RGB env p (32, 32) F w) = Inr t"
  shows "\<exists>im. files w (resolve w p) = Some (ImageFile im)
           \<and> snd (preprocess_image_RGB env p (32, 32) F w)
               = w\<lparr>trace := trace w @ [ImageOpened (resolve w p) im]\<rparr>
           \<and> dims5 t = (1, 4, F, 32, 32)
           \<and> (\<forall>b c f h x. elt5 t b c f h x =
                 (if b = 0 \<and> c < 3 \<and> f < F
                  then to_tensor (pil_resize env (32, 32) im) c h x else Fin 0))"
proof -
  obtain r w1 where io: "image_open p w = (r, w1)" by (cases "image_open p w") auto
  from image_open_cases [OF io] assms io
  obtain im where f: "files w (resolve w p) = Some (ImageFile im)" and r: "r = Inr im"
    and w1: "w1 = w\<lparr>trace := trace w @ [ImageOpened (resolve w p) im]\<rparr>"
    by (auto simp: preprocess_image_RGB_def)
  from assms io r
  have t: "t = foldl (\<lambda>t j. assign_rgb_frame t j (to_tensor (pil_resize env (32, 32) im)))
                 (zeros5 (1, 4, F, 32, 32)) [0..<F]"
    by (simp add: preprocess_image_RGB_def Let_def)
  have s: "snd (preprocess_image_RGB env p (32, 32) F w) = w1"
    using io r by (simp add: preprocess_image_RGB_def Let_def)
  show ?thesis
    using f s w1 by (auto simp add: t rgb_frames_dims rgb_frames_elt zeros5_def)
qed

lemma preprocess_image_RGB_ok:
  assumes "files w (resolve w p) = Some (ImageFile im)"
  shows "preprocess_image_RGB env p (32, 32) F w =
           (Inr (foldl (\<lambda>t j. assign_rgb_frame t j (to_tensor (pil_resize env (32, 32) im)))
                   (zeros5 (1, 4, F, 32, 32)) [0..<F]),
            w\<lparr>trace := trace w @ [ImageOpened (resolve w p) im]\<rparr>)"
  by (simp add: preprocess_image_RGB_def image_open_ok [OF assms] Let_def)

text \<open>
  Claim C3, as amended. The image tensor is normalised with one mean and one std for each
  channel and each index of the last axis (the statistics have shape \<open>(1, 4, 1, 1, 32)\<close>),
  taken over the batch, frame and second-to-last axes. A slice (channel \<open>c\<close>, last index
  \<open>x\<close>) of the image tensor that is not constant has mean 0 and std 1 after the
  normalisation.
\<close>

theorem image_normalised_per_channel_and_column:
  assumes "fst (preprocess_image_RGB env image_path (32, 32) F w) = Inr image_tensor"
    and "c < 3" and "x < 32" and "y1 < 32" and "y2 < 32" and "0 < F"
    and "elt5 image_tensor 0 c 0 y1 x \<noteq> elt5 image_tensor 0 c 0 y2 x"
  shows "dims5 (mean_023 image_tensor) = (1, 4, 1, 1, 32)
       \<and> dims5 (std_023 image_tensor) = (1, 4, 1, 1, 32)
       \<and> elt5 (mean_023 (normalize_023 image_tensor)) 0 c 0 0 x = Fin 0
       \<and> elt5 (std_023 (normalize_023 image_tensor)) 0 c 0 0 x = Fin 1"
proof -
  from preprocess_image_RGB_result [OF assms(1)]
  obtain im where d: "dims5 image_tensor = (1, 4, F, 32, 32)"
    and e: "\<And>b c f h x. elt5 image_tensor b c f h x =
                 (if b = 0 \<and> c < 3 \<and> f < F
                  then to_tensor (pil_resize env (32, 32) im) c h x else Fin 0)"
    by blast
  define g where "g = (\<lambda>(b::nat) (f::nat) h.
                        real (unat (pix (pil_resize env (32, 32) im) h x c)) / 255)"
  have fin: "\<And>b f h. b < 1 \<Longrightarrow> f < F \<Longrightarrow> h < 32 \<Longrightarrow> elt5 image_tensor b c f h x = Fin (g b f h)"
    using assms(2) by (simp add: e g_def to_tensor_def)
  have ne: "g 0 0 y1 \<noteq> g 0 0 y2"
    using assms(2,6,7) by (simp add: e g_def to_tensor_def)
  have c4: "c < 4" using assms(2) by simp
  have z: "(0::nat) < 1" by simp
  from col_standardised [OF d c4 assms(3) fin z assms(6) assms(4) z assms(6) assms(5) ne]
  have "elt5 (mean_023 (normalize_023 image_tensor)) 0 c 0 0 x = Fin 0
       \<and> elt5 (std_023 (normalize_023 image_tensor)) 0 c 0 0 x = Fin 1"
    by simp
  then show ?thesis
    by (simp add: mean_023_dims [OF d] std_023_dims [OF d])
qed

theorem image_normalised_per_channel_and_column_witness:
  "elt5 (mean_023 (normalize_023
           (foldl (\<lambda>t j. assign_rgb_frame t j (to_tensor striped_image))
              (zeros5 (1, 4, 1, 32, 32)) [0..<1]))) 0 0 0 0 0 = Fin 0
   \<and> elt5 (std_023 (normalize_023
           (foldl (\<lambda>t j. assign_rgb_frame t j (to_tensor striped_image))
              (zeros5 (1, 4, 1, 32, 32)) [0..<1]))) 0 0 0 0 0 = Fin 1"
proof -
  let ?T = "foldl (\<lambda>t j. assign_rgb_frame t j (to_tensor striped_image))
              (zeros5 (1, 4, 1, 32, 32)) [0..<1]"
  have f: "files (world_with striped_image) (resolve (world_with striped_image) ''input.png'')
           = Some (ImageFile striped_image)"
    by (simp add: world_with_def stub_world_def resolve_def os_path_join_def)
  have r: "pil_resize stub_env (32, 32) striped_image = striped_image"
    by (simp add: pil_resize_def striped_image_def)
  have h1: "fst (preprocess_image_RGB stub_env ''input.png'' (32, 32) 1
                  (world_with striped_image)) = Inr ?T"
    by (simp only: preprocess_image_RGB_ok [OF f] r fst_conv)
  have h7: "elt5 ?T 0 0 0 0 0 \<noteq> elt5 ?T 0 0 0 6 0"
    by (simp only: rgb_frames_elt) (simp add: to_tensor_def striped_image_def)
  from image_normalised_per_channel_and_column [OF h1 _ _ _ _ _ h7]
  show ?thesis by simp
qed

lemma sum_0234_Fin:
  assumes "dims5 t = (nb, nc, nf, nh, nw)"
    and "\<And>b f h w. b < nb \<Longrightarrow> f < nf \<Longrightarrow> h < nh \<Longrightarrow> w < nw
           \<Longrightarrow> elt5 t b c f h w = Fin (g b f h w)"
  shows "sum_0234 t c = Fin (\<Sum>b<nb. \<Sum>f<nf. \<Sum>h<nh. \<Sum>w<nw. g b f h w)"
proof -
  have "fsum (\<lambda>b. fsum (\<lambda>f. fsum (\<lambda>h. fsum (\<lambda>w. elt5 t b c f h w) nw) nh) nf) nb
      = fsum (\<lambda>b. fsum (\<lambda>f. fsum (\<lambda>h. fsum (\<lambda>w. Fin (g b f h w)) nw) nh) nf) nb"
    by (intro fsum_cong) (simp add: assms(2))
  then show ?thesis
    using assms(1) by (simp add: sum_0234_def fsum_Fin)
qed


lemma stripe_sum: "(\<Sum>h<32. stripe h / 255) = 32 / 85"
  by (simp add: stripe_def eval_nat_numeral)

lemma stripe_sq_dev: "(\<Sum>h<32. (stripe h / 255 - 1 / 85)\<^sup>2) = 124 / 65025"
  by (simp add: stripe_def eval_nat_numeral power2_eq_square)

lemma stripe_std: "sqrt (124 / 65025 / real (32 - 1)) = 2 / 255"
  by (rule real_sqrt_unique) (simp_all add: power2_eq_square)

lemma stripe_norm_sum: "(\<Sum>h<32. (stripe h / 255 - 1 / 85) / (2 / 255)) = 0"
  by (simp add: stripe_def eval_nat_numeral)

lemma stripe_norm_sq: "(\<Sum>h<32. ((stripe h / 255 - 1 / 85) / (2 / 255))\<^sup>2) = 31"
  by (simp add: stripe_def eval_nat_numeral power2_eq_square)

lemma striped_pix: "to_tensor striped_image c h x = Fin (stripe h / 255)"
  by (simp add: to_tensor_def striped_image_def stripe_def)

lemma striped_tensor_elt:
  "elt5 (foldl (\<lambda>t j. assign_rgb_frame t j (to_tensor striped_image))
           (zeros5 (1, 4, 1, 32, 32)) [0..<1]) b c f h x
   = (if b = 0 \<and> c < 3 \<and> f < 1 then Fin (stripe h / 255) else Fin 0)"
  by (simp only: rgb_frames_elt striped_pix) (simp add: zeros5_def)

lemma striped_tensor_dims:
  "dims5 (foldl (\<lambda>t j. assign_rgb_frame t j (to_tensor striped_image))
           (zeros5 (1, 4, 1, 32, 32)) [0..<1]) = (1, 4, 1, 32, 32)"
  by (simp only: rgb_frames_dims) (simp add: zeros5_def)

lemma striped_normalized_elt:
  assumes "h < 32" and "x < 32"
  shows "elt5 (normalize_023
           (foldl (\<lambda>t j. assign_rgb_frame t j (to_tensor striped_image))
              (zeros5 (1, 4, 1, 32, 32)) [0..<1])) 0 0 0 h x
         = Fin ((stripe h / 255 - 1 / 85) / (2 / 255))"
proof -
  let ?T = "foldl (\<lambda>t j. assign_rgb_frame t j (to_tensor striped_image))
              (zeros5 (1, 4, 1, 32, 32)) [0..<1]"
  define g where "g = (\<lambda>(b::nat) (f::nat) h. stripe h / 255)"
  have s: "sum3 1 1 32 g = 32 / 85"
    using stripe_sum by (simp add: sum3_def g_def)
  have m: "(1::real) / 85 = sum3 1 1 32 g / real (32::nat)"
    unfolding s by simp
  have q: "sum3 1 1 32 (\<lambda>b f h. (g b f h - 1 / 85)\<^sup>2) = 124 / 65025"
    using stripe_sq_dev by (simp add: sum3_def g_def)
  have sd: "(2::real) / 255 = sqrt (sum3 1 1 32 (\<lambda>b f h. (g b f h - 1 / 85)\<^sup>2) / real (32 - 1))"
    by (simp only: q stripe_std)
  have fin: "\<And>b f h. b < 1 \<Longrightarrow> f < 1 \<Longrightarrow> h < 32 \<Longrightarrow> elt5 ?T b 0 f h x = Fin (g b f h)"
    by (simp only: striped_tensor_elt) (simp add: g_def)
  have "elt5 (normalize_023 ?T) 0 0 0 h x = Fin ((g 0 0 h - 1 / 85) / (2 / 255))"
    by (rule col_normalized [OF striped_tensor_dims _ assms(2) fin _ _ m sd _ _ _ assms(1)])
       simp_all
  then show ?thesis by (simp add: g_def)
qed

lemma sum4_rows: "(\<Sum>b<(1::nat). \<Sum>f<(1::nat). \<Sum>h<(32::nat). \<Sum>x<(32::nat). (k h :: real))
                  = 32 * (\<Sum>h<32. k h)"
  by (simp add: sum_distrib_left)

text \<open>
  The claim as stated fails. For the striped seed image and one frame, every slice of
  channel 0 is normalised on its own, and the whole channel of the normalised tensor has
  mean 0 but variance 992/1023 with Bessel's correction (31/32 without), not 1.
\<close>

theorem channel_variance_not_one:
  "fst (preprocess_image_RGB stub_env ''input.png'' (32, 32) 1 (world_with striped_image))
     = Inr (foldl (\<lambda>t j. assign_rgb_frame t j (to_tensor striped_image))
              (zeros5 (1, 4, 1, 32, 32)) [0..<1])
   \<and> channel_mean (normalize_023
         (foldl (\<lambda>t j. assign_rgb_frame t j (to_tensor striped_image))
            (zeros5 (1, 4, 1, 32, 32)) [0..<1])) 0 = Fin 0
   \<and> channel_variance 1 (normalize_023
         (foldl (\<lambda>t j. assign_rgb_frame t j (to_tensor striped_image))
            (zeros5 (1, 4, 1, 32, 32)) [0..<1])) 0 = Fin (992 / 1023)
   \<and> channel_variance 0 (normalize_023
         (foldl (\<lambda>t j. assign_rgb_frame t j (to_tensor striped_image))
            (zeros5 (1, 4, 1, 32, 32)) [0..<1])) 0 = Fin (31 / 32)"
proof -
  define T where "T = foldl (\<lambda>t j. assign_rgb_frame t j (to_tensor striped_image))
              (zeros5 (1, 4, 1, 32, 32)) [0..<1]"
  define N where "N = normalize_023 T"
  define k where "k = (\<lambda>h. (stripe h / 255 - 1 / 85) / (2 / 255))"
  have f: "files (world_with striped_image) (resolve (world_with striped_image) ''input.png'')
           = Some (ImageFile striped_image)"
    by (simp add: world_with_def stub_world_def resolve_def os_path_join_def)
  have r: "pil_resize stub_env (32, 32) striped_image = striped_image"
    by (simp add: pil_resize_def striped_image_def)
  have h1: "fst (preprocess_image_RGB stub_env ''input.png'' (32, 32) 1
                  (world_with striped_image)) = Inr T"
    unfolding T_def by (simp only: preprocess_image_RGB_ok [OF f] r fst_conv)
  have dT: "dims5 T = (1, 4, 1, 32, 32)"
    unfolding T_def by (rule striped_tensor_dims)
  have d: "dims5 N = (1, 4, 1, 32, 32)"
    unfolding N_def by (rule normalize_023_dims [OF dT])
  have cnt: "count_0234 N = 1024" by (simp add: count_0234_def d)
  have e: "\<And>b f h x. b < 1 \<Longrightarrow> f < 1 \<Longrightarrow> h < 32 \<Longrightarrow> x < 32
            \<Longrightarrow> elt5 N b 0 f h x = Fin (k h)"
    unfolding N_def T_def k_def using striped_normalized_elt by simp
  have k0: "(\<Sum>h<32. k h) = 0" unfolding k_def by (rule stripe_norm_sum)
  have k2: "(\<Sum>h<32. (k h)\<^sup>2) = 31" unfolding k_def by (rule stripe_norm_sq)
  have "sum_0234 N 0 = Fin (\<Sum>b<(1::nat). \<Sum>f<(1::nat). \<Sum>h<(32::nat). \<Sum>x<(32::nat). k h)"
    by (rule sum_0234_Fin [OF d e])
  then have s: "sum_0234 N 0 = Fin 0"
    by (simp only: sum4_rows k0) simp
  have mean: "channel_mean N 0 = Fin 0"
    by (simp add: channel_mean_def s cnt)
  define S where "S = map5 (\<lambda>v. fsquare (fsub v (channel_mean N 0))) N"
  have dS: "dims5 S = (1, 4, 1, 32, 32)" by (simp add: S_def map5_def d)
  have eS: "\<And>b f h x. b < 1 \<Longrightarrow> f < 1 \<Longrightarrow> h < 32 \<Longrightarrow> x < 32
            \<Longrightarrow> elt5 S b 0 f h x = Fin ((k h)\<^sup>2)"
    by (simp add: S_def map5_def e mean fsub_def fsquare_def power2_eq_square)
  have "sum_0234 S 0 = Fin (\<Sum>b<(1::nat). \<Sum>f<(1::nat). \<Sum>h<(32::nat). \<Sum>x<(32::nat). (k h)\<^sup>2)"
    by (rule sum_0234_Fin [OF dS eS])
  then have sq: "sum_0234 S 0 = Fin 992"
    by (simp only: sum4_rows k2) simp
  have v1: "channel_variance 1 N 0 = Fin (992 / 1023)"
    using sq by (simp add: channel_variance_def S_def cnt)
  have v0: "channel_variance 0 N 0 = Fin (31 / 32)"
    using sq by (simp add: channel_variance_def S_def cnt)
  from h1 mean v1 v0 show ?thesis unfolding N_def T_def by blast
qed

section \<open>Properties of the effects\<close>

lemma torch_randn_eq:
  "torch_randn env shape w = (randn_tensor env (generator w) shape, w\<lparr>generator := Suc (generator w)\<rparr>)"
  by (simp add: torch_randn_def randn_tensor_def)

lemma randn_tensor_dims [simp]: "dims5 (randn_tensor env g shape) = shape"
  by (simp add: randn_tensor_def)

lemma resolve_upd [simp]:
  "resolve (w\<lparr>trace := t\<rparr>) p = resolve w p"
  "resolve (w\<lparr>generator := g\<rparr>) p = resolve w p"
  "resolve (w\<lparr>files := fs\<rparr>) p = resolve w p"
  by (simp_all add: resolve_def)

lemma encoded_texts_append [simp]:
  "encoded_texts (xs @ ys) = encoded_texts xs @ encoded_texts ys"
  by (induction xs rule: encoded_texts.induct) auto

lemma sampler_runs_append [simp]:
  "sampler_runs (xs @ ys) = sampler_runs xs @ sampler_runs ys"
  by (induction xs rule: sampler_runs.induct) auto

lemma opened_images_append [simp]:
  "opened_images (xs @ ys) = opened_images xs @ opened_images ys"
  by (induction xs rule: opened_images.induct) auto

lemma projections_of_writes [simp]:
  "encoded_texts (map (\<lambda>j. FileWritten (p j)) js) = []"
  "sampler_runs (map (\<lambda>j. FileWritten (p j)) js) = []"
  "opened_images (map (\<lambda>j. FileWritten (p j)) js) = []"
  by (induction js) auto

lemma write_file_cases:
  assumes "write_file p c w = (r, w')"
  shows "(dirname (resolve w p) \<in> dirs w \<and> r = Inr ()
          \<and> w' = w\<lparr>files := (files w)(resolve w p \<mapsto> c),
                    trace := trace w @ [FileWritten (resolve w p)]\<rparr>)
       \<or> (dirname (resolve w p) \<notin> dirs w \<and> r = Inl (FileNotFoundError (resolve w p)) \<and> w' = w)"
  using assms by (auto simp: write_file_def Let_def split: if_splits)

lemma write_file_ok:
  "dirname (resolve w p) \<in> dirs w \<Longrightarrow>
   write_file p c w = (Inr (), w\<lparr>files := (files w)(resolve w p \<mapsto> c),
                                 trace := trace w @ [FileWritten (resolve w p)]\<rparr>)"
  by (simp add: write_file_def Let_def)

lemma write_file_missing_dir:
  "dirname (resolve w p) \<notin> dirs w \<Longrightarrow>
   write_file p c w = (Inl (FileNotFoundError (resolve w p)), w)"
  by (simp add: write_file_def Let_def)

text \<open>Paths.\<close>

lemma os_path_join_absolute:
  "absolute a \<Longrightarrow> absolute (os_path_join a b)"
  by (cases b) (auto simp: absolute_def os_path_join_def)

lemma os_path_join_idem:
  "absolute b \<Longrightarrow> os_path_join a b = b"
  by (auto simp: absolute_def os_path_join_def)

lemma resolve_preview_path:
  "absolute (cwd w) \<Longrightarrow> resolve w (preview_path (cwd w) j) = preview_path (cwd w) j"
  unfolding resolve_def preview_path_def
  by (rule os_path_join_idem) (rule os_path_join_absolute)

lemma of_char_digit: "d < 10 \<Longrightarrow> of_char (digit_char d) = 48 + d"
  by (simp add: digit_char_def)

lemma digit_not_slash: "d < 10 \<Longrightarrow> digit_char d \<noteq> CHR ''/''"
proof
  assume d: "d < 10" and e: "digit_char d = CHR ''/''"
  have "(of_char (digit_char d) :: nat) = 48 + d" using d by (rule of_char_digit)
  with e show False by simp
qed

lemma str_nat_no_slash: "CHR ''/'' \<notin> set (str_nat n)"
proof (induction n rule: str_nat.induct)
  case (1 n)
  show ?case
  proof (cases "n < 10")
    case True
    then show ?thesis
      using digit_not_slash [of n] by (subst str_nat.simps) auto
  next
    case False
    have "n mod 10 < 10" by simp
    then have "digit_char (n mod 10) \<noteq> CHR ''/''" by (rule digit_not_slash)
    then show ?thesis
      using False 1 by (subst str_nat.simps) auto
  qed
qed


lemma nat_of_digits_str_nat: "nat_of_digits (str_nat n) = n"
proof (induction n rule: str_nat.induct)
  case (1 n)
  show ?case
  proof (cases "n < 10")
    case True
    then show ?thesis
      by (subst str_nat.simps) (simp add: nat_of_digits_def of_char_digit)
  next
    case False
    have m: "n mod 10 < 10" by simp
    have "nat_of_digits (str_nat n)
          = 10 * nat_of_digits (str_nat (n div 10)) + (of_char (digit_char (n mod 10)) - 48)"
      using False by (subst str_nat.simps) (simp add: nat_of_digits_def)
    also have "\<dots> = 10 * (n div 10) + n mod 10"
      using False 1 by (simp add: of_char_digit [OF m])
    finally show ?thesis by simp
  qed
qed

lemma str_nat_inj: "str_nat m = str_nat n \<Longrightarrow> m = n"
  by (metis nat_of_digits_str_nat)

lemma dir_of_file:
  assumes "CHR ''/'' \<notin> set t"
  shows "rev (dropWhile (\<lambda>c. c \<noteq> CHR ''/'') (rev (pre @ ''/'' @ t))) = pre @ ''/''"
proof -
  have "dropWhile (\<lambda>c. c \<noteq> CHR ''/'') (rev t @ (CHR ''/'' # rev pre)) = CHR ''/'' # rev pre"
    using assms by (subst dropWhile_append2) auto
  then show ?thesis by simp
qed

lemma dirname_file:
  assumes "CHR ''/'' \<notin> set t" and "pre \<noteq> []"
  shows "dirname (pre @ ''/'' @ t) = pre"
proof -
  have "dirname (pre @ ''/'' @ t) = (if pre @ ''/'' = ''/'' then pre @ ''/'' else butlast (pre @ ''/''))"
    unfolding dirname_def Let_def dir_of_file [OF assms(1)] by (rule refl)
  then show ?thesis using assms(2) by simp
qed

lemma preview_name_no_slash:
  "CHR ''/'' \<notin> set (''preview_frame_'' @ str_nat j @ ''.png'')"
  using str_nat_no_slash [of j] by simp

lemma preview_path_eq:
  assumes "absolute d"
  shows "preview_path d j = os_path_join d ''noise'' @ ''/'' @ (''preview_frame_'' @ str_nat j @ ''.png'')"
  using assms by (auto simp: preview_path_def os_path_join_def absolute_def)

lemma dirname_preview_path:
  assumes "absolute d"
  shows "dirname (preview_path d j) = os_path_join d ''noise''"
proof -
  have "os_path_join d ''noise'' \<noteq> []" by (auto simp: os_path_join_def)
  then show ?thesis
    unfolding preview_path_eq [OF assms]
    by (intro dirname_file preview_name_no_slash)
qed

lemma preview_path_inj:
  assumes "absolute d" and "preview_path d i = preview_path d j"
  shows "i = j"
proof -
  from assms(2) have "str_nat i = str_nat j"
    unfolding preview_path_eq [OF assms(1)] by simp
  then show ?thesis by (rule str_nat_inj)
qed

lemma distinct_preview_paths:
  "absolute d \<Longrightarrow> distinct (map (preview_path d) [0..<F])"
  by (auto simp: distinct_map inj_on_def dest: preview_path_inj)

lemma written_preview_absolute:
  "absolute d \<Longrightarrow> written_preview d j = preview_path d j"
  unfolding written_preview_def preview_path_def
  by (rule os_path_join_idem) (rule os_path_join_absolute)

lemma resolve_written_preview: "resolve w (preview_path (cwd w) j) = written_preview (cwd w) j"
  by (simp add: resolve_def written_preview_def)

lemma save_preview_cases:
  assumes "save_preview env t j w = (r, w')"
  shows "(r = Inr () \<and> dirname (written_preview (cwd w) j) \<in> dirs w
          \<and> (\<exists>im. w' = w\<lparr>files := (files w)(written_preview (cwd w) j \<mapsto> ImageFile im),
                          trace := trace w @ [FileWritten (written_preview (cwd w) j)]\<rparr>))
       \<or> ((\<exists>e. r = Inl e \<and> e \<noteq> InvalidImage) \<and> w' = w)"
proof -
  obtain nb nc nf nh nw where d: "dims5 t = (nb, nc, nf, nh, nw)"
    by (cases "dims5 t") auto
  show ?thesis
  proof (cases "nb = 0 \<or> nf \<le> j")
    case True
    then show ?thesis using assms(1) d by (auto simp: save_preview_def)
  next
    case False
    then have "write_file (preview_path (cwd w) j)
                 (ImageFile \<lparr>width = nw, height = nh, pix = save_image_pixels env t j\<rparr>) w = (r, w')"
      using assms(1) d by (simp add: save_preview_def preview_path_def)
    from write_file_cases [OF this] show ?thesis
      by (auto simp: resolve_written_preview)
  qed
qed

lemma save_preview_ok:
  assumes "dims5 t = (nb, nc, nf, nh, nw)" and "nb \<noteq> 0" and "j < nf"
    and "absolute (cwd w)" and "os_path_join (cwd w) ''noise'' \<in> dirs w"
  shows "\<exists>w'. save_preview env t j w = (Inr (), w')"
proof -
  have "dirname (resolve w (preview_path (cwd w) j)) \<in> dirs w"
    using assms(4,5) by (simp add: resolve_preview_path dirname_preview_path)
  from write_file_ok [OF this] show ?thesis
    using assms(1-3) by (simp add: save_preview_def preview_path_def)
qed

lemma save_noise_loop_result:
  assumes "save_noise_loop env t js w = (r, w')"
  shows "cwd w' = cwd w \<and> dirs w' = dirs w \<and> generator w' = generator w
       \<and> (\<forall>e. r = Inl e \<longrightarrow> e \<noteq> InvalidImage)
       \<and> (\<exists>k \<le> length js.
            trace w' = trace w @ map (\<lambda>j. FileWritten (written_preview (cwd w) j)) (take k js)
            \<and> (r = Inr () \<longrightarrow> k = length js)
            \<and> (\<forall>j \<in> set (take k js). dirname (written_preview (cwd w) j) \<in> dirs w)
            \<and> (\<forall>j \<in> set (take k js). \<exists>im. files w' (written_preview (cwd w) j) = Some (ImageFile im))
            \<and> (\<forall>q. q \<notin> written_preview (cwd w) ` set (take k js) \<longrightarrow> files w' q = files w q))"
  using assms
proof (induction js arbitrary: w)
  case Nil
  then show ?case by auto
next
  case (Cons j js)
  obtain r1 w1 where sp: "save_preview env t j w = (r1, w1)"
    by (cases "save_preview env t j w") auto
  from save_preview_cases [OF sp]
  show ?case
  proof
    assume ok: "r1 = Inr () \<and> dirname (written_preview (cwd w) j) \<in> dirs w
          \<and> (\<exists>im. w1 = w\<lparr>files := (files w)(written_preview (cwd w) j \<mapsto> ImageFile im),
                          trace := trace w @ [FileWritten (written_preview (cwd w) j)]\<rparr>)"
    then obtain im where w1: "w1 = w\<lparr>files := (files w)(written_preview (cwd w) j \<mapsto> ImageFile im),
                          trace := trace w @ [FileWritten (written_preview (cwd w) j)]\<rparr>"
      by blast
    have c1: "cwd w1 = cwd w" and d1: "dirs w1 = dirs w" and g1: "generator w1 = generator w"
      and t1: "trace w1 = trace w @ [FileWritten (written_preview (cwd w) j)]"
      and f1: "files w1 = (files w)(written_preview (cwd w) j \<mapsto> ImageFile im)"
      by (simp_all add: w1)
    have rest: "save_noise_loop env t js w1 = (r, w')"
      using Cons.prems(1) sp ok by simp
    from Cons.IH [OF rest]
    obtain k where k: "k \<le> length js"
      and tr: "trace w' = trace w1 @ map (\<lambda>j. FileWritten (written_preview (cwd w1) j)) (take k js)"
      and rk: "r = Inr () \<longrightarrow> k = length js"
      and dj: "\<forall>j \<in> set (take k js). dirname (written_preview (cwd w1) j) \<in> dirs w1"
      and fj: "\<forall>j \<in> set (take k js). \<exists>im. files w' (written_preview (cwd w1) j) = Some (ImageFile im)"
      and fo: "\<forall>q. q \<notin> written_preview (cwd w1) ` set (take k js) \<longrightarrow> files w' q = files w1 q"
      and inv: "cwd w' = cwd w1 \<and> dirs w' = dirs w1 \<and> generator w' = generator w1
                \<and> (\<forall>e. r = Inl e \<longrightarrow> e \<noteq> InvalidImage)"
      by blast
    have hd: "\<exists>im. files w' (written_preview (cwd w) j) = Some (ImageFile im)"
    proof (cases "written_preview (cwd w) j \<in> written_preview (cwd w) ` set (take k js)")
      case True
      then show ?thesis using fj c1 by auto
    next
      case False
      then show ?thesis using fo c1 f1 by auto
    qed
    have "Suc k \<le> length (j # js)
        \<and> trace w' = trace w @ map (\<lambda>j. FileWritten (written_preview (cwd w) j)) (take (Suc k) (j # js))
        \<and> (r = Inr () \<longrightarrow> Suc k = length (j # js))
        \<and> (\<forall>j' \<in> set (take (Suc k) (j # js)). dirname (written_preview (cwd w) j') \<in> dirs w)
        \<and> (\<forall>j' \<in> set (take (Suc k) (j # js)).
              \<exists>im. files w' (written_preview (cwd w) j') = Some (ImageFile im))
        \<and> (\<forall>q. q \<notin> written_preview (cwd w) ` set (take (Suc k) (j # js)) \<longrightarrow> files w' q = files w q)"
      using k tr rk dj fj fo hd ok c1 d1 t1 f1 by auto
    then have "\<exists>k \<le> length (j # js).
            trace w' = trace w @ map (\<lambda>j. FileWritten (written_preview (cwd w) j)) (take k (j # js))
            \<and> (r = Inr () \<longrightarrow> k = length (j # js))
            \<and> (\<forall>j' \<in> set (take k (j # js)). dirname (written_preview (cwd w) j') \<in> dirs w)
            \<and> (\<forall>j' \<in> set (take k (j # js)).
                  \<exists>im. files w' (written_preview (cwd w) j') = Some (ImageFile im))
            \<and> (\<forall>q. q \<notin> written_preview (cwd w) ` set (take k (j # js)) \<longrightarrow> files w' q = files w q)"
      by (rule exI [where x = "Suc k"])
    then show ?thesis using inv c1 d1 g1 by simp
  next
    assume bad: "(\<exists>e. r1 = Inl e \<and> e \<noteq> InvalidImage) \<and> w1 = w"
    then have "r = r1" and "w' = w" using Cons.prems(1) sp by auto
    then have "cwd w' = cwd w \<and> dirs w' = dirs w \<and> generator w' = generator w
       \<and> (\<forall>e. r = Inl e \<longrightarrow> e \<noteq> InvalidImage)"
      using bad by auto
    moreover have "(0::nat) \<le> length (j # js)
        \<and> trace w' = trace w @ map (\<lambda>j. FileWritten (written_preview (cwd w) j)) (take 0 (j # js))
        \<and> (r = Inr () \<longrightarrow> 0 = length (j # js))
        \<and> (\<forall>j' \<in> set (take 0 (j # js)). dirname (written_preview (cwd w) j') \<in> dirs w)
        \<and> (\<forall>j' \<in> set (take 0 (j # js)).
              \<exists>im. files w' (written_preview (cwd w) j') = Some (ImageFile im))
        \<and> (\<forall>q. q \<notin> written_preview (cwd w) ` set (take 0 (j # js)) \<longrightarrow> files w' q = files w q)"
      using bad \<open>r = r1\<close> \<open>w' = w\<close> by auto
    then have "\<exists>k \<le> length (j # js).
            trace w' = trace w @ map (\<lambda>j. FileWritten (written_preview (cwd w) j)) (take k (j # js))
            \<and> (r = Inr () \<longrightarrow> k = length (j # js))
            \<and> (\<forall>j' \<in> set (take k (j # js)). dirname (written_preview (cwd w) j') \<in> dirs w)
            \<and> (\<forall>j' \<in> set (take k (j # js)).
                  \<exists>im. files w' (written_preview (cwd w) j') = Some (ImageFile im))
            \<and> (\<forall>q. q \<notin> written_preview (cwd w) ` set (take k (j # js)) \<longrightarrow> files w' q = files w q)"
      by (rule exI [where x = "0"])
    ultimately show ?thesis by simp
  qed
qed

lemma save_noise_loop_ok:
  assumes "dims5 t = (nb, nc, nf, nh, nw)" and "nb \<noteq> 0" and "\<forall>j \<in> set js. j < nf"
    and "absolute (cwd w)" and "os_path_join (cwd w) ''noise'' \<in> dirs w"
  shows "\<exists>w'. save_noise_loop env t js w = (Inr (), w')"
  using assms(3-5)
proof (induction js arbitrary: w)
  case Nil
  then show ?case by simp
next
  case (Cons j js)
  then have "j < nf" by simp
  from save_preview_ok [OF assms(1,2) this Cons.prems(2,3)]
  obtain w1 where sp: "save_preview env t j w = (Inr (), w1)" by blast
  from save_preview_cases [OF sp]
  have "cwd w1 = cwd w" and "dirs w1 = dirs w" by auto
  then have "\<exists>w'. save_noise_loop env t js w1 = (Inr (), w')"
    using Cons.prems by (intro Cons.IH) auto
  then show ?case using sp by simp
qed

lemma blend_result:
  assumes "dims5 input_noise = (nb, nc, nf, nh, nw)"
  shows "(F = 0 \<and> blend input_noise image_tensor noise a0 r F = Inl RuntimeError)
       \<or> (0 < F \<and> (\<exists>latent. blend input_noise image_tensor noise a0 r F = Inr latent
                          \<and> dims5 latent = (nb, nc, F, nh, nw)))"
proof (cases "F = 0")
  case True
  then show ?thesis by (simp add: blend_def blended_tensors_def)
next
  case False
  then have F: "0 < F" by simp
  have d: "dims5 (combined_tensor_of input_noise image_tensor) = (nb, nc, nf, nh, nw)"
    using assms by (simp add: combined_tensor_of_dims)
  from cat2_blended_tensors [OF d F, of a0 r noise]
  obtain bt where c: "cat2 (blended_tensors a0 r F (combined_tensor_of input_noise image_tensor) noise)
                        = Inr bt"
    and db: "dims5 bt = (nb, nc, F, nh, nw)"
    by blast
  have "blend input_noise image_tensor noise a0 r F = Inr (normalize_023 bt)"
    by (simp add: blend_def c)
  then show ?thesis using F normalize_023_dims [OF db] by simp
qed

lemma decode_latents_error: "decode_latents env x0 = Inl e \<Longrightarrow> e = EinopsError"
  by (cases "dims4 (vae_decode env (rearrange_bcfhw_bfchw (map5 (fmul (Fin (1 / scale_factor))) x0)))")
     (auto simp: decode_latents_def Let_def rearrange_bfchw_bcfhw_def split: if_splits)

lemma preprocess_image_RGB_cases:
  assumes "preprocess_image_RGB env p (32, 32) F w = (r, w')"
  shows "(\<exists>im. files w (resolve w p) = Some (ImageFile im) \<and> r = Inr (image_tensor_of env im F)
             \<and> w' = w\<lparr>trace := trace w @ [ImageOpened (resolve w p) im]\<rparr>)
       \<or> ((\<exists>e. r = Inl e \<and> e \<noteq> InvalidImage) \<and> w' = w)"
proof -
  obtain r1 w1 where io: "image_open p w = (r1, w1)" by (cases "image_open p w") auto
  from image_open_cases [OF io] show ?thesis
    using assms io by (auto simp: preprocess_image_RGB_def image_tensor_of_def Let_def)
qed

lemma sampler_runs_empty_iff:
  "sampler_runs evs = [] \<longleftrightarrow> (\<forall>g n e. SamplerRun g n e \<notin> set evs)"
  by (induction evs rule: sampler_runs.induct) auto

lemma process_unfold:
  "process env te tn ip a0 r mf w =
     (if mf < 0 then (Inl RuntimeError, w)
      else
        (case preprocess_image_RGB env ip (32, 32) (nat mf) (w\<lparr>generator := Suc (generator w)\<rparr>) of
           (Inl e, w2) \<Rightarrow> (Inl e, w2)
         | (Inr image_tensor, w2) \<Rightarrow>
             (case blend (randn_tensor env (generator w) (1, 4, nat mf, 32, 32)) image_tensor
                     (randn_tensor env (generator w2) (1, 4, nat mf, 32, 32)) a0 r (nat mf) of
                Inl e \<Rightarrow> (Inl e, w2\<lparr>generator := Suc (generator w2)\<rparr>)
              | Inr latent \<Rightarrow>
                  (case save_noise env latent (nat mf) (w2\<lparr>generator := Suc (generator w2)\<rparr>) of
                     (Inl e, w4) \<Rightarrow> (Inl e, w4)
                   | (Inr u, w4) \<Rightarrow>
                       (decode_latents env (ddim_sample_loop env latent te tn 9 50 0),
                        w4\<lparr>trace := trace w4 @ [SamplerRun 9 50 0]\<rparr>)))))"
  by (simp add: process_def torch_randn_eq Let_def combined_tensor_of_dims
      run_ddim_sample_loop_def split: sum.split prod.split)

lemma process_cases:
  assumes "process env te tn ip a0 r mf w = (res, w')"
  shows "((\<exists>e. res = Inl e \<and> e \<noteq> InvalidImage) \<and> cwd w' = cwd w \<and> dirs w' = dirs w
          \<and> (\<exists>evs. trace w' = trace w @ evs \<and> sampler_runs evs = []
                    \<and> encoded_texts evs = []))
       \<or> (\<exists>im latent w4. 0 < mf \<and> files w (resolve w ip) = Some (ImageFile im)
            \<and> initial_latent env im a0 r (nat mf) (generator w) = Inr latent
            \<and> save_noise env latent (nat mf)
                 (w\<lparr>generator := Suc (Suc (generator w)),
                    trace := trace w @ [ImageOpened (resolve w ip) im]\<rparr>) = (Inr (), w4)
            \<and> w' = w4\<lparr>trace := trace w4 @ [SamplerRun 9 50 0]\<rparr>
            \<and> res = decode_latents env (ddim_sample_loop env latent te tn 9 50 0))"
proof (cases "mf < 0")
  case True
  then have "res = Inl RuntimeError" and "w' = w"
    using assms(1) by (simp_all add: process_def)
  then show ?thesis by auto
next
  case False
  define F where "F = nat mf"
  define w1 where "w1 = w\<lparr>generator := Suc (generator w)\<rparr>"
  define N1 where "N1 = randn_tensor env (generator w) (1, 4, F, 32, 32)"
  obtain r2 w2 where pi: "preprocess_image_RGB env ip (32, 32) F w1 = (r2, w2)"
    by (cases "preprocess_image_RGB env ip (32, 32) F w1") auto
  from preprocess_image_RGB_cases [OF pi]
  show ?thesis
  proof
    assume bad: "(\<exists>e. r2 = Inl e \<and> e \<noteq> InvalidImage) \<and> w2 = w1"
    then obtain e where e: "r2 = Inl e" "e \<noteq> InvalidImage" by blast
    have "res = Inl e" and "w' = w1"
      using assms(1) False pi e bad
      by (simp_all add: process_def torch_randn_eq F_def w1_def)
    then show ?thesis using e by (auto simp: w1_def)
  next
    assume "\<exists>im. files w1 (resolve w1 ip) = Some (ImageFile im)
                \<and> r2 = Inr (image_tensor_of env im F)
                \<and> w2 = w1\<lparr>trace := trace w1 @ [ImageOpened (resolve w1 ip) im]\<rparr>"
    then obtain im where fi: "files w (resolve w ip) = Some (ImageFile im)"
      and r2: "r2 = Inr (image_tensor_of env im F)"
      and w2: "w2 = w\<lparr>generator := Suc (generator w),
                       trace := trace w @ [ImageOpened (resolve w ip) im]\<rparr>"
      by (auto simp: w1_def)
    define w3 where "w3 = w\<lparr>generator := Suc (Suc (generator w)),
                           trace := trace w @ [ImageOpened (resolve w ip) im]\<rparr>"
    define N2 where "N2 = randn_tensor env (Suc (generator w)) (1, 4, F, 32, 32)"
    have dN1: "dims5 N1 = (1, 4, F, 32, 32)" by (simp add: N1_def)
    have tr2: "torch_randn env (dims5 (combined_tensor_of N1 (image_tensor_of env im F))) w2
               = (N2, w3)"
      by (simp add: torch_randn_eq combined_tensor_of_dims dN1 w2 N2_def w3_def)
    have il: "initial_latent env im a0 r F (generator w)
              = blend N1 (image_tensor_of env im F) N2 a0 r F"
      by (simp add: initial_latent_def N1_def N2_def)
    have step: "process env te tn ip a0 r mf w =
      (case blend N1 (image_tensor_of env im F) N2 a0 r F of
         Inl e \<Rightarrow> (Inl e, w3)
       | Inr latent \<Rightarrow>
          (case save_noise env latent F w3 of
             (Inl e, w4) \<Rightarrow> (Inl e, w4)
           | (Inr u, w4) \<Rightarrow>
               (decode_latents env (ddim_sample_loop env latent te tn 9 50 0),
                w4\<lparr>trace := trace w4 @ [SamplerRun 9 50 0]\<rparr>)))"
    proof -
      have g2: "generator w2 = Suc (generator w)" by (simp add: w2)
      have w23: "w2\<lparr>generator := Suc (Suc (generator w))\<rparr> = w3" by (simp add: w2 w3_def)
      have pi': "preprocess_image_RGB env ip (32, 32) (nat mf) (w\<lparr>generator := Suc (generator w)\<rparr>)
                 = (Inr (image_tensor_of env im F), w2)"
        using pi r2 by (simp add: F_def w1_def)
      show ?thesis
        unfolding process_unfold
        by (simp only: False if_False pi' prod.case sum.case g2 w23 N1_def N2_def F_def)
    qed
    from blend_result [OF dN1, of F "image_tensor_of env im F" N2 a0 r]
    show ?thesis
    proof
      assume z: "F = 0 \<and> blend N1 (image_tensor_of env im F) N2 a0 r F = Inl RuntimeError"
      then have bl0: "blend N1 (image_tensor_of env im F) N2 a0 r F = Inl RuntimeError"
        by blast
      have "res = Inl RuntimeError" and "w' = w3"
        using assms(1) step bl0 by simp_all
      then show ?thesis by (auto simp: w3_def)
    next
      assume "0 < F \<and> (\<exists>latent. blend N1 (image_tensor_of env im F) N2 a0 r F = Inr latent
                          \<and> dims5 latent = (1, 4, F, 32, 32))"
      then obtain latent where F: "0 < F"
        and bl: "blend N1 (image_tensor_of env im F) N2 a0 r F = Inr latent"
        by blast
      obtain r4 w4 where sn: "save_noise env latent F w3 = (r4, w4)"
        by (cases "save_noise env latent F w3") auto
      from save_noise_loop_result [OF sn [unfolded save_noise_def]]
      have inv: "cwd w4 = cwd w" "dirs w4 = dirs w" "\<forall>e. r4 = Inl e \<longrightarrow> e \<noteq> InvalidImage"
        and "\<exists>k. trace w4 = trace w3 @ map (\<lambda>j. FileWritten (written_preview (cwd w3) j)) (take k [0..<F])"
        by (auto simp: w3_def)
      then obtain k where tr4: "trace w4 = trace w3 @ map (\<lambda>j. FileWritten (written_preview (cwd w3) j)) (take k [0..<F])"
        by blast
      show ?thesis
      proof (cases r4)
        case (Inl e)
        then have "res = Inl e" and "w' = w4"
          using assms(1) step bl sn by simp_all
        moreover have "trace w4 = trace w @ (ImageOpened (resolve w ip) im
                          # map (\<lambda>j. FileWritten (written_preview (cwd w3) j)) (take k [0..<F]))"
          using tr4 by (simp add: w3_def)
        ultimately show ?thesis using inv Inl by auto
      next
        case (Inr u)
        then have "res = decode_latents env (ddim_sample_loop env latent te tn 9 50 0)"
          and "w' = w4\<lparr>trace := trace w4 @ [SamplerRun 9 50 0]\<rparr>"
          using assms(1) step bl sn by simp_all
        moreover have "0 < mf" using F by (simp add: F_def)
        moreover have "save_noise env latent (nat mf) w3 = (Inr (), w4)"
          using sn Inr by (simp add: F_def)
        ultimately have "\<exists>im latent w4. 0 < mf \<and> files w (resolve w ip) = Some (ImageFile im)
            \<and> initial_latent env im a0 r (nat mf) (generator w) = Inr latent
            \<and> save_noise env latent (nat mf)
                 (w\<lparr>generator := Suc (Suc (generator w)),
                    trace := trace w @ [ImageOpened (resolve w ip) im]\<rparr>) = (Inr (), w4)
            \<and> w' = w4\<lparr>trace := trace w4 @ [SamplerRun 9 50 0]\<rparr>
            \<and> res = decode_latents env (ddim_sample_loop env latent te tn 9 50 0)"
          using fi il bl unfolding w3_def F_def
          by (intro exI [of _ im] exI [of _ latent] exI [of _ w4]) simp
        then show ?thesis by (rule disjI2)
      qed
    qed
  qed
qed

lemma image_tensor_of_dims: "dims5 (image_tensor_of env im F) = (1, 4, F, 32, 32)"
  by (simp add: image_tensor_of_def rgb_frames_dims zeros5_def)

lemma preprocess_image_RGB_ok':
  assumes "files w (resolve w p) = Some (ImageFile im)"
  shows "preprocess_image_RGB env p (32, 32) F w =
           (Inr (image_tensor_of env im F),
            w\<lparr>trace := trace w @ [ImageOpened (resolve w p) im]\<rparr>)"
  unfolding image_tensor_of_def by (rule preprocess_image_RGB_ok [OF assms])

lemma initial_latent_ok:
  assumes "0 < F"
  shows "\<exists>latent. initial_latent env im a0 r F g = Inr latent \<and> dims5 latent = (1, 4, F, 32, 32)"
proof -
  have d: "dims5 (randn_tensor env g (1, 4, F, 32, 32)) = (1, 4, F, 32, 32)" by simp
  from blend_result [OF d, of F "image_tensor_of env im F"
      "randn_tensor env (Suc g) (1, 4, F, 32, 32)" a0 r] assms
  show ?thesis by (auto simp: initial_latent_def)
qed

lemma process_ok:
  assumes "0 < mf" and "files w (resolve w ip) = Some (ImageFile im)"
    and "absolute (cwd w)" and "os_path_join (cwd w) ''noise'' \<in> dirs w"
  shows "\<exists>latent w4. initial_latent env im a0 r (nat mf) (generator w) = Inr latent
           \<and> dims5 latent = (1, 4, nat mf, 32, 32)
           \<and> save_noise env latent (nat mf)
                (w\<lparr>generator := Suc (Suc (generator w)),
                   trace := trace w @ [ImageOpened (resolve w ip) im]\<rparr>) = (Inr (), w4)
           \<and> process env te tn ip a0 r mf w
               = (decode_latents env (ddim_sample_loop env latent te tn 9 50 0),
                  w4\<lparr>trace := trace w4 @ [SamplerRun 9 50 0]\<rparr>)"
proof -
  define w3 where "w3 = w\<lparr>generator := Suc (Suc (generator w)),
                           trace := trace w @ [ImageOpened (resolve w ip) im]\<rparr>"
  have F: "0 < nat mf" using assms(1) by simp
  from initial_latent_ok [OF F, of env im a0 r "generator w"]
  obtain latent where il: "initial_latent env im a0 r (nat mf) (generator w) = Inr latent"
    and dl: "dims5 latent = (1, 4, nat mf, 32, 32)"
    by blast
  have a3: "absolute (cwd w3)" and n3: "os_path_join (cwd w3) ''noise'' \<in> dirs w3"
    using assms(3,4) by (simp_all add: w3_def)
  have "\<exists>w4. save_noise_loop env latent [0..<nat mf] w3 = (Inr (), w4)"
    by (rule save_noise_loop_ok [OF dl _ _ a3 n3]) simp_all
  then obtain w4 where sn: "save_noise env latent (nat mf) w3 = (Inr (), w4)"
    by (auto simp: save_noise_def)
  define w2 where "w2 = w\<lparr>generator := Suc (generator w),
                  trace := trace w @ [ImageOpened (resolve w ip) im]\<rparr>"
  have pi: "preprocess_image_RGB env ip (32, 32) (nat mf) (w\<lparr>generator := Suc (generator w)\<rparr>)
            = (Inr (image_tensor_of env im (nat mf)), w2)"
    using preprocess_image_RGB_ok' [of "w\<lparr>generator := Suc (generator w)\<rparr>" ip im env "nat mf"]
      assms(2) by (simp add: w2_def)
  have g2: "generator w2 = Suc (generator w)" by (simp add: w2_def)
  have w23: "w2\<lparr>generator := Suc (Suc (generator w))\<rparr> = w3" by (simp add: w2_def w3_def)
  have bl: "blend (randn_tensor env (generator w) (1, 4, nat mf, 32, 32))
              (image_tensor_of env im (nat mf))
              (randn_tensor env (Suc (generator w)) (1, 4, nat mf, 32, 32)) a0 r (nat mf)
            = Inr latent"
    using il by (simp add: initial_latent_def)
  have nz: "\<not> mf < 0" using assms(1) by simp
  have "process env te tn ip a0 r mf w
               = (decode_latents env (ddim_sample_loop env latent te tn 9 50 0),
                  w4\<lparr>trace := trace w4 @ [SamplerRun 9 50 0]\<rparr>)"
    unfolding process_unfold
    by (simp only: nz if_False pi prod.case sum.case g2 w23 bl sn)
  with il dl sn show ?thesis unfolding w3_def by blast
qed

lemma decode_latents_ok:
  assumes "sampler_keeps_shape env" and "decoder_keeps_batch env"
    and "dims5 latent = (1, 4, F, 32, 32)"
  shows "\<exists>v h' w'. decode_latents env (ddim_sample_loop env latent y yn g n eta) = Inr v
           \<and> dims5 v = (1, 3, F, h', w')"
proof -
  let ?x0 = "ddim_sample_loop env latent y yn g n eta"
  let ?flat = "rearrange_bcfhw_bfchw (map5 (fmul (Fin (1 / scale_factor))) ?x0)"
  have d0: "dims5 ?x0 = (1, 4, F, 32, 32)"
    using assms(1,3) by (simp add: sampler_keeps_shape_def)
  have df: "dims4 ?flat = (F, 4, 32, 32)"
    using d0 by (simp add: rearrange_bcfhw_bfchw_def map5_def)
  obtain n' c' h' w' where dd: "dims4 (vae_decode env ?flat) = (n', c', h', w')"
    by (cases "dims4 (vae_decode env ?flat)") auto
  have "n' = F" and "c' = 3"
    using assms(2) dd df unfolding decoder_keeps_batch_def
    by (metis fst_conv snd_conv)+
  then have dd': "dims4 (vae_decode env ?flat) = (F, 3, h', w')" using dd by simp
  have "decode_latents env ?x0
        = Inr \<lparr>dims5 = (1, 3, F, h', w'),
               elt5 = (\<lambda>b c f h w. elt4 (vae_decode env ?flat) (b * F + f) c h w)\<rparr>"
    using d0 dd' by (simp add: decode_latents_def Let_def map5_def rearrange_bfchw_bcfhw_def)
  then show ?thesis by auto
qed

lemma save_noise_ok_result:
  assumes "save_noise env t F w = (Inr (), w')" and "absolute (cwd w)"
  shows "cwd w' = cwd w \<and> dirs w' = dirs w \<and> generator w' = generator w
       \<and> trace w' = trace w @ map (\<lambda>j. FileWritten (preview_path (cwd w) j)) [0..<F]
       \<and> (0 < F \<longrightarrow> os_path_join (cwd w) ''noise'' \<in> dirs w)
       \<and> (\<forall>j < F. \<exists>im. files w' (preview_path (cwd w) j) = Some (ImageFile im))
       \<and> (\<forall>q. q \<notin> preview_path (cwd w) ` {..<F} \<longrightarrow> files w' q = files w q)"
proof -
  have wp: "written_preview (cwd w) = preview_path (cwd w)"
    using written_preview_absolute [OF assms(2)] by auto
  from save_noise_loop_result [OF assms(1) [unfolded save_noise_def]]
  obtain k where "k \<le> length [0..<F]"
    and "trace w' = trace w @ map (\<lambda>j. FileWritten (preview_path (cwd w) j)) (take k [0..<F])"
    and "k = length [0..<F]"
    and dn: "\<forall>j \<in> set (take k [0..<F]). dirname (preview_path (cwd w) j) \<in> dirs w"
    and "\<forall>j \<in> set (take k [0..<F]). \<exists>im. files w' (preview_path (cwd w) j) = Some (ImageFile im)"
    and "\<forall>q. q \<notin> preview_path (cwd w) ` set (take k [0..<F]) \<longrightarrow> files w' q = files w q"
    and "cwd w' = cwd w \<and> dirs w' = dirs w \<and> generator w' = generator w"
    unfolding wp by blast
  then show ?thesis
    using dirname_preview_path [OF assms(2)] by (auto simp: lessThan_atLeast0)
qed

text \<open>
  Claim C10. Every call of \<^verbatim>\<open>process\<close> (from an absolute working directory) either fails
  without running the sampler, or has \<open>max_frames > 0\<close>, finds the directory \<open>noise\<close> under
  the working directory, and does exactly this, in this order: it opens the seed image,
  writes the previews \<open>noise/preview_frame_j.png\<close> for \<open>j = 0, ..., max_frames - 1\<close> (distinct
  files, all present afterwards), and then runs the sampler. No parameter switches the
  previews off, and without the directory the sampler is never reached.
\<close>

theorem process_writes_previews_before_sampling:
  assumes "process env te tn ip a0 r mf w = (res, w')" and "absolute (cwd w)"
  shows "\<exists>evs. trace w' = trace w @ evs \<and>
           (((\<exists>e. res = Inl e) \<and> (\<forall>g n eta. SamplerRun g n eta \<notin> set evs))
            \<or> (0 < mf \<and> os_path_join (cwd w) ''noise'' \<in> dirs w
                \<and> (\<exists>im. files w (resolve w ip) = Some (ImageFile im)
                     \<and> evs = ImageOpened (resolve w ip) im
                             # map (\<lambda>j. FileWritten (preview_path (cwd w) j)) [0..<nat mf]
                             @ [SamplerRun 9 50 0])
                \<and> (\<forall>j < nat mf.
                      \<exists>pim. files w' (preview_path (cwd w) j) = Some (ImageFile pim))
                \<and> distinct (map (preview_path (cwd w)) [0..<nat mf])))"
proof -
  from process_cases [OF assms(1)]
  show ?thesis
  proof
    assume "(\<exists>e. res = Inl e \<and> e \<noteq> InvalidImage) \<and> cwd w' = cwd w \<and> dirs w' = dirs w
          \<and> (\<exists>evs. trace w' = trace w @ evs \<and> sampler_runs evs = []
                    \<and> encoded_texts evs = [])"
    then obtain e evs where "res = Inl e" and "trace w' = trace w @ evs"
      and "sampler_runs evs = []"
      by blast
    then show ?thesis
      by (intro exI [of _ evs]) (auto simp: sampler_runs_empty_iff)
  next
    assume "\<exists>im latent w4. 0 < mf \<and> files w (resolve w ip) = Some (ImageFile im)
            \<and> initial_latent env im a0 r (nat mf) (generator w) = Inr latent
            \<and> save_noise env latent (nat mf)
                 (w\<lparr>generator := Suc (Suc (generator w)),
                    trace := trace w @ [ImageOpened (resolve w ip) im]\<rparr>) = (Inr (), w4)
            \<and> w' = w4\<lparr>trace := trace w4 @ [SamplerRun 9 50 0]\<rparr>
            \<and> res = decode_latents env (ddim_sample_loop env latent te tn 9 50 0)"
    then obtain im latent w4 where mf: "0 < mf"
      and fi: "files w (resolve w ip) = Some (ImageFile im)"
      and sn: "save_noise env latent (nat mf)
                 (w\<lparr>generator := Suc (Suc (generator w)),
                    trace := trace w @ [ImageOpened (resolve w ip) im]\<rparr>) = (Inr (), w4)"
      and w': "w' = w4\<lparr>trace := trace w4 @ [SamplerRun 9 50 0]\<rparr>"
      by blast
    have a3: "absolute (cwd (w\<lparr>generator := Suc (Suc (generator w)),
                    trace := trace w @ [ImageOpened (resolve w ip) im]\<rparr>))"
      using assms(2) by simp
    from save_noise_ok_result [OF sn a3] mf
    have tr: "trace w4 = trace w @ ImageOpened (resolve w ip) im
                # map (\<lambda>j. FileWritten (preview_path (cwd w) j)) [0..<nat mf]"
      and nd: "os_path_join (cwd w) ''noise'' \<in> dirs w"
      and fs: "\<forall>j < nat mf. \<exists>pim. files w4 (preview_path (cwd w) j) = Some (ImageFile pim)"
      by simp_all
    let ?evs = "ImageOpened (resolve w ip) im
                # map (\<lambda>j. FileWritten (preview_path (cwd w) j)) [0..<nat mf]
                @ [SamplerRun 9 50 0]"
    have "trace w' = trace w @ ?evs" using tr by (simp add: w')
    moreover have "\<forall>j < nat mf. \<exists>pim. files w' (preview_path (cwd w) j) = Some (ImageFile pim)"
      using fs by (simp add: w')
    moreover have "distinct (map (preview_path (cwd w)) [0..<nat mf])"
      by (rule distinct_preview_paths [OF assms(2)])
    ultimately show ?thesis
      using mf nd fi by (intro exI [of _ ?evs]) auto
  qed
qed

lemma stub_env_contracts:
  "sampler_keeps_shape stub_env" "decoder_keeps_batch stub_env" "codec_keeps_frames stub_env"
  by (auto simp: sampler_keeps_shape_def decoder_keeps_batch_def codec_keeps_frames_def
      stub_env_def stub_decode_def split: prod.splits)

lemma world_with_facts:
  "cwd (world_with im) = ''/w''"
  "dirs (world_with im) = {''/w'', ''/w/noise''}"
  "trace (world_with im) = []"
  "generator (world_with im) = 0"
  "absolute (cwd (world_with im))"
  "resolve (world_with im) ''input.png'' = ''/w/input.png''"
  "files (world_with im) ''/w/input.png'' = Some (ImageFile im)"
  "os_path_join ''/w'' ''noise'' = ''/w/noise''"
  by (simp_all add: world_with_def stub_world_def absolute_def resolve_def os_path_join_def)

lemma str_nat_digit: "n < 10 \<Longrightarrow> str_nat n = [digit_char n]"
  by (subst str_nat.simps) simp

lemma digit_chars:
  "digit_char 0 = CHR ''0''" "digit_char (Suc 0) = CHR ''1''" "digit_char 1 = CHR ''1''"
  "digit_char 2 = CHR ''2''" "digit_char 3 = CHR ''3''"
  by (simp_all add: digit_char_def char_of_def bit_simps)

lemma preview_paths_w:
  "preview_path ''/w'' 0 = ''/w/noise/preview_frame_0.png''"
  "preview_path ''/w'' (Suc 0) = ''/w/noise/preview_frame_1.png''"
  "preview_path ''/w'' 1 = ''/w/noise/preview_frame_1.png''"
  "preview_path ''/w'' 2 = ''/w/noise/preview_frame_2.png''"
  "preview_path ''/w'' 3 = ''/w/noise/preview_frame_3.png''"
  by (simp_all add: preview_path_def os_path_join_def str_nat_digit digit_chars)

theorem process_writes_previews_before_sampling_witness:
  "trace (snd (process stub_env () () ''input.png'' (23 / 100) (8 / 10) 2
                 (world_with gray_image)))
   = [ImageOpened ''/w/input.png'' gray_image,
      FileWritten ''/w/noise/preview_frame_0.png'',
      FileWritten ''/w/noise/preview_frame_1.png'',
      SamplerRun 9 50 0]"
proof -
  let ?W = "world_with gray_image"
  let ?P = "process stub_env () () ''input.png'' (23 / 100) (8 / 10) 2 ?W"
  have p: "?P = (fst ?P, snd ?P)" by simp
  have a: "absolute (cwd ?W)" by (rule world_with_facts)
  have f: "files ?W (resolve ?W ''input.png'') = Some (ImageFile gray_image)"
    by (simp add: world_with_facts)
  have n: "os_path_join (cwd ?W) ''noise'' \<in> dirs ?W" by (simp add: world_with_facts)
  from process_ok [OF _ f a n, of 2 stub_env "23 / 100" "8 / 10" "()" "()"]
  obtain latent where dl: "dims5 latent = (1, 4, nat 2, 32, 32)"
    and r: "fst ?P = decode_latents stub_env (ddim_sample_loop stub_env latent () () 9 50 0)"
    by auto
  from decode_latents_ok [OF stub_env_contracts(1,2) dl] r
  obtain v where v: "fst ?P = Inr v" by metis
  from process_writes_previews_before_sampling [OF p a] v
  obtain evs im where t: "trace (snd ?P) = trace ?W @ evs"
    and fi: "files ?W (resolve ?W ''input.png'') = Some (ImageFile im)"
    and e: "evs = ImageOpened (resolve ?W ''input.png'') im
                  # map (\<lambda>j. FileWritten (preview_path (cwd ?W) j)) [0..<nat 2]
                  @ [SamplerRun 9 50 0]"
    by auto
  from fi f have "im = gray_image" by simp
  moreover have "[0..<nat 2] = [0, 1]" by (simp add: upt_rec)
  ultimately show ?thesis
    using t e by (simp add: world_with_facts preview_paths_w)
qed

section \<open>Properties of the written video\<close>

lemma frames_of_length: "dims4 images = (nf, nh, nw, nc) \<Longrightarrow> length (frames_of images) = nf"
  by (simp add: frames_of_def)

lemma frames_of_pix:
  "dims4 images = (nf, nh, nw, nc) \<Longrightarrow> j < nf
     \<Longrightarrow> pix (frames_of images ! j) y x c = elt4 images j y x c"
  by (simp add: frames_of_def)

lemma to_uint8_images_dims: "dims4 (to_uint8_images ub images) = dims4 images"
  by (simp add: to_uint8_images_def map4_def)

lemma to_uint8_images_elt:
  "elt4 (to_uint8_images ub images) j y x c = to_pixel ub (elt4 images j y x c)"
  by (simp add: to_uint8_images_def map4_def)

lemma save_webm_ok:
  assumes "dirname (resolve w file_path) \<in> dirs w"
  shows "save_webm env images file_path fps w
         = (Inr (), w\<lparr>files := (files w)(resolve w file_path \<mapsto>
                          VideoFile (frames_of (to_uint8_images (uint8_undefined env) images)) fps),
                       trace := trace w @ [FileWritten (resolve w file_path)]\<rparr>)"
  using write_file_ok [OF assms] by (simp add: save_webm_def Let_def)

text \<open>The byte written for a decoded value, by the value's position with respect to the
  floor and the ceiling.\<close>

lemma pixel_of_decoded:
  assumes "0 < s"
  shows "(u = MInf \<or> (\<exists>v. u = Fin v \<and> v < (0 - m) / s)
            \<longrightarrow> to_pixel ub (fadd (fmul u (Fin s)) (Fin m)) = 0)
       \<and> (u = PInf \<or> (\<exists>v. u = Fin v \<and> (1 - m) / s < v)
            \<longrightarrow> to_pixel ub (fadd (fmul u (Fin s)) (Fin m)) = 255)
       \<and> (\<forall>v. u = Fin v \<and> (0 - m) / s \<le> v \<and> v \<le> (1 - m) / s
            \<longrightarrow> (\<exists>k. to_pixel ub (fadd (fmul u (Fin s)) (Fin m)) = word_of_int k
                    \<and> 0 \<le> k \<and> k \<le> 255
                    \<and> \<bar>real_of_int k - 255 * (v * s + m)\<bar> \<le> 1 / 2))"
proof (intro conjI impI allI)
  assume "u = MInf \<or> (\<exists>v. u = Fin v \<and> v < (0 - m) / s)"
  then show "to_pixel ub (fadd (fmul u (Fin s)) (Fin m)) = 0"
  proof
    assume "u = MInf"
    then show ?thesis using assms by (simp add: to_pixel_minf)
  next
    assume "\<exists>v. u = Fin v \<and> v < (0 - m) / s"
    then obtain v where u: "u = Fin v" and "v < (0 - m) / s" by blast
    then have "v * s + m < 0" using assms by (simp add: field_simps)
    then show ?thesis by (simp add: u to_pixel_low)
  qed
next
  assume "u = PInf \<or> (\<exists>v. u = Fin v \<and> (1 - m) / s < v)"
  then show "to_pixel ub (fadd (fmul u (Fin s)) (Fin m)) = 255"
  proof
    assume "u = PInf"
    then show ?thesis using assms by (simp add: to_pixel_pinf)
  next
    assume "\<exists>v. u = Fin v \<and> (1 - m) / s < v"
    then obtain v where u: "u = Fin v" and "(1 - m) / s < v" by blast
    then have "1 < v * s + m" using assms by (simp add: field_simps)
    then show ?thesis by (simp add: u to_pixel_high)
  qed
next
  fix v
  assume a: "u = Fin v \<and> (0 - m) / s \<le> v \<and> v \<le> (1 - m) / s"
  then have "0 \<le> v * s + m" and "v * s + m \<le> 1" using assms by (simp_all add: field_simps)
  then have t: "to_pixel ub (Fin (v * s + m)) = word_of_int (round_half_even ((v * s + m) * 255))
       \<and> 0 \<le> round_half_even ((v * s + m) * 255) \<and> round_half_even ((v * s + m) * 255) \<le> 255"
    by (rule to_pixel_mid)
  have "\<bar>real_of_int (round_half_even ((v * s + m) * 255)) - (v * s + m) * 255\<bar> \<le> 1 / 2"
    by (rule rhe_near)
  then have "\<bar>real_of_int (round_half_even ((v * s + m) * 255)) - 255 * (v * s + m)\<bar> \<le> 1 / 2"
    by (simp add: mult.commute)
  with t a show "\<exists>k. to_pixel ub (fadd (fmul u (Fin s)) (Fin m)) = word_of_int k
                    \<and> 0 \<le> k \<and> k \<le> 255
                    \<and> \<bar>real_of_int k - 255 * (v * s + m)\<bar> \<le> 1 / 2"
    by (intro exI [where x = "round_half_even ((v * s + m) * 255)"]) simp
qed

text \<open>
  Claim C6. Post-processing saturates and rounds, and rejects nothing. \<^verbatim>\<open>tensor2vid\<close>
  followed by \<^verbatim>\<open>save_webm\<close> writes a video with one frame for each frame of the decoded
  tensor. For a decoded value of channel \<open>c\<close>, with the channel's mean \<open>m\<close> and positive
  std \<open>s\<close>: when the value is below the floor \<open>(0 - m) / s\<close>, minus infinity included, the
  byte in the written frame is 0; when it is above the ceiling \<open>(1 - m) / s\<close>, plus
  infinity included, the byte is 255; and in between the byte is an integer within one half
  of \<open>255 * (v * s + m)\<close>, that is, the nearest integer and not the truncation. With the
  default mean and std 1/2 of \<^verbatim>\<open>postprocess\<close> the floor is -1 and the ceiling is +1.
\<close>

theorem saved_video_saturates_and_rounds:
  assumes "dims5 video = (i, 3, f, h, w)"
    and "n < i" and "c < 3" and "j < f" and "y < h" and "x < w"
    and "0 < chan3 std c"
    and "dirname (resolve wd file_path) \<in> dirs wd"
  shows "\<exists>images frames wd'.
           tensor2vid video mean std = Inr images
         \<and> save_webm env images file_path fps wd = (Inr (), wd')
         \<and> files wd' (resolve wd file_path) = Some (VideoFile frames fps)
         \<and> length frames = f
         \<and> (elt5 video n c j y x = MInf
              \<or> (\<exists>v. elt5 video n c j y x = Fin v \<and> v < (0 - chan3 mean c) / chan3 std c)
            \<longrightarrow> pix (frames ! j) y (n * w + x) c = 0)
         \<and> (elt5 video n c j y x = PInf
              \<or> (\<exists>v. elt5 video n c j y x = Fin v \<and> (1 - chan3 mean c) / chan3 std c < v)
            \<longrightarrow> pix (frames ! j) y (n * w + x) c = 255)
         \<and> (\<forall>v. elt5 video n c j y x = Fin v
                 \<and> (0 - chan3 mean c) / chan3 std c \<le> v
                 \<and> v \<le> (1 - chan3 mean c) / chan3 std c
            \<longrightarrow> (\<exists>k. pix (frames ! j) y (n * w + x) c = word_of_int k
                    \<and> 0 \<le> k \<and> k \<le> 255
                    \<and> \<bar>real_of_int k - 255 * (v * chan3 std c + chan3 mean c)\<bar> \<le> 1 / 2))"
proof -
  obtain images where im: "tensor2vid video mean std = Inr images"
    and d: "dims4 images = (f, h, i * w, 3)"
    using tensor2vid_dims [OF assms(1)] by blast
  define ub where "ub = uint8_undefined env"
  define frames where "frames = frames_of (to_uint8_images ub images)"
  define wd' where "wd' = wd\<lparr>files := (files wd)(resolve wd file_path \<mapsto> VideoFile frames fps),
                               trace := trace wd @ [FileWritten (resolve wd file_path)]\<rparr>"
  have sw: "save_webm env images file_path fps wd = (Inr (), wd')"
    using save_webm_ok [OF assms(8)] by (simp add: wd'_def frames_def ub_def)
  have fl: "files wd' (resolve wd file_path) = Some (VideoFile frames fps)"
    by (simp add: wd'_def)
  have d8: "dims4 (to_uint8_images ub images) = (f, h, i * w, 3)"
    by (simp add: to_uint8_images_dims d)
  have len: "length frames = f"
    unfolding frames_def by (rule frames_of_length [OF d8])
  have e: "elt4 images j y (n * w + x) c
           = fadd (fmul (elt5 video n c j y x) (Fin (chan3 std c))) (Fin (chan3 mean c))"
    by (rule tensor2vid_elt [OF assms(1) im assms(2-6)])
  have p: "pix (frames ! j) y (n * w + x) c
           = to_pixel ub (fadd (fmul (elt5 video n c j y x) (Fin (chan3 std c)))
                                (Fin (chan3 mean c)))"
    unfolding frames_def
    by (simp add: frames_of_pix [OF d8 assms(4)] to_uint8_images_elt e)
  from pixel_of_decoded [OF assms(7), of "elt5 video n c j y x" "chan3 mean c" ub]
  have "(elt5 video n c j y x = MInf
              \<or> (\<exists>v. elt5 video n c j y x = Fin v \<and> v < (0 - chan3 mean c) / chan3 std c)
            \<longrightarrow> pix (frames ! j) y (n * w + x) c = 0)
         \<and> (elt5 video n c j y x = PInf
              \<or> (\<exists>v. elt5 video n c j y x = Fin v \<and> (1 - chan3 mean c) / chan3 std c < v)
            \<longrightarrow> pix (frames ! j) y (n * w + x) c = 255)
         \<and> (\<forall>v. elt5 video n c j y x = Fin v
                 \<and> (0 - chan3 mean c) / chan3 std c \<le> v
                 \<and> v \<le> (1 - chan3 mean c) / chan3 std c
            \<longrightarrow> (\<exists>k. pix (frames ! j) y (n * w + x) c = word_of_int k
                    \<and> 0 \<le> k \<and> k \<le> 255
                    \<and> \<bar>real_of_int k - 255 * (v * chan3 std c + chan3 mean c)\<bar> \<le> 1 / 2))"
    unfolding p .
  with im sw fl len show ?thesis by blast
qed

lemma stub_world_output:
  "dirname (resolve stub_world ''output.webm'') \<in> dirs stub_world"
  "resolve stub_world ''output.webm'' = ''/w/output.webm''"
  "dirname ''/w/output.webm'' \<in> dirs stub_world"
  by (simp_all add: stub_world_def resolve_def os_path_join_def dirname_def)

theorem saved_video_saturates_and_rounds_witness:
  "\<exists>images frames wd'.
     postprocess \<lparr>dims5 = (1, 3, 1, 1, 5),
                  elt5 = (\<lambda>b c f h w. if w = 0 then MInf else if w = 1 then Fin (- 2)
                            else if w = 2 then Fin (- 497 / 500)
                            else if w = 3 then Fin 2 else PInf)\<rparr>
       = Inr images
     \<and> save_webm stub_env images ''output.webm'' 24 stub_world = (Inr (), wd')
     \<and> files wd' ''/w/output.webm'' = Some (VideoFile frames 24)
     \<and> length frames = 1
     \<and> pix (frames ! 0) 0 0 0 = 0
     \<and> pix (frames ! 0) 0 1 0 = 0
     \<and> pix (frames ! 0) 0 2 0 = 1
     \<and> pix (frames ! 0) 0 3 0 = 255
     \<and> pix (frames ! 0) 0 4 0 = 255"
proof -
  let ?V = "\<lparr>dims5 = (1, 3, 1, 1, 5),
              elt5 = (\<lambda>b c f h w. if w = 0 then MInf else if w = 1 then Fin (- 2)
                            else if w = 2 then Fin (- 497 / 500)
                            else if w = 3 then Fin 2 else PInf)\<rparr> :: fl tensor5"
  let ?h = "(1 / 2, 1 / 2, 1 / 2) :: real \<times> real \<times> real"
  note T = saved_video_saturates_and_rounds [where video = ?V and i = 1 and f = 1 and h = 1
      and w = 5 and n = 0 and c = 0 and j = 0 and y = 0 and std = ?h and mean = ?h
      and wd = stub_world and file_path = "''output.webm''" and env = stub_env and fps = 24,
      unfolded stub_world_output(2)]
  have a0: "\<exists>images frames wd'. tensor2vid ?V ?h ?h = Inr images
        \<and> save_webm stub_env images ''output.webm'' 24 stub_world = (Inr (), wd')
        \<and> files wd' ''/w/output.webm'' = Some (VideoFile frames 24)
        \<and> length frames = 1
        \<and> pix (frames ! 0) 0 0 0 = 0"
    using T [where x = 0] stub_world_output(3) by simp
  then obtain images frames wd' where i: "tensor2vid ?V ?h ?h = Inr images"
    and s: "save_webm stub_env images ''output.webm'' 24 stub_world = (Inr (), wd')"
    and f: "files wd' ''/w/output.webm'' = Some (VideoFile frames 24)"
    and l: "length frames = 1"
    and p0: "pix (frames ! 0) 0 0 0 = 0"
    by blast
  have "\<exists>images frames wd'. tensor2vid ?V ?h ?h = Inr images
        \<and> save_webm stub_env images ''output.webm'' 24 stub_world = (Inr (), wd')
        \<and> files wd' ''/w/output.webm'' = Some (VideoFile frames 24)
        \<and> pix (frames ! 0) 0 1 0 = 0"
    using T [where x = 1] stub_world_output(3)
    by (simp del: add_2_eq_Suc add_2_eq_Suc'; blast)
  with i s f have p1: "pix (frames ! 0) 0 1 0 = 0" by auto
  have "\<exists>images frames wd'. tensor2vid ?V ?h ?h = Inr images
        \<and> save_webm stub_env images ''output.webm'' 24 stub_world = (Inr (), wd')
        \<and> files wd' ''/w/output.webm'' = Some (VideoFile frames 24)
        \<and> (\<exists>k. pix (frames ! 0) 0 2 0 = word_of_int k
               \<and> \<bar>real_of_int k - 255 * (- 497 / 500 * (1 / 2) + 1 / 2)\<bar> \<le> 1 / 2)"
    using T [where x = 2] stub_world_output(3)
    by (simp del: add_2_eq_Suc add_2_eq_Suc'; blast)
  with i s f obtain k where k: "pix (frames ! 0) 0 2 0 = word_of_int k"
    and kk: "\<bar>real_of_int k - 255 * (- 497 / 500 * (1 / 2) + 1 / 2)\<bar> \<le> 1 / 2"
    by auto
  from kk have "\<bar>real_of_int k - 153 / 200\<bar> \<le> 1 / 2" by simp
  then have "0 < k \<and> k < 2" by (auto simp: abs_le_iff; linarith)
  then have "k = 1" by linarith
  with k have p2: "pix (frames ! 0) 0 2 0 = 1" by simp
  have "\<exists>images frames wd'. tensor2vid ?V ?h ?h = Inr images
        \<and> save_webm stub_env images ''output.webm'' 24 stub_world = (Inr (), wd')
        \<and> files wd' ''/w/output.webm'' = Some (VideoFile frames 24)
        \<and> pix (frames ! 0) 0 3 0 = 255"
    using T [where x = 3] stub_world_output(3)
    by (simp del: add_2_eq_Suc add_2_eq_Suc'; blast)
  with i s f have p3: "pix (frames ! 0) 0 3 0 = 255" by auto
  have "\<exists>images frames wd'. tensor2vid ?V ?h ?h = Inr images
        \<and> save_webm stub_env images ''output.webm'' 24 stub_world = (Inr (), wd')
        \<and> files wd' ''/w/output.webm'' = Some (VideoFile frames 24)
        \<and> pix (frames ! 0) 0 4 0 = 255"
    using T [where x = 4] stub_world_output(3)
    by (simp del: add_2_eq_Suc add_2_eq_Suc'; blast)
  with i s f have p4: "pix (frames ! 0) 0 4 0 = 255" by auto
  from i s f l p0 p1 p2 p3 p4 show ?thesis
    unfolding postprocess_def by blast
qed
section \<open>Properties of the public call\<close>

lemma preprocess_eq:
  "preprocess env text text_neg w =
     ((text_encoder env text, text_encoder env text_neg),
      w\<lparr>trace := trace w @ [TextEncoded text, TextEncoded text_neg]\<rparr>)"
  by (simp add: preprocess_def Let_def)

lemma postprocess_error: "postprocess y = Inl e \<Longrightarrow> e = RuntimeError"
  by (auto simp: postprocess_def tensor2vid_def inplace5_def split: sum.splits if_splits)

lemma save_webm_cases:
  assumes "save_webm env out op fps w = (r, w')"
  shows "(r = Inr () \<and> dirname (resolve w op) \<in> dirs w
          \<and> w' = w\<lparr>files := (files w)(resolve w op \<mapsto>
                        VideoFile (frames_of (to_uint8_images (uint8_undefined env) out)) fps),
                    trace := trace w @ [FileWritten (resolve w op)]\<rparr>)
       \<or> ((\<exists>e. r = Inl e \<and> e \<noteq> InvalidImage) \<and> w' = w)"
  using write_file_cases [OF assms [unfolded save_webm_def Let_def]] by auto

lemma call_unfold:
  "call env text text_neg mf a0 r ip op fps w =
     (case process env (text_encoder env text) (text_encoder env text_neg) ip a0 r mf
             (w\<lparr>trace := trace w @ [TextEncoded text, TextEncoded text_neg]\<rparr>) of
        (Inl e, w2) \<Rightarrow> (Inl e, w2)
      | (Inr y, w2) \<Rightarrow>
          (case postprocess y of
             Inl e \<Rightarrow> (Inl e, w2)
           | Inr out \<Rightarrow>
               (case save_webm env out op fps w2 of
                  (Inl e, w3) \<Rightarrow> (Inl e, w3)
                | (Inr u, w3) \<Rightarrow> (Inr ''complete'', w3))))"
  by (simp add: call_def preprocess_eq)

lemma call_cases:
  assumes "call env text text_neg mf a0 r ip op fps w = (res, w')"
  shows "cwd w' = cwd w \<and> dirs w' = dirs w \<and> res \<noteq> Inl InvalidImage
       \<and> (\<exists>evs. trace w' = trace w @ TextEncoded text # TextEncoded text_neg # evs
                \<and> encoded_texts evs = []
                \<and> (sampler_runs evs = [] \<or> sampler_runs evs = [(9, 50, 0)]))"
proof -
  define w1 where "w1 = w\<lparr>trace := trace w @ [TextEncoded text, TextEncoded text_neg]\<rparr>"
  obtain r2 w2 where pr: "process env (text_encoder env text) (text_encoder env text_neg)
                            ip a0 r mf w1 = (r2, w2)"
    by (cases "process env (text_encoder env text) (text_encoder env text_neg) ip a0 r mf w1") auto
  have cu: "(res, w') =
      (case r2 of
         Inl e \<Rightarrow> (Inl e, w2)
       | Inr y \<Rightarrow>
          (case postprocess y of
             Inl e \<Rightarrow> (Inl e, w2)
           | Inr out \<Rightarrow>
               (case save_webm env out op fps w2 of
                  (Inl e, w3) \<Rightarrow> (Inl e, w3)
                | (Inr u, w3) \<Rightarrow> (Inr ''complete'', w3))))"
    using assms pr unfolding call_unfold w1_def [symmetric] by (simp split: sum.splits)
  have base: "cwd w2 = cwd w \<and> dirs w2 = dirs w \<and> r2 \<noteq> Inl InvalidImage
       \<and> (\<exists>evs. trace w2 = trace w @ TextEncoded text # TextEncoded text_neg # evs
                \<and> encoded_texts evs = []
                \<and> (sampler_runs evs = [] \<or> sampler_runs evs = [(9, 50, 0)]))"
    using process_cases [OF pr]
  proof
    assume "(\<exists>e. r2 = Inl e \<and> e \<noteq> InvalidImage) \<and> cwd w2 = cwd w1 \<and> dirs w2 = dirs w1
          \<and> (\<exists>evs. trace w2 = trace w1 @ evs \<and> sampler_runs evs = []
                    \<and> encoded_texts evs = [])"
    then show ?thesis by (auto simp: w1_def)
  next
    assume "\<exists>im latent w4. 0 < mf \<and> files w1 (resolve w1 ip) = Some (ImageFile im)
            \<and> initial_latent env im a0 r (nat mf) (generator w1) = Inr latent
            \<and> save_noise env latent (nat mf)
                 (w1\<lparr>generator := Suc (Suc (generator w1)),
                    trace := trace w1 @ [ImageOpened (resolve w1 ip) im]\<rparr>) = (Inr (), w4)
            \<and> w2 = w4\<lparr>trace := trace w4 @ [SamplerRun 9 50 0]\<rparr>
            \<and> r2 = decode_latents env
                      (ddim_sample_loop env latent (text_encoder env text)
                         (text_encoder env text_neg) 9 50 0)"
    then obtain im latent w4 where
      sn: "save_noise env latent (nat mf)
                 (w1\<lparr>generator := Suc (Suc (generator w1)),
                    trace := trace w1 @ [ImageOpened (resolve w1 ip) im]\<rparr>) = (Inr (), w4)"
      and w2: "w2 = w4\<lparr>trace := trace w4 @ [SamplerRun 9 50 0]\<rparr>"
      and r2: "r2 = decode_latents env
                      (ddim_sample_loop env latent (text_encoder env text)
                         (text_encoder env text_neg) 9 50 0)"
      by blast
    from save_noise_loop_result [OF sn [unfolded save_noise_def]]
    have "cwd w4 = cwd w" "dirs w4 = dirs w"
      and "trace w4 = trace w @ TextEncoded text # TextEncoded text_neg
              # (ImageOpened (resolve w ip) im
              # map (\<lambda>j. FileWritten (written_preview (cwd w) j)) [0..<nat mf])"
      by (auto simp: w1_def)
    moreover have "r2 \<noteq> Inl InvalidImage"
      using decode_latents_error [of env _ InvalidImage] r2 by auto
    ultimately show ?thesis
      by (intro conjI exI [of _ "ImageOpened (resolve w ip) im
              # map (\<lambda>j. FileWritten (written_preview (cwd w) j)) [0..<nat mf]
              @ [SamplerRun 9 50 0]"]) (simp_all add: w2)
  qed
  then obtain evs where c2: "cwd w2 = cwd w" and d2: "dirs w2 = dirs w"
    and n2: "r2 \<noteq> Inl InvalidImage"
    and t2: "trace w2 = trace w @ TextEncoded text # TextEncoded text_neg # evs"
    and e2: "encoded_texts evs = []"
    and g2: "sampler_runs evs = [] \<or> sampler_runs evs = [(9, 50, 0)]"
    by blast
  show ?thesis
  proof (cases r2)
    case (Inl e)
    then have "res = Inl e" "w' = w2" using cu by simp_all
    moreover have "e \<noteq> InvalidImage" using n2 Inl by simp
    ultimately show ?thesis using c2 d2 t2 e2 g2 by blast
  next
    case (Inr y)
    show ?thesis
    proof (cases "postprocess y")
      case (Inl e)
      then have "res = Inl e" "w' = w2" using cu Inr by simp_all
      moreover have "e = RuntimeError" using Inl by (rule postprocess_error)
      ultimately show ?thesis using c2 d2 t2 e2 g2 by auto
    next
      case (Inr out)
      obtain r3 w3 where sw: "save_webm env out op fps w2 = (r3, w3)"
        by (cases "save_webm env out op fps w2") auto
      have rw: "(res, w') = (case r3 of Inl e \<Rightarrow> (Inl e, w3) | Inr u \<Rightarrow> (Inr ''complete'', w3))"
        using cu \<open>r2 = Inr y\<close> Inr sw by (simp split: sum.splits)
      from save_webm_cases [OF sw]
      show ?thesis
      proof
        assume "r3 = Inr () \<and> dirname (resolve w2 op) \<in> dirs w2
          \<and> w3 = w2\<lparr>files := (files w2)(resolve w2 op \<mapsto>
                        VideoFile (frames_of (to_uint8_images (uint8_undefined env) out)) fps),
                    trace := trace w2 @ [FileWritten (resolve w2 op)]\<rparr>"
        then have "res = Inr ''complete''" and "cwd w' = cwd w" and "dirs w' = dirs w"
          and "trace w' = trace w @ TextEncoded text # TextEncoded text_neg
                  # (evs @ [FileWritten (resolve w2 op)])"
          using rw c2 d2 t2 by auto
        then show ?thesis using e2 g2
          by (intro conjI exI [of _ "evs @ [FileWritten (resolve w2 op)]"]) auto
      next
        assume "(\<exists>e. r3 = Inl e \<and> e \<noteq> InvalidImage) \<and> w3 = w2"
        then obtain e where r3: "r3 = Inl e" and ne: "e \<noteq> InvalidImage" and w3: "w3 = w2"
          by blast
        have "res = Inl e" and "w' = w2" using rw r3 w3 by simp_all
        then have "cwd w' = cwd w" and "dirs w' = dirs w" and "res \<noteq> Inl InvalidImage"
          and "trace w' = trace w @ TextEncoded text # TextEncoded text_neg # evs"
          using c2 d2 t2 ne by simp_all
        then show ?thesis using e2 g2 by (intro conjI exI [of _ evs]) simp_all
      qed
    qed
  qed
qed

lemma postprocess_ok:
  assumes "dims5 y = (i, 3, f, h, w)"
  shows "\<exists>images. postprocess y = Inr images \<and> dims4 images = (f, h, i * w, 3)"
  unfolding postprocess_def by (rule tensor2vid_dims [OF assms])

lemma call_ok:
  assumes "0 < mf" and "files w (resolve w ip) = Some (ImageFile im)"
    and "absolute (cwd w)" and "os_path_join (cwd w) ''noise'' \<in> dirs w"
    and "sampler_keeps_shape env" and "decoder_keeps_batch env"
    and "dirname (resolve w op) \<in> dirs w"
  shows "\<exists>frames w'. call env text text_neg mf a0 r ip op fps w = (Inr ''complete'', w')
           \<and> length frames = nat mf
           \<and> files w' (resolve w op) = Some (VideoFile frames fps)
           \<and> cwd w' = cwd w \<and> dirs w' = dirs w
           \<and> trace w' = trace w @ [TextEncoded text, TextEncoded text_neg,
                                    ImageOpened (resolve w ip) im]
                          @ map (\<lambda>j. FileWritten (preview_path (cwd w) j)) [0..<nat mf]
                          @ [SamplerRun 9 50 0, FileWritten (resolve w op)]"
proof -
  define w1 where "w1 = w\<lparr>trace := trace w @ [TextEncoded text, TextEncoded text_neg]\<rparr>"
  define te where "te = text_encoder env text"
  define tn where "tn = text_encoder env text_neg"
  have f1: "files w1 (resolve w1 ip) = Some (ImageFile im)"
    and a1: "absolute (cwd w1)" and n1: "os_path_join (cwd w1) ''noise'' \<in> dirs w1"
    using assms(2-4) by (simp_all add: w1_def)
  from process_ok [OF assms(1) f1 a1 n1, of env a0 r te tn]
  obtain latent w4 where dl: "dims5 latent = (1, 4, nat mf, 32, 32)"
    and sn: "save_noise env latent (nat mf)
                (w1\<lparr>generator := Suc (Suc (generator w1)),
                   trace := trace w1 @ [ImageOpened (resolve w1 ip) im]\<rparr>) = (Inr (), w4)"
    and pr: "process env te tn ip a0 r mf w1
               = (decode_latents env (ddim_sample_loop env latent te tn 9 50 0),
                  w4\<lparr>trace := trace w4 @ [SamplerRun 9 50 0]\<rparr>)"
    by blast
  have a3: "absolute (cwd (w1\<lparr>generator := Suc (Suc (generator w1)),
                   trace := trace w1 @ [ImageOpened (resolve w1 ip) im]\<rparr>))"
    using a1 by simp
  from save_noise_ok_result [OF sn a3]
  have c4: "cwd w4 = cwd w" and d4: "dirs w4 = dirs w"
    and t4: "trace w4 = trace w @ [TextEncoded text, TextEncoded text_neg,
                                   ImageOpened (resolve w ip) im]
                        @ map (\<lambda>j. FileWritten (preview_path (cwd w) j)) [0..<nat mf]"
    by (simp_all add: w1_def)
  from decode_latents_ok [OF assms(5,6) dl, of te tn 9 50 0]
  obtain v h' x' where dv: "decode_latents env (ddim_sample_loop env latent te tn 9 50 0) = Inr v"
    and dims: "dims5 v = (1, 3, nat mf, h', x')"
    by blast
  from postprocess_ok [OF dims]
  obtain images where pp: "postprocess v = Inr images"
    and di: "dims4 images = (nat mf, h', 1 * x', 3)"
    by blast
  define w5 where "w5 = w4\<lparr>trace := trace w4 @ [SamplerRun 9 50 0]\<rparr>"
  define frames where "frames = frames_of (to_uint8_images (uint8_undefined env) images)"
  have lf: "length frames = nat mf"
    unfolding frames_def
    by (rule frames_of_length [of _ _ h' "1 * x'" 3]) (simp add: to_uint8_images_def map4_def di)
  have r5: "resolve w5 op = resolve w op" by (simp add: w5_def resolve_def c4)
  have "dirname (resolve w5 op) \<in> dirs w5"
    using assms(7) by (simp add: r5) (simp add: w5_def d4)
  from write_file_ok [OF this, of "VideoFile frames fps"]
  have sw: "save_webm env images op fps w5
            = (Inr (), w5\<lparr>files := (files w5)(resolve w op \<mapsto> VideoFile frames fps),
                          trace := trace w5 @ [FileWritten (resolve w op)]\<rparr>)"
    by (simp add: save_webm_def frames_def Let_def r5)
  define w6 where "w6 = w5\<lparr>files := (files w5)(resolve w op \<mapsto> VideoFile frames fps),
                          trace := trace w5 @ [FileWritten (resolve w op)]\<rparr>"
  have pr': "process env (text_encoder env text) (text_encoder env text_neg) ip a0 r mf
               (w\<lparr>trace := trace w @ [TextEncoded text, TextEncoded text_neg]\<rparr>) = (Inr v, w5)"
    using pr dv by (simp add: te_def tn_def w1_def w5_def)
  have sw': "save_webm env images op fps w5 = (Inr (), w6)"
    using sw by (simp add: w6_def)
  have "call env text text_neg mf a0 r ip op fps w = (Inr ''complete'', w6)"
    unfolding call_unfold
    by (simp only: pr' prod.case sum.case pp sw')
  moreover have "files w6 (resolve w op) = Some (VideoFile frames fps)"
    by (simp add: w6_def)
  moreover have "cwd w6 = cwd w" "dirs w6 = dirs w"
    by (simp_all add: w6_def w5_def c4 d4)
  moreover have "trace w6 = trace w @ [TextEncoded text, TextEncoded text_neg,
                                    ImageOpened (resolve w ip) im]
                          @ map (\<lambda>j. FileWritten (preview_path (cwd w) j)) [0..<nat mf]
                          @ [SamplerRun 9 50 0, FileWritten (resolve w op)]"
    by (simp add: w6_def w5_def t4)
  ultimately show ?thesis using lf by blast
qed

text \<open>
  The sampler is used nowhere but in the one run of \<^verbatim>\<open>process\<close>: every other step reads
  other collaborators only.
\<close>

lemma pil_resize_sampler_irrelevant:
  "pil_resize (env\<lparr>ddim_sample_loop := f\<rparr>) = pil_resize env"
  by (simp add: fun_eq_iff pil_resize_def)

lemma sampler_irrelevant:
  "torch_randn (env\<lparr>ddim_sample_loop := f\<rparr>) = torch_randn env"
  "preprocess_image_RGB (env\<lparr>ddim_sample_loop := f\<rparr>) = preprocess_image_RGB env"
  "save_preview (env\<lparr>ddim_sample_loop := f\<rparr>) = save_preview env"
  "decode_latents (env\<lparr>ddim_sample_loop := f\<rparr>) = decode_latents env"
  "preprocess (env\<lparr>ddim_sample_loop := f\<rparr>) = preprocess env"
  "save_webm (env\<lparr>ddim_sample_loop := f\<rparr>) = save_webm env"
  by (simp_all add: fun_eq_iff torch_randn_def preprocess_image_RGB_def
      pil_resize_sampler_irrelevant save_preview_def decode_latents_def preprocess_def
      save_webm_def split: prod.split sum.split)

lemma save_noise_loop_sampler_irrelevant:
  "save_noise_loop (env\<lparr>ddim_sample_loop := f\<rparr>) t js w = save_noise_loop env t js w"
  by (induction js arbitrary: w)
     (simp_all add: sampler_irrelevant cong: prod.case_cong sum.case_cong)

lemma save_noise_sampler_irrelevant:
  "save_noise (env\<lparr>ddim_sample_loop := f\<rparr>) = save_noise env"
  by (simp add: fun_eq_iff save_noise_def save_noise_loop_sampler_irrelevant)

lemma run_sampler_at_nine_fifty_zero:
  assumes "\<forall>noise y y_neg. f noise y y_neg 9 50 0 = ddim_sample_loop env noise y y_neg 9 50 0"
  shows "run_ddim_sample_loop (env\<lparr>ddim_sample_loop := f\<rparr>) noise y y_neg 9 50 0 w
         = run_ddim_sample_loop env noise y y_neg 9 50 0 w"
  using assms by (simp add: run_ddim_sample_loop_def)

lemma process_sampler_at_nine_fifty_zero:
  assumes "\<forall>noise y y_neg. f noise y y_neg 9 50 0 = ddim_sample_loop env noise y y_neg 9 50 0"
  shows "process (env\<lparr>ddim_sample_loop := f\<rparr>) te tn ip a0 r mf w = process env te tn ip a0 r mf w"
  unfolding process_def Let_def
  by (simp add: sampler_irrelevant save_noise_sampler_irrelevant
      run_sampler_at_nine_fifty_zero [of f env, OF assms]
      cong: prod.case_cong sum.case_cong)

lemma call_sampler_at_nine_fifty_zero:
  assumes "\<forall>noise y y_neg. f noise y y_neg 9 50 0 = ddim_sample_loop env noise y y_neg 9 50 0"
  shows "call (env\<lparr>ddim_sample_loop := f\<rparr>) text text_neg mf a0 r ip outp fps w
         = call env text text_neg mf a0 r ip outp fps w"
  unfolding call_def
  by (simp add: sampler_irrelevant process_sampler_at_nine_fifty_zero [of f env, OF assms]
      cong: prod.case_cong sum.case_cong)

lemma call_sampler_runs:
  "sampler_runs (trace (snd (call env text text_neg mf a0 r ip outp fps w)))
     = sampler_runs (trace w)
   \<or> sampler_runs (trace (snd (call env text text_neg mf a0 r ip outp fps w)))
     = sampler_runs (trace w) @ [(9, 50, 0)]"
proof -
  obtain res w' where c: "call env text text_neg mf a0 r ip outp fps w = (res, w')"
    by (cases "call env text text_neg mf a0 r ip outp fps w") auto
  from call_cases [OF c]
  obtain evs where "trace w' = trace w @ TextEncoded text # TextEncoded text_neg # evs"
    and "sampler_runs evs = [] \<or> sampler_runs evs = [(9, 50, 0)]"
    by blast
  then show ?thesis using c by auto
qed

text \<open>
  Claim C7, as amended. The guidance scale is not a parameter of the public call. Whatever
  the arguments of a call, the sampler is run at most once, and the arguments it is given are
  the guidance scale 9, 50 steps and eta 0: what the sampler would return for any other
  guidance scale, step count or eta has no influence on the result of the call or on the
  world it leaves (first part), and the runs the call records are none or the one run with
  (9, 50, 0) (second part).
\<close>

theorem sampler_always_given_nine_fifty_zero:
  "((\<forall>noise y y_neg. f noise y y_neg 9 50 0 = ddim_sample_loop env noise y y_neg 9 50 0)
      \<longrightarrow> call (env\<lparr>ddim_sample_loop := f\<rparr>) text text_neg mf a0 r ip outp fps w
          = call env text text_neg mf a0 r ip outp fps w)
   \<and> (sampler_runs (trace (snd (call env text text_neg mf a0 r ip outp fps w)))
        = sampler_runs (trace w)
      \<or> sampler_runs (trace (snd (call env text text_neg mf a0 r ip outp fps w)))
        = sampler_runs (trace w) @ [(9, 50, 0)])"
  using call_sampler_at_nine_fifty_zero [of f env] call_sampler_runs [of env] by blast

text \<open>What a call that returns has done.\<close>

lemma call_success:
  assumes "call env text text_neg mf a0 r ip outp fps w = (Inr res, w')"
  shows "\<exists>im latent v out. 0 < mf \<and> files w (resolve w ip) = Some (ImageFile im)
           \<and> initial_latent env im a0 r (nat mf) (generator w) = Inr latent
           \<and> dims5 latent = (1, 4, nat mf, 32, 32)
           \<and> decode_latents env
                (ddim_sample_loop env latent (text_encoder env text) (text_encoder env text_neg)
                   9 50 0) = Inr v
           \<and> postprocess v = Inr out
           \<and> files w' (resolve w outp)
               = Some (VideoFile (frames_of (to_uint8_images (uint8_undefined env) out)) fps)
           \<and> res = ''complete''"
proof -
  define w1 where "w1 = w\<lparr>trace := trace w @ [TextEncoded text, TextEncoded text_neg]\<rparr>"
  define te where "te = text_encoder env text"
  define tn where "tn = text_encoder env text_neg"
  obtain r2 w2 where pr: "process env te tn ip a0 r mf w1 = (r2, w2)"
    by (cases "process env te tn ip a0 r mf w1") auto
  have cu: "(Inr res, w') =
      (case r2 of
         Inl e \<Rightarrow> (Inl e, w2)
       | Inr y \<Rightarrow>
          (case postprocess y of
             Inl e \<Rightarrow> (Inl e, w2)
           | Inr out \<Rightarrow>
               (case save_webm env out outp fps w2 of
                  (Inl e, w3) \<Rightarrow> (Inl e, w3)
                | (Inr u, w3) \<Rightarrow> (Inr ''complete'', w3))))"
    using assms pr unfolding call_unfold w1_def [symmetric] te_def [symmetric] tn_def [symmetric]
    by (simp split: sum.splits)
  obtain v where r2: "r2 = Inr v" using cu by (cases r2) simp_all
  obtain out where pp: "postprocess v = Inr out" using cu r2 by (cases "postprocess v") simp_all
  obtain r3 w3 where sw: "save_webm env out outp fps w2 = (r3, w3)"
    by (cases "save_webm env out outp fps w2") auto
  have rw: "(Inr res, w') = (case r3 of Inl e \<Rightarrow> (Inl e, w3) | Inr u \<Rightarrow> (Inr ''complete'', w3))"
    using cu r2 pp sw by (simp split: sum.splits)
  obtain u where r3: "r3 = Inr u" using rw by (cases r3) simp_all
  have res: "res = ''complete''" and w': "w' = w3" using rw r3 by simp_all
  from save_webm_cases [OF sw] r3
  have w3: "w3 = w2\<lparr>files := (files w2)(resolve w2 outp \<mapsto>
                        VideoFile (frames_of (to_uint8_images (uint8_undefined env) out)) fps),
                    trace := trace w2 @ [FileWritten (resolve w2 outp)]\<rparr>"
    by auto
  have "cwd w' = cwd w" using call_cases [OF assms] by blast
  then have "cwd w2 = cwd w" by (simp add: w' w3)
  then have rs: "resolve w2 outp = resolve w outp" by (simp add: resolve_def)
  have fl: "files w' (resolve w outp)
               = Some (VideoFile (frames_of (to_uint8_images (uint8_undefined env) out)) fps)"
    by (simp add: w' w3 rs)
  from process_cases [OF pr] r2
  obtain im latent where mf: "0 < mf"
    and f1: "files w1 (resolve w1 ip) = Some (ImageFile im)"
    and il: "initial_latent env im a0 r (nat mf) (generator w1) = Inr latent"
    and dl: "Inr v = decode_latents env (ddim_sample_loop env latent te tn 9 50 0)"
    by auto
  have F: "0 < nat mf" using mf by simp
  from initial_latent_ok [OF F, of env im a0 r "generator w1"] il
  have dims: "dims5 latent = (1, 4, nat mf, 32, 32)" by auto
  have "files w (resolve w ip) = Some (ImageFile im)"
    and "initial_latent env im a0 r (nat mf) (generator w) = Inr latent"
    using f1 il by (simp_all add: w1_def)
  with mf dims dl [symmetric] pp fl res show ?thesis
    unfolding te_def tn_def by blast
qed

text \<open>The probe: every decoded value is \<open>2 * g / 255 - 1\<close>, so every byte shows \<open>g\<close>.\<close>

lemma probe_env_contracts:
  "sampler_keeps_shape probe_env" "decoder_keeps_batch probe_env"
  by (auto simp: sampler_keeps_shape_def decoder_keeps_batch_def probe_env_def stub_env_def
      stub_decode_def split: prod.splits)

lemma scale_factor_cancel: "1 / scale_factor * (scale_factor * k) = k"
  by (simp add: scale_factor_def)

lemma probe_decoded:
  assumes "dims5 latent = (1, 4, F, 32, 32)"
  shows "decode_latents probe_env (ddim_sample_loop probe_env latent y yn g n eta)
         = Inr \<lparr>dims5 = (1, 3, F, 32, 32),
                elt5 = (\<lambda>b c f h w. Fin (2 * g / 255 - 1))\<rparr>"
  using assms
  by (simp add: decode_latents_def Let_def probe_env_def stub_env_def stub_decode_def map5_def
      rearrange_bcfhw_bfchw_def rearrange_bfchw_bcfhw_def scale_factor_cancel
      del: times_divide_eq_left times_divide_eq_right)

lemma probe_video:
  assumes "dims5 latent = (1, 4, F, 32, 32)" and "0 < F"
    and "decode_latents probe_env (ddim_sample_loop probe_env latent y yn g n eta) = Inr v"
    and "postprocess v = Inr out"
  shows "frames_of (to_uint8_images ub out) \<noteq> []
       \<and> pix (hd (frames_of (to_uint8_images ub out))) 0 0 0 = to_pixel ub (Fin (g / 255))"
proof -
  have v: "v = \<lparr>dims5 = (1, 3, F, 32, 32), elt5 = (\<lambda>b c f h w. Fin (2 * g / 255 - 1))\<rparr>"
    using probe_decoded [OF assms(1), of y yn g n eta] assms(3) by simp
  then have dv: "dims5 v = (1, 3, F, 32, 32)" by simp
  from tensor2vid_dims [OF dv, of "(1 / 2, 1 / 2, 1 / 2)" "(1 / 2, 1 / 2, 1 / 2)"] assms(4)
  have d: "dims4 out = (F, 32, 1 * 32, 3)" by (simp add: postprocess_def)
  have "elt4 out 0 0 (0 * 32 + 0) 0
        = fadd (fmul (elt5 v 0 0 0 0 0) (Fin (chan3 (1 / 2, 1 / 2, 1 / 2) 0)))
               (Fin (chan3 (1 / 2, 1 / 2, 1 / 2) 0))"
    by (rule tensor2vid_elt [OF dv assms(4) [unfolded postprocess_def]]) (simp_all add: assms(2))
  moreover have "(2 * g / 255 - 1) * (1 / 2) + 1 / 2 = g / 255" by (simp add: field_simps)
  ultimately have e: "elt4 out 0 0 0 0 = Fin (g / 255)" by (simp add: v)
  have d8: "dims4 (to_uint8_images ub out) = (F, 32, 1 * 32, 3)"
    by (simp add: to_uint8_images_dims d)
  have len: "length (frames_of (to_uint8_images ub out)) = F"
    by (rule frames_of_length [OF d8])
  then have ne: "frames_of (to_uint8_images ub out) \<noteq> []" using assms(2) by auto
  have "pix (frames_of (to_uint8_images ub out) ! 0) 0 0 0 = to_pixel ub (Fin (g / 255))"
    by (simp add: frames_of_pix [OF d8 assms(2)] to_uint8_images_elt e)
  then show ?thesis using ne by (simp add: hd_conv_nth)
qed

lemma to_pixel_nine: "to_pixel ub (Fin (9 / 255)) = 9"
  by (simp add: to_pixel_def to_uint8_def round_half_even_def)

lemma to_pixel_seven_and_a_half: "to_pixel ub (Fin (15 / 2 / 255)) = 8"
  by (simp add: to_pixel_def to_uint8_def round_half_even_def)

lemma world_with_output:
  "dirname (resolve (world_with im) ''output.webm'') \<in> dirs (world_with im)"
  "resolve (world_with im) ''output.webm'' = ''/w/output.webm''"
  by (simp_all add: world_with_def stub_world_def resolve_def os_path_join_def dirname_def)

lemma stub_call_ok:
  assumes "sampler_keeps_shape env" and "decoder_keeps_batch env"
  shows "\<exists>frames w'. call env ''a cat'' [] 2 (23 / 100) (8 / 10)
                        ''input.png'' ''output.webm'' 24 (world_with gray_image)
                      = (Inr ''complete'', w')
           \<and> files w' ''/w/output.webm'' = Some (VideoFile frames 24)
           \<and> trace w' = [TextEncoded ''a cat'', TextEncoded [],
                          ImageOpened ''/w/input.png'' gray_image]
                          @ map (\<lambda>j. FileWritten (preview_path ''/w'' j)) [0..<nat 2]
                          @ [SamplerRun 9 50 0, FileWritten ''/w/output.webm'']"
proof -
  let ?W = "world_with gray_image"
  have f: "files ?W (resolve ?W ''input.png'') = Some (ImageFile gray_image)"
    by (simp add: world_with_facts)
  have n: "os_path_join (cwd ?W) ''noise'' \<in> dirs ?W" by (simp add: world_with_facts)
  from call_ok [OF _ f world_with_facts(5) n assms world_with_output(1),
      of 2 "''a cat''" "[]" "23 / 100" "8 / 10" 24]
  show ?thesis by (simp add: world_with_facts world_with_output(2)) blast
qed

theorem sampler_always_given_nine_fifty_zero_witness:
  "call (stub_env\<lparr>ddim_sample_loop :=
            (\<lambda>noise y y_neg g n eta.
               if g = 9 \<and> n = 50 \<and> eta = 0 then noise else zeros5 (dims5 noise))\<rparr>)
        ''a cat'' [] 2 (23 / 100) (8 / 10) ''input.png'' ''output.webm'' 24
        (world_with gray_image)
   = call stub_env ''a cat'' [] 2 (23 / 100) (8 / 10) ''input.png'' ''output.webm'' 24
        (world_with gray_image)
   \<and> sampler_runs (trace (snd (call stub_env ''a cat'' [] 2 (23 / 100) (8 / 10)
                                  ''input.png'' ''output.webm'' 24 (world_with gray_image))))
     = [(9, 50, 0)]"
proof -
  let ?f = "\<lambda>(noise :: fl tensor5) (y :: unit) (y_neg :: unit) (g :: real) (n :: nat) (eta :: real).
               if g = 9 \<and> n = 50 \<and> eta = 0 then noise else zeros5 (dims5 noise)"
  have h: "\<forall>noise y y_neg. ?f noise y y_neg 9 50 0 = ddim_sample_loop stub_env noise y y_neg 9 50 0"
    by (simp add: stub_env_def)
  from stub_call_ok [OF stub_env_contracts(1,2)]
  obtain w' where c: "call stub_env ''a cat'' [] 2 (23 / 100) (8 / 10)
                        ''input.png'' ''output.webm'' 24 (world_with gray_image)
                      = (Inr ''complete'', w')"
    and t: "trace w' = [TextEncoded ''a cat'', TextEncoded [],
                          ImageOpened ''/w/input.png'' gray_image]
                          @ map (\<lambda>j. FileWritten (preview_path ''/w'' j)) [0..<nat 2]
                          @ [SamplerRun 9 50 0, FileWritten ''/w/output.webm'']"
    by blast
  have "sampler_runs (trace w') = [(9, 50, 0)]" by (simp add: t)
  then show ?thesis
    using sampler_always_given_nine_fifty_zero [of ?f stub_env "''a cat''" "[]" 2
        "23 / 100" "8 / 10" "''input.png''" "''output.webm''" 24 "world_with gray_image"] h c
    by simp
qed

lemma probe_call_byte:
  assumes "call probe_env text text_neg mf a0 r ip outp fps w = (Inr res, w')"
  shows "\<exists>frames. files w' (resolve w outp) = Some (VideoFile frames fps)
           \<and> frames \<noteq> [] \<and> pix (hd frames) 0 0 0 = 9"
proof -
  from call_success [OF assms]
  obtain latent v out where mf: "0 < mf"
    and dl: "dims5 latent = (1, 4, nat mf, 32, 32)"
    and dc: "decode_latents probe_env
                (ddim_sample_loop probe_env latent (text_encoder probe_env text)
                   (text_encoder probe_env text_neg) 9 50 0) = Inr v"
    and pp: "postprocess v = Inr out"
    and fl: "files w' (resolve w outp)
               = Some (VideoFile (frames_of (to_uint8_images (uint8_undefined probe_env) out)) fps)"
    by blast
  have F: "0 < nat mf" using mf by simp
  have "to_pixel (uint8_undefined probe_env) (Fin (9 / 255)) = 9" by (rule to_pixel_nine)
  with probe_video [OF dl F dc pp, of "uint8_undefined probe_env"] fl
  show ?thesis by simp
qed

text \<open>
  The claim as stated fails: the caller cannot supply a guidance scale. With the probe, whose
  sampler writes the guidance scale it is given into its output (7.5 would show as the byte
  8), a call on the grey image writes a video whose first byte is 9, and no arguments of the
  public call make it write a video with another first byte.
\<close>

theorem no_call_supplies_guidance_scale:
  "(\<exists>w' frames. call probe_env ''a cat'' [] 2 (23 / 100) (8 / 10)
                   ''input.png'' ''output.webm'' 24 (world_with gray_image)
                 = (Inr ''complete'', w')
       \<and> files w' ''/w/output.webm'' = Some (VideoFile frames 24)
       \<and> pix (hd frames) 0 0 0 = 9)
   \<and> \<not> (\<exists>text text_neg mf a0 r ip outp fps w res w' frames fps'.
           call probe_env text text_neg mf a0 r ip outp fps w = (Inr res, w')
           \<and> files w' (resolve w outp) = Some (VideoFile frames fps')
           \<and> pix (hd frames) 0 0 0 \<noteq> 9)"
proof (intro conjI notI)
  from stub_call_ok [OF probe_env_contracts]
  obtain frames w' where c: "call probe_env ''a cat'' [] 2 (23 / 100) (8 / 10)
                   ''input.png'' ''output.webm'' 24 (world_with gray_image)
                 = (Inr ''complete'', w')"
    and f: "files w' ''/w/output.webm'' = Some (VideoFile frames 24)"
    by blast
  from probe_call_byte [OF c] f have "pix (hd frames) 0 0 0 = 9"
    by (simp add: world_with_output(2))
  with c f show "\<exists>w' frames. call probe_env ''a cat'' [] 2 (23 / 100) (8 / 10)
                   ''input.png'' ''output.webm'' 24 (world_with gray_image)
                 = (Inr ''complete'', w')
       \<and> files w' ''/w/output.webm'' = Some (VideoFile frames 24)
       \<and> pix (hd frames) 0 0 0 = 9"
    by blast
next
  assume "\<exists>text text_neg mf a0 r ip outp fps w res w' frames fps'.
           call probe_env text text_neg mf a0 r ip outp fps w = (Inr res, w')
           \<and> files w' (resolve w outp) = Some (VideoFile frames fps')
           \<and> pix (hd frames) 0 0 0 \<noteq> 9"
  then obtain tpos tneg mf a0 r ip outp fps w res w' frames fps'
    where c: "call probe_env tpos tneg mf a0 r ip outp fps w = (Inr res, w')"
      and f: "files w' (resolve w outp) = Some (VideoFile frames fps')"
      and p: "pix (hd frames) 0 0 0 \<noteq> 9"
    by blast
  from probe_call_byte [OF c] f p show False by simp
qed

end
